(* ===== verification/GoStrings.thy ===== *)
theory GoStrings
  imports Prelude
begin

text \<open>
  The functions of Go's \<open>strings\<close>, \<open>bytes\<close>, \<open>unicode/utf8\<close>, \<open>encoding/hex\<close>, \<open>path/filepath\<close>
  and \<open>bufio\<close> packages that the program calls, over byte strings. A \<open>range\<close> loop over a string
  visits runes: \<open>runes\<close> cuts a string the way \<open>utf8.DecodeRune\<close> does, an invalid byte being a
  chunk of its own.
\<close>

section \<open>UTF-8\<close>

definition is_ascii :: "char \<Rightarrow> bool" where
  "is_ascii c \<longleftrightarrow> byte c < 128"

definition is_cont :: "char \<Rightarrow> bool" where
  "is_cont c \<longleftrightarrow> 128 \<le> byte c \<and> byte c < 192"

text \<open>
  Size of the sequence a lead byte announces, with the range of its second byte (the
  \<open>acceptRanges\<close> table); \<open>None\<close> for a byte that starts no sequence.
\<close>

definition lead_info :: "nat \<Rightarrow> (nat \<times> nat \<times> nat) option" where
  "lead_info b =
     (if b < 194 then None
      else if b < 224 then Some (2, 128, 191)
      else if b = 224 then Some (3, 160, 191)
      else if b = 237 then Some (3, 128, 159)
      else if b < 240 then Some (3, 128, 191)
      else if b = 240 then Some (4, 144, 191)
      else if b < 244 then Some (4, 128, 191)
      else if b = 244 then Some (4, 128, 143)
      else None)"

text \<open>\<open>utf8.DecodeRune\<close>: how many bytes the first rune takes, and whether it is valid.\<close>

definition rune_size :: "string \<Rightarrow> nat \<times> bool" where
  "rune_size s =
     (case s of [] \<Rightarrow> (0, False)
      | c # cs \<Rightarrow>
          if is_ascii c then (1, True)
          else (case lead_info (byte c) of None \<Rightarrow> (1, False)
            | Some (n, lo, hi) \<Rightarrow>
                (case cs of [] \<Rightarrow> (1, False)
                 | d # ds \<Rightarrow>
                     if lo \<le> byte d \<and> byte d \<le> hi \<and> n - 2 \<le> length ds \<and> list_all is_cont (take (n - 2) ds)
                     then (n, True) else (1, False))))"

lemma rune_size_pos: "s \<noteq> [] \<Longrightarrow> 0 < fst (rune_size s)"
  by (auto simp: rune_size_def lead_info_def split: list.splits option.splits if_splits)

lemma rune_size_ascii [simp]: "is_ascii c \<Longrightarrow> rune_size (c # cs) = (1, True)"
  by (simp add: rune_size_def)

text \<open>The runes of a string: their bytes and whether they are valid.\<close>

function runes :: "string \<Rightarrow> (string \<times> bool) list" where
  "runes [] = []"
| "runes (c # cs) =
     (let n = fst (rune_size (c # cs)); v = snd (rune_size (c # cs))
      in (c # take (n - 1) cs, v) # runes (drop (n - 1) cs))"
  by pat_completeness auto
termination
  by (relation "measure length") auto

declare runes.simps(2) [simp del]

definition valid_utf8 :: "string \<Rightarrow> bool" where
  "valid_utf8 s \<longleftrightarrow> list_all snd (runes s)"

definition ascii_string :: "string \<Rightarrow> bool" where
  "ascii_string s \<longleftrightarrow> list_all is_ascii s"

lemma runes_ascii_Cons [simp]: "is_ascii c \<Longrightarrow> runes (c # cs) = ([c], True) # runes cs"
  by (simp add: runes.simps(2))

lemma runes_ascii: "ascii_string s \<Longrightarrow> runes s = map (\<lambda>c. ([c], True)) s"
  by (induction s) (simp_all add: ascii_string_def)

lemma ascii_valid_utf8: "ascii_string s \<Longrightarrow> valid_utf8 s"
  by (simp add: valid_utf8_def runes_ascii list_all_iff)

lemma concat_runes: "concat (map fst (runes s)) = s"
proof (induction s rule: runes.induct)
  case 1
  then show ?case by simp
next
  case (2 c cs)
  then show ?case by (simp add: runes.simps(2) Let_def)
qed

lemma runes_eq_Nil [simp]: "runes s = [] \<longleftrightarrow> s = []"
  by (cases s) (simp_all add: runes.simps(2) Let_def)

text \<open>\<open>utf8.EncodeRune\<close>.\<close>

definition encode_rune :: "nat \<Rightarrow> string" where
  "encode_rune n =
     (if n < 128 then [char_of n]
      else if n < 2048 then [char_of (192 + n div 64), char_of (128 + n mod 64)]
      else if n < 65536 then
        [char_of (224 + n div 4096), char_of (128 + (n div 64) mod 64), char_of (128 + n mod 64)]
      else [char_of (240 + n div 262144), char_of (128 + (n div 4096) mod 64),
            char_of (128 + (n div 64) mod 64), char_of (128 + n mod 64)])"

section \<open>Searching, splitting, trimming\<close>

fun index_of :: "string \<Rightarrow> string \<Rightarrow> nat option" where
  "index_of sub [] = (if sub = [] then Some 0 else None)"
| "index_of sub (c # cs) =
     (if prefix sub (c # cs) then Some 0 else map_option Suc (index_of sub cs))"

definition contains :: "string \<Rightarrow> string \<Rightarrow> bool" where
  "contains s sub \<longleftrightarrow> index_of sub s \<noteq> None"

text \<open>\<open>strings.Split\<close> with a one-byte separator: never the empty list.\<close>

fun split_on :: "char \<Rightarrow> string \<Rightarrow> string list" where
  "split_on x [] = [[]]"
| "split_on x (c # cs) =
     (if c = x then [] # split_on x cs
      else (case split_on x cs of [] \<Rightarrow> [[c]] | y # ys \<Rightarrow> (c # y) # ys))"

definition before_sep :: "char \<Rightarrow> string \<Rightarrow> string" where
  "before_sep x s = takeWhile (\<lambda>c. c \<noteq> x) s"

lemma split_on_nonempty [simp]: "split_on x s \<noteq> []"
  by (cases s) (auto split: list.splits)

lemma hd_split_on: "hd (split_on x s) = before_sep x s"
  by (induction s) (auto simp: before_sep_def split: list.splits)

lemma split_on_append_sep: "split_on x (s @ x # t) = split_on x s @ split_on x t"
proof (induction s)
  case Nil
  then show ?case by simp
next
  case (Cons c cs)
  obtain y ys where "split_on x cs = y # ys"
    using split_on_nonempty [of x cs] by (cases "split_on x cs") auto
  with Cons.IH show ?case by simp
qed

lemma split_on_no_sep: "x \<notin> set s \<Longrightarrow> split_on x s = [s]"
  by (induction s) auto

lemma split_on_no_sep_elem: "y \<in> set (split_on x s) \<Longrightarrow> x \<notin> set y"
  by (induction s arbitrary: y) (auto split: list.splits if_splits)

definition trim_right :: "char \<Rightarrow> string \<Rightarrow> string" where
  "trim_right x s = rev (dropWhile (\<lambda>c. c = x) (rev s))"

text \<open>
  \<open>unicode.IsSpace\<close> on a rune given by its bytes: the ASCII white space, U+0085, U+00A0 and the
  space separators above.
\<close>

definition space_rune :: "string \<Rightarrow> bool" where
  "space_rune r \<longleftrightarrow>
     map (of_char :: char \<Rightarrow> nat) r \<in>
       {[9], [10], [11], [12], [13], [32], [194, 133], [194, 160], [225, 154, 128],
        [226, 128, 128], [226, 128, 129], [226, 128, 130], [226, 128, 131], [226, 128, 132],
        [226, 128, 133], [226, 128, 134], [226, 128, 135], [226, 128, 136], [226, 128, 137],
        [226, 128, 138], [226, 128, 168], [226, 128, 169], [226, 128, 175], [226, 129, 159],
        [227, 128, 128]}"

definition trim_space :: "string \<Rightarrow> string" where
  "trim_space s =
     (let sp = (\<lambda>(r, v). v \<and> space_rune r)
      in concat (map fst (rev (dropWhile sp (rev (dropWhile sp (runes s)))))))"

text \<open>
  \<open>strings.ToLower\<close>: bytewise on ASCII; any other string goes through the Unicode case tables,
  which are the parameter \<open>ulower\<close>.
\<close>

definition lower_char :: "char \<Rightarrow> char" where
  "lower_char c = (if 65 \<le> byte c \<and> byte c \<le> 90 then char_of (byte c + 32) else c)"

definition upper_char :: "char \<Rightarrow> char" where
  "upper_char c = (if 97 \<le> byte c \<and> byte c \<le> 122 then char_of (byte c - 32) else c)"

definition to_lower :: "(string \<Rightarrow> string) \<Rightarrow> string \<Rightarrow> string" where
  "to_lower ulower s = (if ascii_string s then map lower_char s else ulower s)"

section \<open>Hexadecimal\<close>

definition hex_digit :: "nat \<Rightarrow> char" where
  "hex_digit n = (if n < 10 then char_of (48 + n) else char_of (87 + n))"

definition hex_encode :: "string \<Rightarrow> string" where
  "hex_encode s = concat (map (\<lambda>c. [hex_digit (byte c div 16), hex_digit (byte c mod 16)]) s)"

lemma length_hex_encode [simp]: "length (hex_encode s) = 2 * length s"
  by (induction s) (simp_all add: hex_encode_def)

lemma byte_hex_digit: "n < 16 \<Longrightarrow> byte (hex_digit n) = (if n < 10 then 48 + n else 87 + n)"
  by (simp add: hex_digit_def)

lemma hex_digit_inject:
  assumes less: "m < 16" "n < 16"
  shows "hex_digit m = hex_digit n \<longleftrightarrow> m = n"
proof
  assume "hex_digit m = hex_digit n"
  then have "byte (hex_digit m) = byte (hex_digit n)" by simp
  with less show "m = n" by (simp add: byte_hex_digit split: if_splits)
qed simp

lemma high_nibble_less [simp]: "byte c div 16 < 16"
  using nat_of_char_less_256 [of c] by linarith

lemma hex_digit_ascii: "n < 16 \<Longrightarrow> is_ascii (hex_digit n)"
  by (simp add: is_ascii_def byte_hex_digit)

lemma hex_encode_ascii [simp]: "ascii_string (hex_encode s)"
  by (induction s) (auto simp: hex_encode_def ascii_string_def hex_digit_ascii)

lemma hex_encode_inject [simp]: "hex_encode s = hex_encode t \<longleftrightarrow> s = t"
proof
  assume "hex_encode s = hex_encode t"
  then show "s = t"
  proof (induction s arbitrary: t)
    case Nil
    then show ?case by (cases t) (auto simp: hex_encode_def)
  next
    case (Cons c s)
    then obtain d t' where t: "t = d # t'" by (cases t) (auto simp: hex_encode_def)
    have "byte c div 16 = byte d div 16 \<and> byte c mod 16 = byte d mod 16"
      using Cons.prems by (simp add: t hex_encode_def hex_digit_inject)
    then have "byte c = byte d" by (metis div_mult_mod_eq)
    then have "c = d" by simp
    with Cons t show ?case by (simp add: hex_encode_def)
  qed
qed simp

section \<open>Paths\<close>

fun join_with :: "string \<Rightarrow> string list \<Rightarrow> string" where
  "join_with sep [] = []"
| "join_with sep [x] = x"
| "join_with sep (x # y # ys) = x @ sep @ join_with sep (y # ys)"

text \<open>\<open>filepath.Clean\<close> over path elements, the ones kept so far in reverse.\<close>

fun clean_elems :: "bool \<Rightarrow> string list \<Rightarrow> string list \<Rightarrow> string list" where
  "clean_elems rooted acc [] = rev acc"
| "clean_elems rooted acc (e # es) =
     (if e = [] \<or> e = ''.'' then clean_elems rooted acc es
      else if e = ''..'' then
        (case acc of [] \<Rightarrow> (if rooted then clean_elems rooted [] es
                          else clean_elems rooted [''..''] es)
         | a # as \<Rightarrow> (if a = ''..'' then clean_elems rooted (''..'' # acc) es
                     else clean_elems rooted as es))
      else clean_elems rooted (e # acc) es)"

definition clean_path :: "string \<Rightarrow> string" where
  "clean_path p =
     (let rooted = (case p of c # _ \<Rightarrow> c = CHR ''/'' | [] \<Rightarrow> False);
          out = join_with ''/'' (clean_elems rooted [] (split_on (CHR ''/'') p))
      in if rooted then CHR ''/'' # out else if out = [] then ''.'' else out)"

text \<open>\<open>filepath.Join\<close>: leading empty elements are ignored.\<close>

definition path_join :: "string list \<Rightarrow> string" where
  "path_join es =
     (let ns = dropWhile (\<lambda>e. e = []) es
      in if ns = [] then [] else clean_path (join_with ''/'' ns))"

text \<open>\<open>filepath.Base\<close>.\<close>

definition path_base :: "string \<Rightarrow> string" where
  "path_base p =
     (if p = [] then ''.''
      else let q = trim_right (CHR ''/'') p
           in if q = [] then ''/'' else rev (takeWhile (\<lambda>c. c \<noteq> CHR ''/'') (rev q)))"

section \<open>Line scanning\<close>

text \<open>
  \<open>bufio.Scanner\<close> with \<open>ScanLines\<close> and a buffer limit: the tokens delivered before the scanner
  stops, and whether it stopped on \<open>ErrTooLong\<close>. A line fits when it is shorter than the limit;
  one trailing carriage return is dropped; an unterminated last line counts when non-empty.
\<close>

definition drop_cr :: "string \<Rightarrow> string" where
  "drop_cr l = (if l \<noteq> [] \<and> last l = CHR 0x0D then butlast l else l)"

fun take_lines :: "nat \<Rightarrow> string list \<Rightarrow> string list \<times> bool" where
  "take_lines mx [] = ([], False)"
| "take_lines mx [l] =
     (if l = [] then ([], False) else if mx \<le> length l then ([], True) else ([drop_cr l], False))"
| "take_lines mx (l # l' # ls) =
     (if mx \<le> length l then ([], True)
      else (let r = take_lines mx (l' # ls) in (drop_cr l # fst r, snd r)))"

definition scan_lines :: "nat \<Rightarrow> string \<Rightarrow> string list \<times> bool" where
  "scan_lines mx s = take_lines mx (split_on (CHR 0x0A) s)"

lemma take_lines_Cons:
  "ls \<noteq> [] \<Longrightarrow> length l < mx \<Longrightarrow>
     take_lines mx (l # ls) = (drop_cr l # fst (take_lines mx ls), snd (take_lines mx ls))"
  by (cases ls) (auto simp: Let_def)

text \<open>A file of newline-terminated lines that fit is scanned line by line.\<close>

lemma scan_lines_cons:
  assumes "CHR 0x0A \<notin> set l" and "length l < mx"
  shows "scan_lines mx (l @ CHR 0x0A # s) =
           (drop_cr l # fst (scan_lines mx s), snd (scan_lines mx s))"
  using assms by (simp add: scan_lines_def split_on_append_sep split_on_no_sep take_lines_Cons)

lemma scan_lines_Nil [simp]: "scan_lines mx [] = ([], False)"
  by (simp add: scan_lines_def)

lemma scan_lines_too_long:
  assumes "CHR 0x0A \<notin> set l" and "mx \<le> length l" and "l \<noteq> []"
  shows "scan_lines mx (l @ CHR 0x0A # s) = ([], True)"
proof -
  obtain y ys where "split_on (CHR 0x0A) s = y # ys"
    using split_on_nonempty [of "CHR 0x0A" s] by (cases "split_on (CHR 0x0A) s") auto
  with assms show ?thesis by (simp add: scan_lines_def split_on_append_sep split_on_no_sep)
qed

end
