(* ===== verification/Json.thy ===== *)
theory Json
  imports GoStrings
begin

text \<open>
  The parts of \<open>encoding/json\<close> the program uses. A JSON text is parsed into a tree that keeps the
  spelling of strings (the bytes between the quotes) and of numbers, because a
  \<open>json.RawMessage\<close> keeps them: compacting a raw message is parsing it and rendering it again.
  \<open>quote\<close> is the encoder's string escaping (with HTML escaping, the default), \<open>unquote\<close> the
  decoder's reading of a string literal, and \<open>field_str\<close>, \<open>field_u64\<close> and \<open>field_raw\<close> decode struct fields
  from the members of an object, in order, with the case-insensitive match of field names.

  The parser spends one unit of fuel per member or level; \<open>parse_val_render\<close> shows that the
  length of the text is enough for every rendered tree.
\<close>

section \<open>Trees\<close>

datatype jv = JNull | JTrue | JFalse | JNum string | JStr string
  | JArr "jv list" | JObj "(string \<times> jv) list"

abbreviation nl :: char where "nl \<equiv> CHR 0x0A"
abbreviation dquote :: char where "dquote \<equiv> CHR 0x22"
abbreviation bslash :: char where "bslash \<equiv> CHR 0x5C"

definition is_ws :: "char \<Rightarrow> bool" where
  "is_ws c \<longleftrightarrow> c = CHR '' '' \<or> c = CHR 0x09 \<or> c = CHR 0x0D \<or> c = CHR 0x0A"

definition skip_ws :: "string \<Rightarrow> string" where
  "skip_ws s = dropWhile is_ws s"

definition is_hex :: "char \<Rightarrow> bool" where
  "is_hex c \<longleftrightarrow> is_digit c \<or> 65 \<le> byte c \<and> byte c \<le> 70 \<or> 97 \<le> byte c \<and> byte c \<le> 102"

definition simple_escape :: "char \<Rightarrow> bool" where
  "simple_escape e \<longleftrightarrow> e \<in> {dquote, bslash, CHR ''/'', CHR ''b'', CHR ''f'', CHR ''n'', CHR ''r'', CHR ''t''}"

section \<open>Scanning\<close>

text \<open>
  One unit of a string literal: a plain byte, a two-byte escape or a \<open>\u\<close> escape, and the rest.
\<close>

definition str_unit :: "string \<Rightarrow> (string \<times> string) option" where
  "str_unit s =
     (case s of [] \<Rightarrow> None
      | c # cs \<Rightarrow>
          if c = dquote \<or> byte c < 32 then None
          else if c = bslash then
            (case cs of [] \<Rightarrow> None
             | e # r \<Rightarrow>
                 if simple_escape e then Some ([c, e], r)
                 else if e = CHR ''u'' then
                   (if 4 \<le> length r \<and> list_all is_hex (take 4 r)
                    then Some (c # e # take 4 r, drop 4 r) else None)
                 else None)
          else Some ([c], cs))"

lemma str_unit_append: "str_unit s = Some (u, r) \<Longrightarrow> str_unit (s @ t) = Some (u, r @ t)"
  by (auto simp: str_unit_def split: list.splits if_splits)

lemma str_unit_split: "str_unit s = Some (u, r) \<Longrightarrow> s = u @ r \<and> u \<noteq> [] \<and> hd u \<noteq> dquote"
  by (auto simp: str_unit_def split: list.splits if_splits)

lemma str_unit_swap:
  assumes "str_unit s = Some (u, r)"
  shows "str_unit (u @ t) = Some (u, t)"
proof -
  obtain c cs where s: "s = c # cs" and c: "c \<noteq> dquote" "\<not> byte c < 32"
    using assms by (auto simp: str_unit_def split: list.splits if_splits)
  show ?thesis
  proof (cases "c = bslash")
    case False
    with assms s c show ?thesis by (auto simp: str_unit_def)
  next
    case True
    with assms s c obtain e es where e: "cs = e # es"
      by (cases cs) (simp_all add: str_unit_def)
    show ?thesis
    proof (cases "simple_escape e")
      case True
      with assms s c e \<open>c = bslash\<close> have "u = [c, e]" by (simp add: str_unit_def)
      with True c \<open>c = bslash\<close> show ?thesis by (simp add: str_unit_def)
    next
      case False
      with assms s c e \<open>c = bslash\<close> have "u = c # e # take 4 es" and "e = CHR ''u''"
        and "4 \<le> length es" and "list_all is_hex (take 4 es)"
        by (simp_all add: str_unit_def split: if_splits)
      with False c \<open>c = bslash\<close> show ?thesis by (simp add: str_unit_def)
    qed
  qed
qed

text \<open>After the opening quote: the bytes up to the closing quote, and what follows it.\<close>

function scan_str :: "string \<Rightarrow> (string \<times> string) option" where
  "scan_str [] = None"
| "scan_str (c # cs) =
     (if c = dquote then Some ([], cs)
      else (case str_unit (c # cs) of None \<Rightarrow> None
        | Some (u, r) \<Rightarrow> map_option (apfst (\<lambda>t. u @ t)) (scan_str r)))"
  by pat_completeness auto
termination
proof (relation "measure length")
  fix c cs x u r
  assume "str_unit (c # cs) = Some x" and "(u, r) = x"
  then have "c # cs = u @ r" and "u \<noteq> []" by (auto dest: str_unit_split)
  then show "(r, c # cs) \<in> measure length" by simp
qed simp

text \<open>A digit run; empty is an error.\<close>

definition scan_digits :: "string \<Rightarrow> (string \<times> string) option" where
  "scan_digits s = (if takeWhile is_digit s = [] then None
     else Some (takeWhile is_digit s, dropWhile is_digit s))"

definition scan_frac :: "string \<Rightarrow> (string \<times> string) option" where
  "scan_frac s = (case s of c # cs \<Rightarrow>
        if c = CHR ''.'' then map_option (apfst (\<lambda>t. c # t)) (scan_digits cs) else Some ([], s)
      | [] \<Rightarrow> Some ([], []))"

definition scan_exp :: "string \<Rightarrow> (string \<times> string) option" where
  "scan_exp s = (case s of c # cs \<Rightarrow>
        if c = CHR ''e'' \<or> c = CHR ''E'' then
          (case cs of d # ds \<Rightarrow>
               if d = CHR ''+'' \<or> d = CHR ''-''
               then map_option (apfst (\<lambda>t. c # d # t)) (scan_digits ds)
               else map_option (apfst (\<lambda>t. c # t)) (scan_digits cs)
           | [] \<Rightarrow> None)
        else Some ([], s)
      | [] \<Rightarrow> Some ([], []))"

definition scan_int :: "string \<Rightarrow> (string \<times> string) option" where
  "scan_int s = (case s of c # cs \<Rightarrow>
        if c = CHR ''0'' then Some ([c], cs) else scan_digits s
      | [] \<Rightarrow> None)"

definition num_sign :: "string \<Rightarrow> string" where
  "num_sign s = (case s of c # _ \<Rightarrow> if c = CHR ''-'' then [c] else [] | [] \<Rightarrow> [])"

definition scan_num :: "string \<Rightarrow> (string \<times> string) option" where
  "scan_num s =
     (let sg = num_sign s in
      case scan_int (drop (length sg) s) of None \<Rightarrow> None
      | Some (i, r) \<Rightarrow> (case scan_frac r of None \<Rightarrow> None
        | Some (f, r') \<Rightarrow> (case scan_exp r' of None \<Rightarrow> None
          | Some (e, r'') \<Rightarrow> Some (sg @ i @ f @ e, r''))))"

section \<open>Parsing\<close>

fun expect :: "string \<Rightarrow> 'a \<Rightarrow> string \<Rightarrow> ('a \<times> string) option" where
  "expect w v s = (if prefix w s then Some (v, drop (length w) s) else None)"

fun parse_val :: "nat \<Rightarrow> string \<Rightarrow> (jv \<times> string) option"
  and parse_elems :: "nat \<Rightarrow> string \<Rightarrow> (jv list \<times> string) option"
  and parse_members :: "nat \<Rightarrow> string \<Rightarrow> ((string \<times> jv) list \<times> string) option"
where
  "parse_val 0 s = None"
| "parse_val (Suc n) s =
     (case skip_ws s of [] \<Rightarrow> None
      | c # cs \<Rightarrow>
          if c = CHR ''{'' then
            (case skip_ws cs of d # r \<Rightarrow>
                 if d = CHR ''}'' then Some (JObj [], r)
                 else map_option (apfst JObj) (parse_members n cs)
             | [] \<Rightarrow> None)
          else if c = CHR ''['' then
            (case skip_ws cs of d # r \<Rightarrow>
                 if d = CHR '']'' then Some (JArr [], r)
                 else map_option (apfst JArr) (parse_elems n cs)
             | [] \<Rightarrow> None)
          else if c = dquote then map_option (apfst JStr) (scan_str cs)
          else if c = CHR ''t'' then expect ''rue'' JTrue cs
          else if c = CHR ''f'' then expect ''alse'' JFalse cs
          else if c = CHR ''n'' then expect ''ull'' JNull cs
          else map_option (apfst JNum) (scan_num (c # cs)))"
| "parse_elems 0 s = None"
| "parse_elems (Suc n) s =
     (case parse_val n s of None \<Rightarrow> None
      | Some (v, r) \<Rightarrow>
          (case skip_ws r of [] \<Rightarrow> None
           | c # cs \<Rightarrow>
               if c = CHR '']'' then Some ([v], cs)
               else if c = CHR '','' then map_option (apfst (\<lambda>vs. v # vs)) (parse_elems n cs)
               else None))"
| "parse_members 0 s = None"
| "parse_members (Suc n) s =
     (case skip_ws s of [] \<Rightarrow> None
      | c # cs \<Rightarrow>
          if c \<noteq> dquote then None
          else (case scan_str cs of None \<Rightarrow> None
            | Some (k, r) \<Rightarrow>
                (case skip_ws r of [] \<Rightarrow> None
                 | d # ds \<Rightarrow>
                     if d \<noteq> CHR '':'' then None
                     else (case parse_val n ds of None \<Rightarrow> None
                       | Some (v, r') \<Rightarrow>
                           (case skip_ws r' of [] \<Rightarrow> None
                            | e # es \<Rightarrow>
                                if e = CHR ''}'' then Some ([(k, v)], es)
                                else if e = CHR '','' then
                                  map_option (apfst (\<lambda>ms. (k, v) # ms)) (parse_members n es)
                                else None)))))"

text \<open>Nesting of arrays and objects, which the scanner bounds by 10000.\<close>

fun jdepth :: "jv \<Rightarrow> nat" where
  "jdepth (JArr vs) = Suc (Max (insert 0 (set (map jdepth vs))))"
| "jdepth (JObj ms) = Suc (Max (insert 0 (set (map (\<lambda>(k, v). jdepth v) ms))))"
| "jdepth _ = 0"

definition maxNestingDepth :: nat where "maxNestingDepth = 10000"

text \<open>The first value of a stream (\<open>Decoder.Decode\<close>) and a whole text (\<open>Unmarshal\<close>).\<close>

definition parse_first :: "string \<Rightarrow> (jv \<times> string) option" where
  "parse_first s = (case parse_val (Suc (length s)) s of
       Some (v, r) \<Rightarrow> if jdepth v \<le> maxNestingDepth then Some (v, r) else None
     | None \<Rightarrow> None)"

definition parse_text :: "string \<Rightarrow> jv option" where
  "parse_text s = (case parse_first s of
       Some (v, r) \<Rightarrow> if skip_ws r = [] then Some v else None
     | None \<Rightarrow> None)"

section \<open>Rendering\<close>

definition str_lit :: "string \<Rightarrow> string" where
  "str_lit raw = dquote # raw @ [dquote]"

fun commas :: "string list \<Rightarrow> string" where
  "commas [] = []"
| "commas [x] = x"
| "commas (x # y # ys) = x @ CHR '','' # commas (y # ys)"

fun render :: "jv \<Rightarrow> string" where
  "render JNull = ''null''"
| "render JTrue = ''true''"
| "render JFalse = ''false''"
| "render (JNum t) = t"
| "render (JStr raw) = str_lit raw"
| "render (JArr vs) = CHR ''['' # commas (map render vs) @ '']''"
| "render (JObj ms) =
     CHR ''{'' # commas (map (\<lambda>(k, v). str_lit k @ CHR '':'' # render v) ms) @ ''}''"

text \<open>Trees whose strings and numbers are spelled as the grammar says.\<close>

definition raw_str :: "string \<Rightarrow> bool" where
  "raw_str raw \<longleftrightarrow> scan_str (raw @ [dquote]) = Some (raw, [])"

definition raw_num :: "string \<Rightarrow> bool" where
  "raw_num t \<longleftrightarrow> scan_num t = Some (t, [])"

fun jwf :: "jv \<Rightarrow> bool" where
  "jwf (JNum t) = raw_num t"
| "jwf (JStr raw) = raw_str raw"
| "jwf (JArr vs) = (\<forall>v\<in>set vs. jwf v)"
| "jwf (JObj ms) = (\<forall>m\<in>set ms. raw_str (fst m) \<and> jwf (snd m))"
| "jwf _ = True"


section \<open>Parsing what was rendered\<close>

text \<open>Strings: what the scanner accepts it accepts in any context, and it spells what it read.\<close>

lemma scan_str_append: "scan_str s = Some (raw, r) \<Longrightarrow> scan_str (s @ t) = Some (raw, r @ t)"
proof (induction s arbitrary: raw r rule: scan_str.induct)
  case 1
  then show ?case by simp
next
  case (2 c cs)
  then show ?case
    using str_unit_append [of "c # cs"] by (auto split: option.splits if_splits)
qed

lemma scan_str_split: "scan_str s = Some (raw, r) \<Longrightarrow> s = raw @ dquote # r"
proof (induction s arbitrary: raw r rule: scan_str.induct)
  case 1
  then show ?case by simp
next
  case (2 c cs)
  then show ?case
    using str_unit_split [of "c # cs"] by (auto split: option.splits if_splits)
qed

lemma scan_str_raw: "raw_str raw \<Longrightarrow> scan_str (raw @ dquote # t) = Some (raw, t)"
  using scan_str_append [of "raw @ [dquote]" raw "[]" t] by (simp add: raw_str_def)

lemma raw_str_Nil [simp]: "raw_str []"
  by (simp add: raw_str_def)

lemma raw_str_unit:
  assumes "str_unit s = Some (u, r)" and "raw_str raw"
  shows "raw_str (u @ raw)"
proof -
  obtain c cs where u: "u = c # cs" and "c \<noteq> dquote"
    using str_unit_split [OF assms(1)] by (cases u) auto
  have "str_unit (u @ raw @ [dquote]) = Some (u, raw @ [dquote])"
    by (rule str_unit_swap [OF assms(1)])
  with u \<open>c \<noteq> dquote\<close> assms(2) show ?thesis by (simp add: raw_str_def)
qed

lemma scan_str_raw_str: "scan_str s = Some (raw, r) \<Longrightarrow> raw_str raw"
proof (induction s arbitrary: raw r rule: scan_str.induct)
  case 1
  then show ?case by simp
next
  case (2 c cs)
  then show ?case
    using raw_str_unit [of "c # cs"] by (auto split: option.splits if_splits)
qed

text \<open>Numbers: a rendered number must not be followed by a byte that would extend it.\<close>

definition num_stop :: "string \<Rightarrow> bool" where
  "num_stop t \<longleftrightarrow> (case t of [] \<Rightarrow> True
     | d # _ \<Rightarrow> \<not> is_digit d \<and> d \<noteq> CHR ''.'' \<and> d \<noteq> CHR ''e'' \<and> d \<noteq> CHR ''E'')"

lemma num_stop_simps [simp]:
  "num_stop []" "num_stop (CHR '','' # t)" "num_stop (CHR '']'' # t)" "num_stop (CHR ''}'' # t)"
  by (simp_all add: num_stop_def is_digit_def)

lemma scan_digits_append:
  assumes "scan_digits s = Some (a, r)" and "num_stop t"
  shows "scan_digits (s @ t) = Some (a, r @ t)"
proof (cases "list_all is_digit s")
  case True
  with assms show ?thesis
    by (cases t) (auto simp: scan_digits_def num_stop_def takeWhile_append_stop dropWhile_append_stop
        split: if_splits)
next
  case False
  then have "\<exists>x\<in>set s. \<not> is_digit x" by (simp add: list_all_iff)
  with assms show ?thesis
    by (auto simp: scan_digits_def takeWhile_append dropWhile_append split: if_splits)
qed

lemma scan_frac_append:
  "scan_frac s = Some (a, r) \<Longrightarrow> num_stop t \<Longrightarrow> scan_frac (s @ t) = Some (a, r @ t)"
  by (cases t) (auto simp: scan_frac_def num_stop_def scan_digits_append split: list.splits if_splits)

lemma scan_exp_append:
  "scan_exp s = Some (a, r) \<Longrightarrow> num_stop t \<Longrightarrow> scan_exp (s @ t) = Some (a, r @ t)"
  using scan_digits_append [of "x # xs" for x xs]
  by (cases t) (auto simp: scan_exp_def num_stop_def scan_digits_append split: list.splits if_splits)

lemma scan_int_append:
  "scan_int s = Some (a, r) \<Longrightarrow> num_stop t \<Longrightarrow> scan_int (s @ t) = Some (a, r @ t)"
  using scan_digits_append [of s a r t]
  by (auto simp: scan_int_def split: list.splits if_splits)

lemma scan_int_Some: "scan_int s = Some (a, r) \<Longrightarrow> s \<noteq> [] \<and> is_digit (hd s)"
  by (auto simp: scan_int_def scan_digits_def is_digit_def split: list.splits if_splits)

lemma num_sign_cases: "num_sign s = [] \<or> num_sign s = ''-''"
  by (auto simp: num_sign_def split: list.splits)

lemma num_sign_append: "s \<noteq> [] \<Longrightarrow> num_sign (s @ t) = num_sign s \<and> length (num_sign s) \<le> length s"
  by (cases s) (auto simp: num_sign_def)

lemma scan_num_parts:
  assumes "scan_num s = Some (a, r)"
  obtains i r1 f r2 e where "scan_int (drop (length (num_sign s)) s) = Some (i, r1)"
    and "scan_frac r1 = Some (f, r2)" and "scan_exp r2 = Some (e, r)" and "a = num_sign s @ i @ f @ e"
  using assms by (auto simp: scan_num_def Let_def split: option.splits)

lemma scan_num_append:
  assumes "scan_num s = Some (a, r)" and t: "num_stop t"
  shows "scan_num (s @ t) = Some (a, r @ t)"
  using assms(1)
proof (cases rule: scan_num_parts)
  case (1 i r1 f r2 e)
  have "s \<noteq> []" using 1(1) by (cases s) (auto simp: scan_int_def)
  then have "num_sign (s @ t) = num_sign s"
    and "drop (length (num_sign s)) (s @ t) = drop (length (num_sign s)) s @ t"
    using num_sign_append [of s t] by simp_all
  then show ?thesis
    using scan_int_append [OF 1(1) t] scan_frac_append [OF 1(2) t] scan_exp_append [OF 1(3) t] 1(4)
    by (simp add: scan_num_def Let_def)
qed

lemma scan_raw_num: "raw_num u \<Longrightarrow> num_stop t \<Longrightarrow> scan_num (u @ t) = Some (u, t)"
  using scan_num_append [of u u "[]" t] by (simp add: raw_num_def)

lemma raw_num_hd:
  assumes "raw_num u"
  obtains c cs where "u = c # cs" and "c = CHR ''-'' \<or> is_digit c"
proof -
  from assms have "u \<noteq> []" by (cases u) (auto simp: raw_num_def scan_num_def scan_int_def)
  then obtain c cs where u: "u = c # cs" by (cases u) auto
  with assms have "c = CHR ''-'' \<or> is_digit c"
    by (auto simp: raw_num_def scan_num_def num_sign_def split: option.splits if_splits dest: scan_int_Some)
  with u that show thesis by blast
qed

lemma not_ws_num: "c = CHR ''-'' \<or> is_digit c \<Longrightarrow>
  \<not> is_ws c \<and> c \<noteq> CHR ''{'' \<and> c \<noteq> CHR ''['' \<and> c \<noteq> dquote \<and> c \<noteq> CHR ''t'' \<and> c \<noteq> CHR ''f''
    \<and> c \<noteq> CHR ''n'' \<and> c \<noteq> CHR '']'' \<and> c \<noteq> CHR ''}''"
  by (auto simp: is_ws_def is_digit_def)

lemma skip_ws_Cons [simp]: "\<not> is_ws c \<Longrightarrow> skip_ws (c # cs) = c # cs"
  by (simp add: skip_ws_def)

lemma is_ws_punct [simp]:
  "\<not> is_ws (CHR ''{'')" "\<not> is_ws (CHR ''}'')" "\<not> is_ws (CHR ''['')" "\<not> is_ws (CHR '']'')"
  "\<not> is_ws (CHR '','')" "\<not> is_ws (CHR '':'')" "\<not> is_ws dquote"
  "\<not> is_ws (CHR ''n'')" "\<not> is_ws (CHR ''t'')" "\<not> is_ws (CHR ''f'')"
  by (simp_all add: is_ws_def)

text \<open>A rendered tree starts with a byte that is no white space and closes nothing.\<close>

lemma render_hd:
  assumes "jwf v"
  obtains c cs where "render v = c # cs" and "\<not> is_ws c" and "c \<noteq> CHR '']''" and "c \<noteq> CHR ''}''"
proof (cases v)
  case (JNum u)
  with assms obtain c cs where "u = c # cs" "c = CHR ''-'' \<or> is_digit c"
    by (auto elim: raw_num_hd)
  with JNum not_ws_num [of c] that show ?thesis by simp
qed (use that in \<open>simp_all add: str_lit_def\<close>)

lemma render_nonempty: "jwf v \<Longrightarrow> 0 < length (render v)"
  by (rule render_hd [of v]) simp_all

definition member_text :: "string \<times> jv \<Rightarrow> string" where
  "member_text m = str_lit (fst m) @ CHR '':'' # render (snd m)"

lemma render_JObj: "render (JObj ms) = CHR ''{'' # commas (map member_text ms) @ ''}''"
proof -
  have "(\<lambda>(k, v). str_lit k @ CHR '':'' # render v) = member_text"
    by (auto simp: member_text_def)
  then show ?thesis by simp
qed

declare render.simps(7) [simp del] render_JObj [simp]

lemma member_text_pair: "member_text (k, v) = str_lit k @ CHR '':'' # render v"
  by (simp add: member_text_def)

lemma commas_Cons: "xs \<noteq> [] \<Longrightarrow> commas (x # xs) = x @ CHR '','' # commas xs"
  by (cases xs) simp_all

text \<open>What \<open>parse_val\<close> must do on a rendered tree, as a predicate for the induction.\<close>

definition parses :: "jv \<Rightarrow> bool" where
  "parses v \<longleftrightarrow> jwf v \<and>
     (\<forall>n t. length (render v) \<le> n \<longrightarrow> num_stop t \<longrightarrow> parse_val n (render v @ t) = Some (v, t))"

lemma parsesD: "parses v \<Longrightarrow> length (render v) \<le> n \<Longrightarrow> num_stop t \<Longrightarrow>
    parse_val n (render v @ t) = Some (v, t)"
  by (simp add: parses_def)

lemma parse_elems_render:
  assumes "\<forall>v\<in>set vs. parses v" and "vs \<noteq> []" and "length (commas (map render vs)) < n"
  shows "parse_elems n (commas (map render vs) @ CHR '']'' # t) = Some (vs, t)"
  using assms
proof (induction vs arbitrary: n)
  case Nil
  then show ?case by simp
next
  case (Cons v vs)
  then obtain m where n: "n = Suc m" by (cases n) auto
  show ?case
  proof (cases "vs = []")
    case True
    with Cons n parsesD [of v m] show ?thesis by simp
  next
    case False
    with Cons.prems n have "length (commas (map render vs)) < m" and "length (render v) \<le> m"
      by (simp_all add: commas_Cons)
    with Cons False n parsesD [of v m] show ?thesis by (simp add: commas_Cons)
  qed
qed

lemma parse_members_render:
  assumes "\<forall>m\<in>set ms. raw_str (fst m) \<and> parses (snd m)" and "ms \<noteq> []"
    and "length (commas (map member_text ms)) < n"
  shows "parse_members n (commas (map member_text ms) @ CHR ''}'' # t) = Some (ms, t)"
  using assms
proof (induction ms arbitrary: n)
  case Nil
  then show ?case by simp
next
  case (Cons m ms)
  obtain k v where m: "m = (k, v)" by (cases m) auto
  from Cons.prems obtain l where n: "n = Suc l" by (cases n) auto
  show ?case
  proof (cases "ms = []")
    case True
    with Cons m n parsesD [of v l] show ?thesis
      by (simp add: member_text_pair str_lit_def scan_str_raw)
  next
    case False
    with Cons.prems n m have "length (commas (map member_text ms)) < l" and "length (render v) \<le> l"
      by (simp_all add: commas_Cons member_text_pair)
    with Cons m False n parsesD [of v l] show ?thesis
      by (simp add: commas_Cons member_text_pair str_lit_def scan_str_raw)
  qed
qed

lemma parses_JNum: "raw_num u \<Longrightarrow> parses (JNum u)"
  unfolding parses_def
proof (intro conjI allI impI)
  fix n t assume u: "raw_num u" and n: "length (render (JNum u)) \<le> n" and t: "num_stop t"
  obtain c cs where c: "u = c # cs" "c = CHR ''-'' \<or> is_digit c" using u by (rule raw_num_hd)
  with n obtain m where "n = Suc m" by (cases n) auto
  with c not_ws_num [of c] scan_raw_num [OF u t]
  show "parse_val n (render (JNum u) @ t) = Some (JNum u, t)" by simp
qed simp

lemma parses_JArr: "\<forall>v\<in>set vs. parses v \<Longrightarrow> parses (JArr vs)"
  unfolding parses_def [of "JArr vs"]
proof (intro conjI allI impI)
  assume vs: "\<forall>v\<in>set vs. parses v"
  then show "jwf (JArr vs)" by (simp add: parses_def)
  fix n t assume n: "length (render (JArr vs)) \<le> n" and t: "num_stop t"
  then obtain m where m: "n = Suc m" by (cases n) auto
  show "parse_val n (render (JArr vs) @ t) = Some (JArr vs, t)"
  proof (cases vs)
    case Nil
    with m show ?thesis by simp
  next
    case (Cons v vs')
    with vs obtain c cs where c: "render v = c # cs" "\<not> is_ws c" "c \<noteq> CHR '']''"
      by (auto simp: parses_def elim!: render_hd)
    have hd: "\<exists>cs'. commas (map render vs) = c # cs'"
      using Cons c by (cases vs') auto
    have "parse_elems m (commas (map render vs) @ CHR '']'' # t) = Some (vs, t)"
      using vs n m Cons by (intro parse_elems_render) auto
    with hd c m show ?thesis by auto
  qed
qed

lemma parses_JObj: "\<forall>m\<in>set ms. raw_str (fst m) \<and> parses (snd m) \<Longrightarrow> parses (JObj ms)"
  unfolding parses_def [of "JObj ms"]
proof (intro conjI allI impI)
  assume ms: "\<forall>m\<in>set ms. raw_str (fst m) \<and> parses (snd m)"
  then show "jwf (JObj ms)" by (simp add: parses_def)
  fix n t assume n: "length (render (JObj ms)) \<le> n" and t: "num_stop t"
  then obtain l where l: "n = Suc l" by (cases n) auto
  show "parse_val n (render (JObj ms) @ t) = Some (JObj ms, t)"
  proof (cases ms)
    case Nil
    with l show ?thesis by simp
  next
    case (Cons m ms')
    have hd: "\<exists>cs. commas (map member_text ms) = dquote # cs"
      using Cons by (cases ms') (auto simp: member_text_def str_lit_def)
    have "parse_members l (commas (map member_text ms) @ CHR ''}'' # t) = Some (ms, t)"
      using ms n l Cons by (intro parse_members_render) auto
    with hd l show ?thesis by auto
  qed
qed

lemma parses_jwf: "jwf v \<Longrightarrow> parses v"
proof (induction v)
  case (JNum u)
  then show ?case by (simp add: parses_JNum)
next
  case (JStr raw)
  show ?case unfolding parses_def
  proof (intro conjI allI impI)
    fix n t assume "length (render (JStr raw)) \<le> n" and "num_stop t"
    then obtain m where "n = Suc m" by (cases n) (auto simp: str_lit_def)
    with JStr show "parse_val n (render (JStr raw) @ t) = Some (JStr raw, t)"
      by (simp add: str_lit_def scan_str_raw)
  qed (use JStr in simp)
next
  case (JArr vs)
  then show ?case by (simp add: parses_JArr)
next
  case (JObj ms)
  have "\<forall>m\<in>set ms. parses (snd m)"
  proof
    fix m assume m: "m \<in> set ms"
    with JObj show "parses (snd m)" by (cases m) (fastforce simp: snds.simps)
  qed
  with JObj.prems show ?case by (simp add: parses_JObj)
next
  case JNull
  show ?case unfolding parses_def
    by (auto simp: numeral_eq_Suc Suc_le_eq dest!: gr0_implies_Suc less_imp_Suc_add)
next
  case JTrue
  show ?case unfolding parses_def
    by (auto simp: numeral_eq_Suc Suc_le_eq dest!: gr0_implies_Suc less_imp_Suc_add)
next
  case JFalse
  show ?case unfolding parses_def
    by (auto simp: numeral_eq_Suc Suc_le_eq dest!: gr0_implies_Suc less_imp_Suc_add)
qed

lemmas parse_val_render = parsesD [OF parses_jwf]

text \<open>Round trip: a well-formed tree within the nesting bound is read back from its rendering.\<close>

lemma parse_first_render:
  "jwf v \<Longrightarrow> jdepth v \<le> maxNestingDepth \<Longrightarrow> num_stop t \<Longrightarrow> parse_first (render v @ t) = Some (v, t)"
  using parse_val_render [of v "Suc (length (render v @ t))" t]
  by (simp add: parse_first_def del: parse_val.simps)

lemma parse_text_render: "jwf v \<Longrightarrow> jdepth v \<le> maxNestingDepth \<Longrightarrow> parse_text (render v) = Some v"
  using parse_first_render [of v "[]"] by (simp add: parse_text_def skip_ws_def)

text \<open>Hence rendering is injective, with no bound on the nesting.\<close>

lemma render_inject:
  assumes "jwf v" and "jwf w"
  shows "render v = render w \<longleftrightarrow> v = w"
proof
  assume eq: "render v = render w"
  have "parse_val (length (render v)) (render v @ []) = Some (v, [])"
    using assms(1) by (intro parse_val_render) simp_all
  moreover have "parse_val (length (render w)) (render w @ []) = Some (w, [])"
    using assms(2) by (intro parse_val_render) simp_all
  ultimately show "v = w" unfolding eq by simp
qed simp

declare parse_val.simps [simp del] parse_elems.simps [simp del] parse_members.simps [simp del]

end
