(* ===== verification/JsonCodec.thy ===== *)
theory JsonCodec
  imports Json
begin

text \<open>
  Between Go values and JSON trees: string escaping and its inverse, compaction of raw messages,
  and the decoding of struct fields and of \<open>map[string]any\<close>.
\<close>

section \<open>Strings\<close>

definition hex4 :: "nat \<Rightarrow> string" where
  "hex4 n = [hex_digit (n div 4096), hex_digit ((n div 256) mod 16),
             hex_digit ((n div 16) mod 16), hex_digit (n mod 16)]"

definition u_escape :: "nat \<Rightarrow> string" where
  "u_escape n = bslash # CHR ''u'' # hex4 n"

text \<open>The encoder's escaping of an ASCII byte (with \<open>escapeHTML\<close>).\<close>

definition esc_ascii :: "char \<Rightarrow> string" where
  "esc_ascii c =
     (if c = bslash \<or> c = dquote then [bslash, c]
      else if c = CHR 0x08 then [bslash, CHR ''b'']
      else if c = CHR 0x0C then [bslash, CHR ''f'']
      else if c = CHR 0x0A then [bslash, CHR ''n'']
      else if c = CHR 0x0D then [bslash, CHR ''r'']
      else if c = CHR 0x09 then [bslash, CHR ''t'']
      else if byte c < 32 \<or> c = CHR ''<'' \<or> c = CHR ''>'' \<or> c = CHR ''&'' then u_escape (byte c)
      else [c])"

text \<open>
  A rune of a Go string: an invalid byte is written as U+FFFD, the line separators U+2028 and
  U+2029 are escaped, any other non-ASCII rune is copied.
\<close>

fun esc_rune :: "string \<times> bool \<Rightarrow> string" where
  "esc_rune (r, v) =
     (if \<not> v then u_escape 65533
      else if r = encode_rune 8232 then u_escape 8232
      else if r = encode_rune 8233 then u_escape 8233
      else (case r of [c] \<Rightarrow> esc_ascii c | _ \<Rightarrow> r))"

definition quote :: "string \<Rightarrow> string" where
  "quote s = concat (map esc_rune (runes s))"

text \<open>The tree of a Go string.\<close>

definition jstr :: "string \<Rightarrow> jv" where
  "jstr s = JStr (quote s)"

definition hex_val :: "char \<Rightarrow> nat" where
  "hex_val c = (if is_digit c then byte c - 48 else if 97 \<le> byte c then byte c - 87 else byte c - 55)"

definition hex4_val :: "string \<Rightarrow> nat" where
  "hex4_val h = foldl (\<lambda>a c. 16 * a + hex_val c) 0 h"

definition is_surrogate :: "nat \<Rightarrow> bool" where
  "is_surrogate n \<longleftrightarrow> 55296 \<le> n \<and> n < 57344"

text \<open>
  The decoder's reading of the bytes between the quotes. A \<open>\u\<close> escape of a surrogate half takes
  the next one with it when the two make a rune, and is U+FFFD otherwise.
\<close>

function unquote :: "string \<Rightarrow> string" where
  "unquote [] = []"
| "unquote (c # cs) =
     (if c = bslash then
        (case cs of [] \<Rightarrow> []
         | e # r \<Rightarrow>
             if e = CHR ''u'' then
               (let n = hex4_val (take 4 r); r' = drop 4 r;
                    pair = (prefix [bslash, CHR ''u''] r' \<and> 55296 \<le> n \<and> n < 56320
                            \<and> 56320 \<le> hex4_val (take 4 (drop 2 r')) \<and> hex4_val (take 4 (drop 2 r')) < 57344)
                in if \<not> is_surrogate n then encode_rune n @ unquote r'
                   else if pair then
                     encode_rune (65536 + (n - 55296) * 1024 + (hex4_val (take 4 (drop 2 r')) - 56320))
                       @ unquote (drop 6 r')
                   else encode_rune 65533 @ unquote r')
             else (if e = CHR ''b'' then CHR 0x08 else if e = CHR ''f'' then CHR 0x0C
                   else if e = CHR ''n'' then CHR 0x0A else if e = CHR ''r'' then CHR 0x0D
                   else if e = CHR ''t'' then CHR 0x09 else e) # unquote r)
      else if is_ascii c then c # unquote cs
      else (let n = fst (rune_size (c # cs)); v = snd (rune_size (c # cs))
            in (if v then c # take (n - 1) cs else encode_rune 65533) @ unquote (drop (n - 1) cs)))"
  by pat_completeness auto
termination
  by (relation "measure length") auto

declare unquote.simps(2) [simp del]

subsection \<open>Reading back what was quoted\<close>

text \<open>Runes as \<open>DecodeRune\<close> accepts them.\<close>

definition rune_ok :: "string \<Rightarrow> bool" where
  "rune_ok r \<longleftrightarrow> r \<noteq> [] \<and> rune_size r = (length r, True)"

lemma rune_size_take:
  assumes "rune_size (c # cs) = (n, True)"
  shows "rune_size (c # take (n - 1) cs @ t) = (n, True) \<and> n \<le> Suc (length cs) \<and> 0 < n"
proof (cases "is_ascii c")
  case True
  with assms show ?thesis by simp
next
  case False
  with assms obtain lo hi d ds where info: "lead_info (byte c) = Some (n, lo, hi)" and cs: "cs = d # ds"
    and rest: "lo \<le> byte d" "byte d \<le> hi" "n - 2 \<le> length ds" "list_all is_cont (take (n - 2) ds)"
    by (auto simp: rune_size_def split: list.splits option.splits if_splits)
  from info have n: "2 \<le> n" by (auto simp: lead_info_def split: if_splits)
  then obtain m where m: "n = Suc (Suc m)" by (cases n; cases "n - 1") auto
  with rest cs info False show ?thesis by (simp add: rune_size_def)
qed

lemma runes_ok: "(r, True) \<in> set (runes s) \<Longrightarrow> rune_ok r"
proof (induction s rule: runes.induct)
  case 1
  then show ?case by simp
next
  case (2 c cs)
  obtain n v where nv: "rune_size (c # cs) = (n, v)" by (cases "rune_size (c # cs)")
  show ?case
  proof (cases "(r, True) = (c # take (n - 1) cs, v)")
    case True
    with nv have "rune_size (c # cs) = (n, True)" by simp
    from rune_size_take [OF this, of "[]"] True show ?thesis by (auto simp: rune_ok_def)
  next
    case False
    with "2.prems" nv have "(r, True) \<in> set (runes (drop (n - 1) cs))"
      by (auto simp: runes.simps(2) Let_def)
    with "2.IH" nv show ?thesis by simp
  qed
qed

lemma rune_ok_append:
  assumes "rune_ok r"
  shows "rune_size (r @ t) = (length r, True)"
proof -
  obtain c cs where r: "r = c # cs" using assms by (cases r) (auto simp: rune_ok_def)
  with assms have "rune_size (c # cs) = (length r, True)" by (simp add: rune_ok_def)
  from rune_size_take [OF this, of t] r show ?thesis by simp
qed

lemma lead_info_range: "lead_info b = Some (n, lo, hi) \<Longrightarrow> 128 \<le> lo \<and> 2 \<le> n"
  by (auto simp: lead_info_def split: if_splits)

lemma rune_ok_cases:
  assumes "rune_ok r"
  obtains (ascii) c where "r = [c]" and "is_ascii c"
    | (multi) c d ds where "r = c # d # ds" and "\<forall>x\<in>set r. \<not> is_ascii x"
proof -
  obtain c cs where r: "r = c # cs" using assms by (cases r) (auto simp: rune_ok_def)
  show thesis
  proof (cases "is_ascii c")
    case True
    with assms r have "r = [c]" by (simp add: rune_ok_def)
    then show thesis using True by (rule ascii)
  next
    case False
    with assms r obtain lo hi d ds where info: "lead_info (byte c) = Some (length r, lo, hi)"
      and cs: "cs = d # ds" and "lo \<le> byte d" "list_all is_cont (take (length r - 2) ds)"
      by (auto simp: rune_ok_def rune_size_def split: list.splits option.splits if_splits)
    with r False lead_info_range [OF info] have "\<forall>x\<in>set r. \<not> is_ascii x"
      by (auto simp: is_ascii_def is_cont_def list_all_iff)
    with r cs multi show thesis by blast
  qed
qed

text \<open>Hexadecimal escapes.\<close>

lemma hex_val_hex_digit [simp]: "n < 16 \<Longrightarrow> hex_val (hex_digit n) = n"
  by (simp add: hex_val_def is_digit_def byte_hex_digit)

lemma is_hex_hex_digit [simp]: "n < 16 \<Longrightarrow> is_hex (hex_digit n)"
  by (simp add: is_hex_def is_digit_def byte_hex_digit)

lemma length_hex4 [simp]: "length (hex4 n) = 4"
  by (simp add: hex4_def)

lemma hex4_is_hex: "n < 65536 \<Longrightarrow> list_all is_hex (hex4 n)"
  by (simp add: hex4_def)

lemma hex4_val_hex4: "n < 65536 \<Longrightarrow> hex4_val (hex4 n) = n"
proof -
  assume n: "n < 65536"
  then have "n div 4096 < 16" by simp
  moreover have "n div 256 = n div 16 div 16" and "n div 4096 = n div 16 div 16 div 16"
    by (simp_all add: div_mult2_eq [symmetric])
  ultimately show ?thesis by (simp add: hex4_val_def hex4_def)
qed

lemma unquote_u_escape:
  "n < 65536 \<Longrightarrow> \<not> is_surrogate n \<Longrightarrow> unquote (u_escape n @ t) = encode_rune n @ unquote t"
  by (simp add: u_escape_def unquote.simps(2) hex4_val_hex4)

lemma str_unit_u_escape: "n < 65536 \<Longrightarrow> str_unit (u_escape n @ t) = Some (u_escape n, t)"
  by (simp add: str_unit_def u_escape_def simple_escape_def hex4_is_hex)

lemma unquote_esc_ascii: "is_ascii c \<Longrightarrow> unquote (esc_ascii c @ t) = c # unquote t"
proof (cases "esc_ascii c = u_escape (byte c)")
  case True
  assume "is_ascii c"
  then have "encode_rune (byte c) = [c]" and "\<not> is_surrogate (byte c)" and "byte c < 65536"
    by (simp_all add: encode_rune_def is_ascii_def is_surrogate_def)
  with True show ?thesis by (simp add: unquote_u_escape)
next
  case False
  assume "is_ascii c"
  with False show ?thesis by (auto simp: esc_ascii_def unquote.simps(2) split: if_splits)
qed

lemma unquote_esc_rune:
  assumes "rune_ok r"
  shows "unquote (esc_rune (r, True) @ t) = r @ unquote t"
  using assms
proof (cases rule: rune_ok_cases)
  case (ascii c)
  then have "[c] \<noteq> encode_rune 8232" and "[c] \<noteq> encode_rune 8233" by (simp_all add: encode_rune_def)
  with ascii show ?thesis by (simp add: unquote_esc_ascii)
next
  case (multi c d ds)
  show ?thesis
  proof (cases "r = encode_rune 8232 \<or> r = encode_rune 8233")
    case True
    have "(8232::nat) < 65536" and "(8233::nat) < 65536" by simp_all
    with True show ?thesis
      by (elim disjE) (simp_all add: unquote_u_escape is_surrogate_def encode_rune_def)
  next
    case False
    with multi have "esc_rune (r, True) = r" by simp
    moreover have "rune_size (r @ t) = (length r, True)" using assms by (rule rune_ok_append)
    moreover have "c \<noteq> bslash" using multi by (auto simp: is_ascii_def)
    ultimately show ?thesis using multi by (simp add: unquote.simps(2))
  qed
qed

lemma unquote_quote_runes:
  "\<forall>p\<in>set rs. snd p \<and> rune_ok (fst p) \<Longrightarrow> unquote (concat (map esc_rune rs)) = concat (map fst rs)"
  by (induction rs) (auto simp: unquote_esc_rune simp del: esc_rune.simps)

lemma unquote_quote: "valid_utf8 s \<Longrightarrow> unquote (quote s) = s"
proof -
  assume "valid_utf8 s"
  then have valid: "\<forall>p\<in>set (runes s). snd p" by (simp add: valid_utf8_def list_all_iff)
  have "\<forall>p\<in>set (runes s). snd p \<and> rune_ok (fst p)"
  proof
    fix p assume "p \<in> set (runes s)"
    moreover from this valid have "snd p" by blast
    moreover from this have "p = (fst p, True)" by (simp add: prod_eq_iff)
    ultimately show "snd p \<and> rune_ok (fst p)" by (metis runes_ok)
  qed
  then show ?thesis by (simp add: quote_def unquote_quote_runes concat_runes)
qed

lemma raw_str_plain: "c \<noteq> dquote \<Longrightarrow> c \<noteq> bslash \<Longrightarrow> 32 \<le> byte c \<Longrightarrow> raw_str (c # raw) \<longleftrightarrow> raw_str raw"
  by (auto simp: raw_str_def str_unit_def)

lemma raw_str_nonascii: "\<forall>x\<in>set xs. \<not> is_ascii x \<Longrightarrow> raw_str raw \<Longrightarrow> raw_str (xs @ raw)"
proof (induction xs)
  case Nil
  then show ?case by simp
next
  case (Cons x xs)
  then have "128 \<le> byte x" by (simp add: is_ascii_def)
  then have "x \<noteq> dquote" and "x \<noteq> bslash" by auto
  with Cons \<open>128 \<le> byte x\<close> show ?case by (simp add: raw_str_plain)
qed

lemma raw_str_u_escape: "n < 65536 \<Longrightarrow> raw_str raw \<Longrightarrow> raw_str (u_escape n @ raw)"
  using str_unit_u_escape [of n "[]"] by (auto intro: raw_str_unit)

lemma raw_str_simple: "simple_escape e \<Longrightarrow> raw_str raw \<Longrightarrow> raw_str (bslash # e # raw)"
  using raw_str_unit [of "[bslash, e]" "[bslash, e]" "[]" raw] by (simp add: str_unit_def)

lemma raw_str_esc_ascii: "raw_str raw \<Longrightarrow> raw_str (esc_ascii c @ raw)"
proof -
  assume raw: "raw_str raw"
  have "byte c < 65536" using nat_of_char_less_256 [of c] by linarith
  with raw have u: "raw_str (u_escape (byte c) @ raw)" by (intro raw_str_u_escape)
  show ?thesis
    using raw u by (simp add: esc_ascii_def raw_str_simple simple_escape_def raw_str_plain)
qed

lemma raw_str_esc_rune:
  assumes "v \<Longrightarrow> rune_ok r" and "raw_str raw"
  shows "raw_str (esc_rune (r, v) @ raw)"
proof (cases "v \<and> r \<noteq> encode_rune 8232 \<and> r \<noteq> encode_rune 8233")
  case False
  moreover have "raw_str (u_escape n @ raw)" if "n \<in> {65533, 8232, 8233}" for n
    using that assms(2) by (intro raw_str_u_escape) auto
  ultimately show ?thesis by (cases v) auto
next
  case True
  with assms(1) have "rune_ok r" by blast
  then show ?thesis
    by (cases rule: rune_ok_cases) (use True assms(2) in \<open>auto simp: raw_str_esc_ascii raw_str_nonascii
        simp del: append_Cons\<close>)
qed

lemma raw_str_quote [simp]: "raw_str (quote s)"
proof -
  have "raw_str (concat (map esc_rune rs))" if "set rs \<subseteq> set (runes s)" for rs
    using that
  proof (induction rs)
    case (Cons p rs)
    obtain r v where p: "p = (r, v)" by (cases p)
    with Cons have "v \<Longrightarrow> rune_ok r" using runes_ok [of r s] by auto
    with Cons p show ?case by (simp add: raw_str_esc_rune del: esc_rune.simps)
  qed simp
  then show ?thesis by (simp add: quote_def)
qed

lemma jwf_jstr [simp]: "jwf (jstr s)"
  by (simp add: jstr_def)

lemma quote_inject: "valid_utf8 s \<Longrightarrow> valid_utf8 t \<Longrightarrow> quote s = quote t \<longleftrightarrow> s = t"
  by (metis unquote_quote)

lemma jstr_inject: "valid_utf8 s \<Longrightarrow> valid_utf8 t \<Longrightarrow> jstr s = jstr t \<longleftrightarrow> s = t"
  by (simp add: jstr_def quote_inject)

end
