(* ===== verification/JsonRaw.thy ===== *)
theory JsonRaw
  imports JsonCodec
begin

text \<open>
  Raw messages. The parser yields well-formed trees only, so that a raw message that parses can
  be rendered and parsed again; \<open>html_tree\<close> is the escaping the encoder applies to a
  \<open>json.RawMessage\<close> (\<open><\<close>, \<open>>\<close>, \<open>&\<close>, U+2028 and U+2029), and \<open>raw_tree\<close> is what encoding a
  raw message writes, \<open>None\<close> when the message is not a JSON text. A rendered text holds no control
  byte, hence no newline: a record takes one line of a file.
\<close>

section \<open>The parser yields well-formed trees\<close>

definition digit_stop :: "string \<Rightarrow> bool" where
  "digit_stop t \<longleftrightarrow> (case t of [] \<Rightarrow> True | d # _ \<Rightarrow> \<not> is_digit d)"

lemma scan_digits_self:
  "scan_digits s = Some (a, r) \<Longrightarrow> digit_stop t \<Longrightarrow> scan_digits (a @ t) = Some (a, t)"
  by (cases t) (auto simp: scan_digits_def digit_stop_def takeWhile_append_stop dropWhile_append_stop
      split: if_splits dest: set_takeWhileD)

lemma scan_int_self:
  assumes "scan_int s = Some (a, r)" and "digit_stop t"
  shows "scan_int (a @ t) = Some (a, t)"
proof -
  obtain c cs where s: "s = c # cs" using assms(1) by (cases s) (auto simp: scan_int_def)
  show ?thesis
  proof (cases "c = CHR ''0''")
    case True
    with assms s show ?thesis by (auto simp: scan_int_def)
  next
    case False
    with assms s have d: "scan_digits (c # cs) = Some (a, r)" by (simp add: scan_int_def)
    then have "\<exists>as. a = c # as" by (auto simp: scan_digits_def split: if_splits)
    with False scan_digits_self [OF d assms(2)] show ?thesis by (auto simp: scan_int_def)
  qed
qed

definition exp_start :: "string \<Rightarrow> bool" where
  "exp_start t \<longleftrightarrow> (case t of [] \<Rightarrow> True | d # _ \<Rightarrow> d = CHR ''e'' \<or> d = CHR ''E'')"

lemma exp_start_stop: "exp_start t \<Longrightarrow> digit_stop t"
  by (auto simp: exp_start_def digit_stop_def is_digit_def split: list.splits)

lemma scan_exp_start: "scan_exp s = Some (a, r) \<Longrightarrow> exp_start a"
  by (auto simp: scan_exp_def exp_start_def split: list.splits if_splits)

lemma scan_exp_self:
  assumes "scan_exp s = Some (a, r)"
  shows "scan_exp a = Some (a, [])"
proof -
  have stop: "digit_stop []" by (simp add: digit_stop_def)
  have self: "scan_digits b = Some (b, [])" if "scan_digits u = Some (b, q)" for u b q
    using scan_digits_self [OF that stop] by simp
  have hd: "\<exists>d ds. b = d # ds \<and> d \<noteq> CHR ''+'' \<and> d \<noteq> CHR ''-''" if "scan_digits u = Some (b, q)" for u b q
    using that by (cases u) (auto simp: scan_digits_def is_digit_def split: if_splits)
  show ?thesis
  proof (cases s)
    case Nil
    with assms show ?thesis by (simp add: scan_exp_def)
  next
    case (Cons c cs)
    show ?thesis
    proof (cases "(c = CHR ''e'' \<or> c = CHR ''E'') \<and> cs \<noteq> []")
      case False
      with assms Cons show ?thesis by (auto simp: scan_exp_def split: if_splits)
    next
      case True
      then obtain d ds where cs: "cs = d # ds" by (cases cs) auto
      show ?thesis
      proof (cases "d = CHR ''+'' \<or> d = CHR ''-''")
        case sign: True
        with assms Cons True cs obtain b where "scan_digits ds = Some (b, r)" and "a = c # d # b"
          by (auto simp: scan_exp_def)
        with self sign True show ?thesis by (auto simp: scan_exp_def)
      next
        case False
        with assms Cons True cs obtain b where b: "scan_digits cs = Some (b, r)" and a: "a = c # b"
          by (auto simp: scan_exp_def)
        with self [OF b] hd [OF b] True show ?thesis by (auto simp: scan_exp_def)
      qed
    qed
  qed
qed

lemma scan_frac_self:
  assumes "scan_frac s = Some (a, r)" and "exp_start t"
  shows "scan_frac (a @ t) = Some (a, t)"
  using assms scan_digits_self [OF _ exp_start_stop [OF assms(2)]]
  by (auto simp: scan_frac_def exp_start_def split: list.splits if_splits)

lemma scan_frac_start: "scan_frac s = Some (a, r) \<Longrightarrow> exp_start t \<Longrightarrow> digit_stop (a @ t)"
  by (auto simp: scan_frac_def digit_stop_def exp_start_def is_digit_def split: list.splits if_splits)

lemma scan_num_raw:
  assumes "scan_num s = Some (a, r)"
  shows "raw_num a"
  using assms
proof (cases rule: scan_num_parts)
  case (1 i r1 f r2 e)
  have e': "exp_start e" using 1(3) by (rule scan_exp_start)
  have int: "scan_int (i @ f @ e) = Some (i, f @ e)"
    by (rule scan_int_self [OF 1(1) scan_frac_start [OF 1(2) e']])
  have frac: "scan_frac (f @ e) = Some (f, e)" by (rule scan_frac_self [OF 1(2) e'])
  have hd: "\<exists>c cs. i = c # cs \<and> c \<noteq> CHR ''-''"
    using 1(1) by (auto simp: scan_int_def scan_digits_def is_digit_def split: list.splits if_splits)
  show ?thesis
    using num_sign_cases [of s] int frac scan_exp_self [OF 1(3)] hd 1(4)
    by (elim disjE) (auto simp: raw_num_def scan_num_def num_sign_def Let_def)
qed

lemma parse_jwf:
  "parse_val n s = Some (v, r) \<Longrightarrow> jwf v"
  "parse_elems n s = Some (vs, r) \<Longrightarrow> \<forall>v\<in>set vs. jwf v"
  "parse_members n s = Some (ms, r) \<Longrightarrow> \<forall>m\<in>set ms. raw_str (fst m) \<and> jwf (snd m)"
proof (induction n s and n s and n s arbitrary: v r and vs r and ms r
    rule: parse_val_parse_elems_parse_members.induct)
  case (2 n s)
  then show ?case
    by (auto simp: parse_val.simps split: list.splits if_splits dest: scan_str_raw_str scan_num_raw)
next
  case (4 n s)
  then show ?case by (fastforce simp: parse_elems.simps split: list.splits option.splits if_splits)
next
  case (6 n s)
  then show ?case
    by (fastforce simp: parse_members.simps split: list.splits option.splits if_splits
        dest: scan_str_raw_str)
qed (simp_all add: parse_val.simps parse_elems.simps parse_members.simps)

lemma parse_first_jwf: "parse_first s = Some (v, r) \<Longrightarrow> jwf v"
  by (auto simp: parse_first_def split: option.splits if_splits dest: parse_jwf)

lemma parse_text_jwf: "parse_text s = Some v \<Longrightarrow> jwf v \<and> jdepth v \<le> maxNestingDepth"
  by (auto simp: parse_text_def parse_first_def split: option.splits if_splits dest: parse_jwf)

section \<open>No control bytes\<close>

definition clean_bytes :: "string \<Rightarrow> bool" where
  "clean_bytes s \<longleftrightarrow> (\<forall>c\<in>set s. 32 \<le> byte c)"

lemma clean_bytes_simps [simp]:
  "clean_bytes []" "clean_bytes (c # s) \<longleftrightarrow> 32 \<le> byte c \<and> clean_bytes s"
  "clean_bytes (s @ t) \<longleftrightarrow> clean_bytes s \<and> clean_bytes t"
  by (auto simp: clean_bytes_def)

lemma clean_bytes_nl: "clean_bytes s \<Longrightarrow> nl \<notin> set s"
  by (auto simp: clean_bytes_def)

lemma clean_bytes_drop_cr: "clean_bytes s \<Longrightarrow> drop_cr s = s"
proof -
  assume s: "clean_bytes s"
  have "last s \<noteq> CHR 0x0D" if "s \<noteq> []"
  proof -
    have "32 \<le> byte (last s)" using s last_in_set [OF that] by (simp add: clean_bytes_def)
    then show ?thesis by auto
  qed
  then show ?thesis by (auto simp: drop_cr_def)
qed

lemma digits_clean: "list_all is_digit a \<Longrightarrow> clean_bytes a"
  by (auto simp: clean_bytes_def list_all_iff is_digit_def)

lemma scan_digits_clean: "scan_digits s = Some (a, r) \<Longrightarrow> clean_bytes a"
  by (auto simp: scan_digits_def split: if_splits intro!: digits_clean simp del: takeWhile_list_all)

lemma raw_num_clean:
  assumes "raw_num u"
  shows "clean_bytes u"
  using assms unfolding raw_num_def
proof (cases rule: scan_num_parts)
  case (1 i r1 f r2 e)
  have "clean_bytes i"
    using 1(1) by (auto simp: scan_int_def dest: scan_digits_clean split: list.splits if_splits)
  moreover have "clean_bytes f"
    using 1(2) by (auto simp: scan_frac_def dest: scan_digits_clean split: list.splits if_splits)
  moreover have "clean_bytes e"
    using 1(3) by (auto simp: scan_exp_def dest: scan_digits_clean split: list.splits if_splits)
  ultimately show ?thesis using num_sign_cases [of u] 1(4) by auto
qed

lemma hex_clean: "is_hex c \<Longrightarrow> 32 \<le> byte c"
  by (auto simp: is_hex_def is_digit_def)

lemma hexes_clean: "list_all is_hex s \<Longrightarrow> clean_bytes s"
  by (auto simp: list_all_iff clean_bytes_def hex_clean)

lemma str_unit_clean: "str_unit s = Some (u, r) \<Longrightarrow> clean_bytes u"
  by (auto simp: str_unit_def simple_escape_def hexes_clean split: list.splits if_splits)

lemma scan_str_clean: "scan_str s = Some (raw, r) \<Longrightarrow> clean_bytes raw"
proof (induction s arbitrary: raw r rule: scan_str.induct)
  case (2 c cs)
  then show ?case
    using str_unit_clean [of "c # cs"] by (auto split: option.splits if_splits)
qed simp

lemma raw_str_clean: "raw_str raw \<Longrightarrow> clean_bytes raw"
  unfolding raw_str_def by (rule scan_str_clean)

lemma commas_clean: "\<forall>x\<in>set xs. clean_bytes x \<Longrightarrow> clean_bytes (commas xs)"
  by (induction xs rule: commas.induct) auto

lemma render_clean: "jwf v \<Longrightarrow> clean_bytes (render v)"
proof (induction v)
  case (JArr vs)
  then show ?case by (auto intro!: commas_clean)
next
  case (JObj ms)
  have "\<forall>m\<in>set ms. clean_bytes (member_text m)"
  proof
    fix m assume m: "m \<in> set ms"
    moreover have "snd m \<in> Basic_BNFs.snds m" by (simp add: snds.simps prod_eq_iff)
    ultimately have "clean_bytes (render (snd m))" using JObj by auto
    with m JObj.prems show "clean_bytes (member_text m)"
      by (auto simp: member_text_def str_lit_def raw_str_clean)
  qed
  then show ?case by (auto intro!: commas_clean)
qed (auto simp: str_lit_def raw_str_clean raw_num_clean)

section \<open>Compaction with HTML escaping\<close>

abbreviation "xE2 \<equiv> CHR 0xE2"
abbreviation "x80 \<equiv> CHR 0x80"
abbreviation "xA8 \<equiv> CHR 0xA8"
abbreviation "xA9 \<equiv> CHR 0xA9"

definition html_special :: "char \<Rightarrow> bool" where
  "html_special c \<longleftrightarrow> c = CHR ''<'' \<or> c = CHR ''>'' \<or> c = CHR ''&''"

function html_esc :: "string \<Rightarrow> string" where
  "html_esc [] = []"
| "html_esc (c # cs) =
     (if html_special c then u_escape (byte c) @ html_esc cs
      else if c = xE2 \<and> prefix [x80, xA8] cs then u_escape 8232 @ html_esc (drop 2 cs)
      else if c = xE2 \<and> prefix [x80, xA9] cs then u_escape 8233 @ html_esc (drop 2 cs)
      else c # html_esc cs)"
  by pat_completeness auto
termination
  by (relation "measure length") auto

lemma html_esc_plain:
  "\<forall>c\<in>set u. \<not> html_special c \<and> c \<noteq> xE2 \<Longrightarrow> html_esc (u @ t) = u @ html_esc t"
  by (induction u) auto

lemma html_esc_u_escape:
  assumes "n < 65536"
  shows "html_esc (u_escape n @ t) = u_escape n @ html_esc t"
proof (rule html_esc_plain)
  have "\<not> html_special c \<and> c \<noteq> xE2" if "is_hex c" for c
    using that by (auto simp: is_hex_def is_digit_def html_special_def)
  with hex4_is_hex [OF assms] show "\<forall>c\<in>set (u_escape n). \<not> html_special c \<and> c \<noteq> xE2"
    by (auto simp: u_escape_def list_all_iff html_special_def)
qed

lemma prefix_html_esc: "d \<noteq> bslash \<Longrightarrow> prefix [d] (html_esc cs) \<Longrightarrow> prefix [d] cs"
  by (cases cs) (auto simp: u_escape_def split: if_splits)

lemma prefix2_html_esc: "prefix [x80, d] (html_esc cs) \<Longrightarrow> d \<noteq> bslash \<Longrightarrow> prefix [x80, d] cs"
proof (cases cs)
  case (Cons c ds)
  assume p: "prefix [x80, d] (html_esc cs)" and "d \<noteq> bslash"
  with Cons have "c = x80" by (auto simp: u_escape_def split: if_splits)
  with p Cons have "prefix [d] (html_esc ds)" by (auto simp: html_special_def)
  with \<open>d \<noteq> bslash\<close> have "prefix [d] ds" by (rule prefix_html_esc)
  with Cons \<open>c = x80\<close> show ?thesis by simp
qed simp

lemma html_esc_idem: "html_esc (html_esc s) = html_esc s"
proof (induction s rule: html_esc.induct)
  case 1
  then show ?case by simp
next
  case (2 c cs)
  have c: "byte c < 65536" using nat_of_char_less_256 [of c] by linarith
  consider (special) "html_special c" | (sep) d where "\<not> html_special c" "c = xE2" "prefix [x80, d] cs"
      "d = xA8 \<or> d = xA9"
    | (plain) "\<not> html_special c" "\<not> (c = xE2 \<and> prefix [x80, xA8] cs)" "\<not> (c = xE2 \<and> prefix [x80, xA9] cs)"
    by blast
  then show ?case
  proof cases
    case special
    with "2.IH" c show ?thesis by (simp add: html_esc_u_escape)
  next
    case (sep d)
    have "(8232::nat) < 65536" "(8233::nat) < 65536" by simp_all
    with sep "2.IH" html_esc_u_escape show ?thesis by auto
  next
    case plain
    then have eq: "html_esc (c # cs) = c # html_esc cs" by auto
    have "\<not> (c = xE2 \<and> prefix [x80, xA8] (html_esc cs))" "\<not> (c = xE2 \<and> prefix [x80, xA9] (html_esc cs))"
      using plain prefix2_html_esc by auto
    with plain(1) have "html_esc (c # html_esc cs) = c # html_esc (html_esc cs)" by auto
    moreover have "html_esc (html_esc cs) = html_esc cs" using plain by (intro "2.IH"(4)) auto
    ultimately show ?thesis using eq by simp
  qed
qed

text \<open>Escaping keeps the spelling of a string literal well-formed.\<close>

lemma raw_str_units:
  assumes "raw_str (c # cs)"
  obtains u raw where "c # cs = u @ raw" and "raw_str raw" and "str_unit u = Some (u, [])"
proof -
  from assms have "c \<noteq> dquote" by (auto simp: raw_str_def)
  with assms obtain u r t where u: "str_unit (c # cs @ [dquote]) = Some (u, r)"
    and r: "scan_str r = Some (t, [])" and eq: "c # cs = u @ t"
    by (auto simp: raw_str_def split: option.splits)
  have "raw_str t" using r by (rule scan_str_raw_str)
  moreover have "str_unit u = Some (u, [])" using str_unit_swap [OF u, of "[]"] by simp
  ultimately show thesis using eq that by blast
qed

lemma str_unit_html:
  assumes "str_unit u = Some (u, [])" and "\<not> (\<exists>c. u = [c])"
  shows "\<forall>c\<in>set u. \<not> html_special c \<and> c \<noteq> xE2"
proof -
  have "\<not> html_special c \<and> c \<noteq> xE2" if "is_hex c" for c
    using that by (auto simp: is_hex_def is_digit_def html_special_def)
  with assms show ?thesis
    by (auto simp: str_unit_def simple_escape_def html_special_def list_all_iff split: list.splits if_splits)
qed

lemma raw_str_html_esc: "raw_str raw \<Longrightarrow> raw_str (html_esc raw)"
proof (induction raw rule: length_induct)
  case (1 raw)
  show ?case
  proof (cases raw)
    case Nil
    then show ?thesis by simp
  next
    case (Cons c cs)
    with "1.prems" obtain u t where ut: "c # cs = u @ t" and t: "raw_str t"
      and u: "str_unit u = Some (u, [])" by (auto elim: raw_str_units)
    have "u \<noteq> []" using u by (auto simp: str_unit_def)
    have IH: "raw_str (html_esc x)" if "raw_str x" and "length x < length raw" for x
      using "1.IH" that by blast
    show ?thesis
    proof (cases "\<exists>d. u = [d]")
      case False
      with u have "html_esc raw = u @ html_esc t"
        unfolding Cons ut by (intro html_esc_plain str_unit_html) auto
      moreover have "raw_str (html_esc t)" using t Cons ut \<open>u \<noteq> []\<close> by (intro IH) auto
      ultimately show ?thesis using raw_str_unit [OF u] by simp
    next
      case True
      with ut have u1: "u = [c]" and tcs: "t = cs" by auto
      then have c: "c \<noteq> dquote" "c \<noteq> bslash" "32 \<le> byte c"
        using u by (auto simp: str_unit_def split: if_splits)
      have c': "byte c < 65536" using nat_of_char_less_256 [of c] by linarith
      have rcs: "raw_str (html_esc cs)" using t tcs Cons by (intro IH) auto
      have sep: "raw_str (u_escape n @ html_esc (drop 2 cs))"
        if pre: "prefix [x80, d] cs" and d: "d = xA8 \<or> d = xA9" and n: "n < 65536" for d n
      proof -
        obtain ds where "cs = [x80, d] @ ds" using pre by (rule prefixE)
        then have ds: "cs = x80 # d # ds" by simp
        with t tcs d have "raw_str ds" by (auto simp: raw_str_plain)
        with ds Cons have "raw_str (html_esc (drop 2 cs))" by (intro IH) auto
        with n show ?thesis by (rule raw_str_u_escape)
      qed
      have "raw_str (u_escape 8232 @ html_esc (drop 2 cs))" if "prefix [x80, xA8] cs"
        using that by (rule sep) simp_all
      moreover have "raw_str (u_escape 8233 @ html_esc (drop 2 cs))" if "prefix [x80, xA9] cs"
        using that by (rule sep) simp_all
      ultimately show ?thesis
        using rcs c c' raw_str_u_escape [OF c' rcs] by (auto simp: Cons raw_str_plain)
    qed
  qed
qed

fun html_tree :: "jv \<Rightarrow> jv" where
  "html_tree (JStr raw) = JStr (html_esc raw)"
| "html_tree (JArr vs) = JArr (map html_tree vs)"
| "html_tree (JObj ms) = JObj (map (\<lambda>(k, v). (html_esc k, html_tree v)) ms)"
| "html_tree v = v"

lemma html_tree_jwf: "jwf v \<Longrightarrow> jwf (html_tree v)"
  by (induction v rule: html_tree.induct) (auto simp: raw_str_html_esc)

lemma html_tree_idem [simp]: "html_tree (html_tree v) = html_tree v"
  by (induction v rule: html_tree.induct) (auto simp: html_esc_idem)

lemma html_tree_jdepth [simp]: "jdepth (html_tree v) = jdepth v"
proof (induction v rule: html_tree.induct)
  case (2 vs)
  then have "(\<lambda>v. jdepth (html_tree v)) ` set vs = jdepth ` set vs" by (intro image_cong) auto
  then show ?case by (simp add: image_image)
next
  case (3 ms)
  then have "(\<lambda>m. case case m of (k, v) \<Rightarrow> (html_esc k, html_tree v) of (k, v) \<Rightarrow> jdepth v) ` set ms
      = (\<lambda>(k, v). jdepth v) ` set ms"
    by (intro image_cong) (auto split: prod.splits)
  then show ?case by (simp add: image_image)
qed simp_all

text \<open>What the encoder writes for a raw message; \<open>None\<close> is its error.\<close>

definition raw_tree :: "string \<Rightarrow> jv option" where
  "raw_tree p = map_option html_tree (parse_text p)"

lemma raw_tree_wf: "raw_tree p = Some v \<Longrightarrow> jwf v \<and> jdepth v \<le> maxNestingDepth \<and> html_tree v = v"
  by (auto simp: raw_tree_def html_tree_jwf dest: parse_text_jwf)

text \<open>Encoding is idempotent: a raw message that was encoded and read back encodes to the same text.\<close>

lemma raw_tree_render: "raw_tree p = Some v \<Longrightarrow> raw_tree (render v) = Some v"
proof -
  assume "raw_tree p = Some v"
  then have "jwf v" "jdepth v \<le> maxNestingDepth" "html_tree v = v" by (auto dest: raw_tree_wf)
  then show ?thesis by (simp add: raw_tree_def parse_text_render)
qed

lemma raw_tree_null [simp]: "raw_tree ''null'' = Some JNull"
  using raw_tree_def parse_text_render [of JNull] by (simp add: raw_tree_def)

end
