(* ===== verification/JsonFields.thy ===== *)
theory JsonFields
  imports JsonRaw
begin

text \<open>
  Decoding of struct fields. \<open>json.Unmarshal\<close> walks the members of an object in order; a member
  sets the field whose name equals its key up to case folding, a later member overwrites an
  earlier one, \<open>null\<close> leaves a scalar field as it is, and a value of the wrong type is an
  error that does not stop the other fields from being set. A field decoder therefore yields the
  field's value and whether no error arose.

  A decoded \<open>json.RawMessage\<close> is kept in its compact spelling: the program only ever encodes it
  again, and encoding compacts it.
\<close>

type_synonym members = "(string \<times> jv) list"

text \<open>
  Folding of a key: ASCII letters, and the two runes outside ASCII that fold to ASCII letters
  (U+017F to S, U+212A to K). No other rune can match a field name.
\<close>

fun fold_name :: "string \<Rightarrow> string" where
  "fold_name (a # b # c # cs) =
     (if a = CHR 0xC5 \<and> b = CHR 0xBF then CHR ''S'' # fold_name (c # cs)
      else if a = CHR 0xE2 \<and> b = CHR 0x84 \<and> c = CHR 0xAA then CHR ''K'' # fold_name cs
      else upper_char a # fold_name (b # c # cs))"
| "fold_name [a, b] = (if a = CHR 0xC5 \<and> b = CHR 0xBF then ''S'' else [upper_char a, upper_char b])"
| "fold_name [a] = [upper_char a]"
| "fold_name [] = []"

definition names_field :: "string \<Rightarrow> string \<Rightarrow> bool" where
  "names_field name rawkey \<longleftrightarrow> fold_name (unquote rawkey) = fold_name name"

text \<open>One field: a fold over the members with the decoder of its type.\<close>

definition field_with :: "('a \<Rightarrow> jv \<Rightarrow> bool \<times> 'a) \<Rightarrow> string \<Rightarrow> 'a \<Rightarrow> members \<Rightarrow> bool \<times> 'a" where
  "field_with dec name d ms =
     foldl (\<lambda>(ok, cur) (k, v).
         if names_field name k then (let r = dec cur v in (ok \<and> fst r, snd r)) else (ok, cur))
       (True, d) ms"

definition dec_str :: "string \<Rightarrow> jv \<Rightarrow> bool \<times> string" where
  "dec_str cur v = (case v of JStr raw \<Rightarrow> (True, unquote raw) | JNull \<Rightarrow> (True, cur) | _ \<Rightarrow> (False, cur))"

definition dec_u64 :: "u64 \<Rightarrow> jv \<Rightarrow> bool \<times> u64" where
  "dec_u64 cur v =
     (case v of JNum t \<Rightarrow> (case parse_uint64 t of Some n \<Rightarrow> (True, n) | None \<Rightarrow> (False, cur))
      | JNull \<Rightarrow> (True, cur) | _ \<Rightarrow> (False, cur))"

definition dec_int :: "int \<Rightarrow> jv \<Rightarrow> bool \<times> int" where
  "dec_int cur v =
     (case v of JNum t \<Rightarrow> (case atoi t of Some n \<Rightarrow> (True, n) | None \<Rightarrow> (False, cur))
      | JNull \<Rightarrow> (True, cur) | _ \<Rightarrow> (False, cur))"

definition dec_bool :: "bool \<Rightarrow> jv \<Rightarrow> bool \<times> bool" where
  "dec_bool cur v = (case v of JTrue \<Rightarrow> (True, True) | JFalse \<Rightarrow> (True, False) | JNull \<Rightarrow> (True, cur)
     | _ \<Rightarrow> (False, cur))"

definition dec_bool_ptr :: "bool option \<Rightarrow> jv \<Rightarrow> bool \<times> bool option" where
  "dec_bool_ptr cur v = (case v of JTrue \<Rightarrow> (True, Some True) | JFalse \<Rightarrow> (True, Some False)
     | JNull \<Rightarrow> (True, None) | _ \<Rightarrow> (False, cur))"

definition dec_raw :: "string option \<Rightarrow> jv \<Rightarrow> bool \<times> string option" where
  "dec_raw cur v = (True, Some (render v))"

text \<open>A slice of strings: \<open>null\<close> makes it nil, a \<open>null\<close> element is the empty string.\<close>

definition dec_strs :: "string list \<Rightarrow> jv \<Rightarrow> bool \<times> string list" where
  "dec_strs cur v = (case v of
       JArr vs \<Rightarrow> (list_all (\<lambda>v. fst (dec_str [] v)) vs, map (\<lambda>v. snd (dec_str [] v)) vs)
     | JNull \<Rightarrow> (True, []) | _ \<Rightarrow> (False, cur))"

abbreviation "field_str \<equiv> field_with dec_str"
abbreviation "field_u64 \<equiv> field_with dec_u64"
abbreviation "field_int \<equiv> field_with dec_int"
abbreviation "field_bool \<equiv> field_with dec_bool"
abbreviation "field_bool_ptr \<equiv> field_with dec_bool_ptr"
abbreviation "field_raw \<equiv> field_with dec_raw"
abbreviation "field_strs \<equiv> field_with dec_strs"

text \<open>The members a struct is decoded from: \<open>null\<close> decodes to no member, another type is an error.\<close>

definition as_members :: "jv \<Rightarrow> bool \<times> members" where
  "as_members v = (case v of JObj ms \<Rightarrow> (True, ms) | JNull \<Rightarrow> (True, []) | _ \<Rightarrow> (False, []))"

text \<open>\<open>Decoder.Decode\<close> on a body: the end of the input is told apart, as \<open>io.EOF\<close> is.\<close>

datatype body_json = BodyEOF | BodyBad | BodyVal jv

definition decode_body :: "string \<Rightarrow> body_json" where
  "decode_body s = (if skip_ws s = [] then BodyEOF
     else case parse_first s of None \<Rightarrow> BodyBad | Some (v, r) \<Rightarrow> BodyVal v)"

definition body_members :: "body_json \<Rightarrow> bool \<times> members" where
  "body_members b = (case b of BodyVal v \<Rightarrow> as_members v | _ \<Rightarrow> (False, []))"

text \<open>Keys of a struct encode as themselves: plain ASCII without anything to escape.\<close>

definition plain_key :: "string \<Rightarrow> bool" where
  "plain_key k \<longleftrightarrow> list_all (\<lambda>c. 97 \<le> byte c \<and> byte c \<le> 122 \<or> c = CHR ''_'') k"

lemma plain_key_char: "97 \<le> byte c \<and> byte c \<le> 122 \<or> c = CHR ''_'' \<Longrightarrow> is_ascii c \<and> c \<noteq> bslash"
  by (auto simp: is_ascii_def)

lemma unquote_plain_key: "plain_key k \<Longrightarrow> unquote k = k"
proof (induction k)
  case (Cons c k)
  then have "is_ascii c" "c \<noteq> bslash" using plain_key_char [of c] by (auto simp: plain_key_def)
  with Cons show ?case by (simp add: unquote.simps(2) plain_key_def)
qed simp

lemma raw_str_plain_key: "plain_key k \<Longrightarrow> raw_str k"
proof (induction k)
  case (Cons c k)
  then have "c \<noteq> dquote" "c \<noteq> bslash" "32 \<le> byte c" by (auto simp: plain_key_def)
  with Cons show ?case by (simp add: raw_str_plain plain_key_def)
qed simp

lemma plain_keys [simp]:
  "plain_key ''utc''" "plain_key ''seq''" "plain_key ''world_id''" "plain_key ''session_id''"
  "plain_key ''policy_hash''" "plain_key ''kind''" "plain_key ''payload''" "plain_key ''prev_hash''"
  "plain_key ''event_hash''" "plain_key ''id''" "plain_key ''profile''" "plain_key ''state''"
  "plain_key ''ttl_pause''" "plain_key ''ttl_store''" "plain_key ''ttl_prune''" "plain_key ''network''"
  "plain_key ''engine''" "plain_key ''guest_cid''" "plain_key ''vsock_uds''" "plain_key ''jail_root''"
  "plain_key ''phase''" "plain_key ''argv''" "plain_key ''timeout''" "plain_key ''pid''"
  "plain_key ''stdin''" "plain_key ''exit_code''" "plain_key ''stdout''" "plain_key ''stderr''" "plain_key ''jail''"
  "plain_key ''engine_ready''" "plain_key ''euid''" "plain_key ''max_worlds''" "plain_key ''ok''" "plain_key ''service''" "plain_key ''warm_pool''"
  by (simp_all add: plain_key_def)

lemmas raw_str_keys [simp] = plain_keys [THEN raw_str_plain_key]

text \<open>Folding is injective on such keys, so a key names exactly its own field.\<close>

lemma fold_name_ascii: "ascii_string k \<Longrightarrow> fold_name k = map upper_char k"
proof (induction k rule: fold_name.induct)
  case (1 a b c cs)
  then have "a \<noteq> CHR 0xC5" "a \<noteq> CHR 0xE2" by (auto simp: ascii_string_def is_ascii_def)
  with 1 show ?case by (auto simp: ascii_string_def)
next
  case (2 a b)
  then have "a \<noteq> CHR 0xC5" by (auto simp: ascii_string_def is_ascii_def)
  then show ?case by simp
qed simp_all

lemma plain_key_ascii: "plain_key k \<Longrightarrow> ascii_string k"
  unfolding plain_key_def ascii_string_def list_all_iff using plain_key_char by blast

lemma byte_upper_plain:
  assumes "97 \<le> byte c \<and> byte c \<le> 122 \<or> c = CHR ''_''"
  shows "byte (upper_char c) = (if c = CHR ''_'' then 95 else byte c - 32)"
  using assms by (auto simp: upper_char_def)

lemma upper_char_inject:
  assumes c: "97 \<le> byte c \<and> byte c \<le> 122 \<or> c = CHR ''_''"
    and d: "97 \<le> byte d \<and> byte d \<le> 122 \<or> d = CHR ''_''"
    and eq: "upper_char c = upper_char d"
  shows "c = d"
proof -
  have "byte (upper_char c) = byte (upper_char d)" using eq by simp
  then have "byte c = byte d"
    using c d unfolding byte_upper_plain [OF c] byte_upper_plain [OF d]
    by (simp split: if_splits del: of_char_eq_iff) linarith+
  then show ?thesis by simp
qed

lemma fold_name_inject:
  assumes "plain_key k" and "plain_key n"
  shows "fold_name k = fold_name n \<longleftrightarrow> k = n"
proof -
  have "map upper_char k = map upper_char n \<Longrightarrow> k = n"
    using assms
  proof (induction k arbitrary: n)
    case (Cons c k)
    then obtain d m where n: "n = d # m" by (cases n) auto
    with Cons show ?case using upper_char_inject [of c d] by (auto simp: plain_key_def)
  qed simp
  with assms show ?thesis by (auto simp: fold_name_ascii plain_key_ascii)
qed

lemma names_field_plain: "plain_key k \<Longrightarrow> plain_key n \<Longrightarrow> names_field n k \<longleftrightarrow> k = n"
  by (simp add: names_field_def unquote_plain_key fold_name_inject)

lemma field_with_Nil [simp]: "field_with dec name d [] = (True, d)"
  by (simp add: field_with_def)

lemma field_with_skip: "\<not> names_field name k \<Longrightarrow> field_with dec name d ((k, v) # ms) = field_with dec name d ms"
  by (simp add: field_with_def)

lemma field_with_take:
  "names_field name k \<Longrightarrow> dec d v = (True, x) \<Longrightarrow>
     field_with dec name d ((k, v) # ms) = field_with dec name x ms"
  by (simp add: field_with_def)

text \<open>
  Objects whose keys are plain and distinct: a field decoder reads the member of its name, or
  keeps the default where there is none.
\<close>

lemma field_with_absent:
  "\<forall>m\<in>set ms. plain_key (fst m) \<and> fst m \<noteq> name \<Longrightarrow> plain_key name \<Longrightarrow> field_with dec name d ms = (True, d)"
proof (induction ms)
  case (Cons m ms)
  then show ?case by (cases m) (simp add: field_with_skip names_field_plain)
qed simp

lemma field_with_map_of:
  assumes "\<forall>m\<in>set ms. plain_key (fst m)" and "distinct (map fst ms)" and "plain_key name"
    and "\<And>v. map_of ms name = Some v \<Longrightarrow> dec d v = (True, x)" and "map_of ms name = None \<Longrightarrow> x = d"
  shows "field_with dec name d ms = (True, x)"
  using assms
proof (induction ms)
  case (Cons m ms)
  obtain k v where m: "m = (k, v)" by (cases m)
  show ?case
  proof (cases "k = name")
    case False
    with Cons m show ?thesis by (simp add: field_with_skip names_field_plain)
  next
    case True
    with Cons.prems m have "\<forall>m\<in>set ms. plain_key (fst m) \<and> fst m \<noteq> name" by force
    with Cons.prems m True show ?thesis
      by (simp add: field_with_take names_field_plain field_with_absent)
  qed
qed simp

lemmas dec_simps = dec_str_def dec_u64_def dec_int_def dec_bool_def dec_bool_ptr_def dec_raw_def dec_strs_def

lemma dec_str_jstr [simp]: "valid_utf8 s \<Longrightarrow> dec_str d (jstr s) = (True, s)"
  by (simp add: dec_str_def jstr_def unquote_quote)

definition jnat :: "nat \<Rightarrow> jv" where
  "jnat n = JNum (show_nat n)"

lemma dec_u64_jnat [simp]: "dec_u64 d (jnat (unat n)) = (True, n)"
  by (simp add: dec_u64_def jnat_def)

lemma raw_num_show_nat [simp]: "raw_num (show_nat n)"
proof (cases "n = 0")
  case True
  then show ?thesis by (simp add: raw_num_def scan_num_def num_sign_def scan_int_def scan_frac_def scan_exp_def)
next
  case False
  obtain c cs where c: "show_nat n = c # cs" using show_nat_nonempty [of n] by (cases "show_nat n") auto
  with show_nat_hd [OF False] have "c \<noteq> CHR ''0''" by simp
  moreover have "is_digit c" using c show_nat_digits [of c n] by simp
  moreover from this have "c \<noteq> CHR ''-''" by (auto simp: is_digit_def)
  moreover have "scan_digits (show_nat n) = Some (show_nat n, [])" by (simp add: scan_digits_def)
  ultimately show ?thesis
    using c by (simp add: raw_num_def scan_num_def num_sign_def scan_int_def scan_frac_def scan_exp_def)
qed

lemma jwf_jnat [simp]: "jwf (jnat n)"
  by (simp add: jnat_def)

lemma jnat_inject [simp]: "jnat m = jnat n \<longleftrightarrow> m = n"
  by (simp add: jnat_def)

lemma jdepth_leaf [simp]: "jdepth (jstr s) = 0" "jdepth (jnat n) = 0"
  by (simp_all add: jstr_def jnat_def)

section \<open>Encoding of struct fields\<close>

text \<open>A string member with \<open>omitempty\<close>, and a raw message member with \<open>omitempty\<close>.\<close>

definition omit_str :: "string \<Rightarrow> string \<Rightarrow> members" where
  "omit_str k s = (if s = [] then [] else [(k, jstr s)])"

definition omit_raw :: "string \<Rightarrow> string option \<Rightarrow> members option" where
  "omit_raw k p = (case p of None \<Rightarrow> Some []
     | Some t \<Rightarrow> if t = [] then Some [] else map_option (\<lambda>v. [(k, v)]) (raw_tree t))"

definition wf_members :: "members \<Rightarrow> bool" where
  "wf_members ms \<longleftrightarrow> (\<forall>m\<in>set ms. raw_str (fst m) \<and> jwf (snd m))"

lemma wf_members_simps [simp]:
  "wf_members []" "wf_members (m # ms) \<longleftrightarrow> raw_str (fst m) \<and> jwf (snd m) \<and> wf_members ms"
  "wf_members (xs @ ys) \<longleftrightarrow> wf_members xs \<and> wf_members ys"
  by (auto simp: wf_members_def)

lemma jwf_JObj [simp]: "jwf (JObj ms) \<longleftrightarrow> wf_members ms"
  by (simp add: wf_members_def)

declare jwf.simps(4) [simp del]

lemma omit_str_wf [simp]: "raw_str k \<Longrightarrow> wf_members (omit_str k s)"
  by (simp add: omit_str_def)

lemma omit_raw_wf: "omit_raw k p = Some pl \<Longrightarrow> raw_str k \<Longrightarrow> wf_members pl"
  by (auto simp: omit_raw_def dest: raw_tree_wf split: option.splits if_splits)

lemma omit_raw_keys: "omit_raw k p = Some pl \<Longrightarrow> \<forall>m\<in>set pl. fst m = k"
  by (auto simp: omit_raw_def split: option.splits if_splits)

lemma map_of_omit_str: "map_of (omit_str k s) k' = (if s \<noteq> [] \<and> k' = k then Some (jstr s) else None)"
  by (auto simp: omit_str_def)

lemma omit_raw_shape: "omit_raw k p = Some pl \<Longrightarrow> pl = [] \<or> (\<exists>v. pl = [(k, v)])"
  by (auto simp: omit_raw_def split: option.splits if_splits)

lemma omit_raw_inject:
  "omit_raw k (Some p) = Some pl \<Longrightarrow> omit_raw k (Some q) = Some pl \<Longrightarrow> (p = [] \<longleftrightarrow> q = []) \<and> (p \<noteq> [] \<longrightarrow> raw_tree p = raw_tree q)"
  by (auto simp: omit_raw_def split: if_splits)

text \<open>The payload leaves room for the object around it under the nesting bound.\<close>

definition shallow :: "string option \<Rightarrow> bool" where
  "shallow p \<longleftrightarrow> (case p of None \<Rightarrow> True
     | Some t \<Rightarrow> (case raw_tree t of None \<Rightarrow> True | Some v \<Rightarrow> jdepth v < maxNestingDepth))"

definition low_members :: "members \<Rightarrow> bool" where
  "low_members ms \<longleftrightarrow> (\<forall>m\<in>set ms. jdepth (snd m) < maxNestingDepth)"

lemma maxNestingDepth_pos [simp]: "0 < maxNestingDepth"
  by (simp add: maxNestingDepth_def)

lemma low_members_simps [simp]:
  "low_members []" "low_members (m # ms) \<longleftrightarrow> jdepth (snd m) < maxNestingDepth \<and> low_members ms"
  "low_members (xs @ ys) \<longleftrightarrow> low_members xs \<and> low_members ys"
  by (auto simp: low_members_def)

lemma omit_str_low [simp]: "low_members (omit_str k s)"
  by (simp add: omit_str_def)

lemma omit_raw_low: "omit_raw k p = Some pl \<Longrightarrow> shallow p \<Longrightarrow> low_members pl"
  by (auto simp: omit_raw_def shallow_def split: option.splits if_splits)

lemma jdepth_JObj_le: "low_members ms \<Longrightarrow> jdepth (JObj ms) \<le> maxNestingDepth"
proof -
  assume *: "low_members ms"
  let ?S = "insert 0 (set (map (\<lambda>(k, v). jdepth v) ms))"
  have "Max ?S \<in> ?S" by (rule Max_in) simp_all
  with * have "Max ?S < maxNestingDepth" by (auto simp: low_members_def)
  then have "Suc (Max ?S) \<le> maxNestingDepth" by (rule Suc_leI)
  then show ?thesis by (simp only: jdepth.simps)
qed

declare jdepth.simps(2) [simp del]

end
