(* ===== verification/JsonDecode.thy ===== *)
theory JsonDecode
  imports JsonFields
begin

text \<open>
  What decoding can produce: strings that are valid UTF-8 and raw messages that are well-formed
  values under the nesting bound.
\<close>

section \<open>Runes\<close>

lemma runes_append: "rune_ok r \<Longrightarrow> runes (r @ t) = (r, True) # runes t"
proof -
  assume ok: "rune_ok r"
  then obtain c cs where r: "r = c # cs" by (cases r) (auto simp: rune_ok_def)
  with rune_ok_append [OF ok, of t] show ?thesis by (simp add: runes.simps(2))
qed

lemma valid_utf8_append_rune: "rune_ok r \<Longrightarrow> valid_utf8 t \<Longrightarrow> valid_utf8 (r @ t)"
  by (simp add: valid_utf8_def runes_append)

lemma valid_utf8_Nil [simp]: "valid_utf8 []"
  by (simp add: valid_utf8_def)

lemma byte_char_of: "n < 256 \<Longrightarrow> byte (char_of n) = n"
  by simp

lemma encode_rune_2: "128 \<le> n \<Longrightarrow> n < 2048 \<Longrightarrow> rune_ok (encode_rune n)"
proof -
  assume n: "128 \<le> n" "n < 2048"
  then have "2 \<le> n div 64" "n div 64 < 32" "n mod 64 < 64" by (auto simp: less_mult_imp_div_less)
  with n show ?thesis
    by (simp add: encode_rune_def rune_ok_def rune_size_def is_ascii_def lead_info_def)
qed

lemma encode_rune_3: "2048 \<le> n \<Longrightarrow> n < 65536 \<Longrightarrow> \<not> is_surrogate n \<Longrightarrow> rune_ok (encode_rune n)"
proof -
  assume n: "2048 \<le> n" "n < 65536" and s: "\<not> is_surrogate n"
  define q where "q = n div 4096"
  define m where "m = (n div 64) mod 64"
  have q: "q < 16" using n by (simp add: q_def)
  have nq: "n div 64 = 64 * q + m" using div_mult_mod_eq [of "n div 64" 64] by (simp add: q_def m_def flip: div_mult2_eq)
  have "q = 0 \<Longrightarrow> 32 \<le> m" using n nq by linarith
  moreover have m: "m < 64" by (simp add: m_def)
  moreover have "q = 13 \<Longrightarrow> m < 32"
  proof -
    assume "q = 13"
    with nq m have "n < 57344" by linarith
    with s have "n < 55296" by (simp add: is_surrogate_def)
    with nq \<open>q = 13\<close> show "m < 32" by linarith
  qed
  ultimately show ?thesis
    using n q by (auto simp: encode_rune_def rune_ok_def rune_size_def is_ascii_def lead_info_def is_cont_def
        q_def [symmetric] m_def [symmetric])
qed

lemma encode_rune_4: "65536 \<le> n \<Longrightarrow> n < 1114112 \<Longrightarrow> rune_ok (encode_rune n)"
proof -
  assume n: "65536 \<le> n" "n < 1114112"
  define q where "q = n div 262144"
  define m where "m = (n div 4096) mod 64"
  have q: "q < 5" using n by (simp add: q_def)
  have nq: "n div 4096 = 64 * q + m" using div_mult_mod_eq [of "n div 4096" 64] by (simp add: q_def m_def flip: div_mult2_eq)
  have "q = 0 \<Longrightarrow> 16 \<le> m" using n nq by linarith
  moreover have "q = 4 \<Longrightarrow> m < 16" using n nq by linarith
  moreover have "m < 64" by (simp add: m_def)
  moreover have "q = 0 \<or> q = 1 \<or> q = 2 \<or> q = 3 \<or> q = 4" using q by linarith
  ultimately show ?thesis
    using n by (auto simp: encode_rune_def rune_ok_def rune_size_def is_ascii_def lead_info_def is_cont_def
        q_def [symmetric] m_def [symmetric])
qed

lemma encode_rune_ok: "n < 1114112 \<Longrightarrow> \<not> is_surrogate n \<Longrightarrow> rune_ok (encode_rune n)"
  using encode_rune_2 [of n] encode_rune_3 [of n] encode_rune_4 [of n]
  by (cases "n < 128"; cases "n < 2048"; cases "n < 65536") (auto simp: encode_rune_def rune_ok_def is_ascii_def)

section \<open>Decoded strings\<close>

lemma raw_str_escape:
  assumes "raw_str (bslash # cs)"
  obtains (simple) e r where "cs = e # r" and "simple_escape e" and "raw_str r"
    | (hex) r where "cs = CHR ''u'' # r" and "list_all is_hex (take 4 r)" and "4 \<le> length r" and "raw_str (drop 4 r)"
proof -
  obtain u raw where eq: "bslash # cs = u @ raw" and raw: "raw_str raw" and u: "str_unit u = Some (u, [])"
    using raw_str_units [OF assms] by blast
  then obtain v where v: "u = bslash # v" by (cases u) (auto simp: str_unit_def)
  show thesis
  proof (cases "\<exists>e. v = [e] \<and> simple_escape e")
    case True
    with eq v raw simple show thesis by auto
  next
    case False
    with u v obtain h where "v = CHR ''u'' # h" "length h = 4" "list_all is_hex h"
      by (auto simp: str_unit_def split: list.splits if_splits)
    with eq v raw show thesis by (intro hex [of "h @ raw"]) auto
  qed
qed

lemma raw_str_tail: "raw_str (c # cs) \<Longrightarrow> c \<noteq> bslash \<Longrightarrow> raw_str cs"
proof -
  assume raw: "raw_str (c # cs)" and c: "c \<noteq> bslash"
  then obtain u t where "c # cs = u @ t" "raw_str t" "str_unit u = Some (u, [])"
    using raw_str_units by blast
  moreover from this have "u = [c]" using c by (cases u) (auto simp: str_unit_def split: if_splits)
  ultimately show ?thesis by simp
qed

lemma raw_str_drop: "\<forall>x\<in>set (take n cs). \<not> is_ascii x \<Longrightarrow> raw_str cs \<Longrightarrow> raw_str (drop n cs)"
proof (induction n arbitrary: cs)
  case (Suc n)
  show ?case
  proof (cases cs)
    case (Cons c ds)
    with Suc.prems have "c \<noteq> bslash" by (auto simp: is_ascii_def)
    with Suc Cons raw_str_tail [of c ds] show ?thesis by simp
  qed (use Suc in simp)
qed simp

lemma hex_val_less: "is_hex c \<Longrightarrow> hex_val c < 16"
  by (auto simp: is_hex_def hex_val_def is_digit_def)

lemma hex4_val_less: "list_all is_hex h \<Longrightarrow> length h = 4 \<Longrightarrow> hex4_val h < 65536"
proof -
  assume h: "list_all is_hex h" "length h = 4"
  then obtain a b c d where eq: "h = [a, b, c, d]"
    by (auto simp: numeral_eq_Suc length_Suc_conv)
  with h have "hex_val a < 16" "hex_val b < 16" "hex_val c < 16" "hex_val d < 16"
    by (simp_all add: hex_val_less)
  with eq show ?thesis by (simp add: hex4_val_def)
qed

lemma rune_size_taken:
  assumes "rune_size (c # cs) = (n, True)"
  shows "rune_ok (c # take (n - 1) cs)"
  using rune_size_take [OF assms, of "[]"] by (auto simp: rune_ok_def)

lemma rune_ok_nonascii: "rune_ok r \<Longrightarrow> \<not> is_ascii (hd r) \<Longrightarrow> \<forall>x\<in>set r. \<not> is_ascii x"
  by (cases rule: rune_ok_cases) auto

lemma rune_size_invalid: "rune_size (c # cs) = (n, False) \<Longrightarrow> n = 1"
  by (auto simp: rune_size_def split: list.splits option.splits if_splits)


text \<open>The escapes of a literal: each yields one valid rune.\<close>

lemma unquote_simple:
  assumes "simple_escape e"
  obtains x where "is_ascii x" and "unquote (bslash # e # r) = x # unquote r"
proof -
  have "\<exists>x. is_ascii x \<and> unquote (bslash # e # r) = x # unquote r"
    using assms unfolding simple_escape_def insert_iff empty_iff
    by (elim disjE FalseE) (simp_all add: unquote.simps(2) [of bslash] is_ascii_def)
  then show thesis using that by blast
qed

lemma unquote_hex:
  assumes hex: "list_all is_hex (take 4 r)" "4 \<le> length r" and raw: "raw_str (drop 4 r)"
  obtains x k where "rune_ok x" and "raw_str (drop k r)" and "unquote (bslash # CHR ''u'' # r) = x @ unquote (drop k r)"
proof -
  let ?n = "hex4_val (take 4 r)" and ?r = "drop 4 r"
  let ?m = "hex4_val (take 4 (drop 2 ?r))"
  let ?pair = "prefix [bslash, CHR ''u''] ?r \<and> 55296 \<le> ?n \<and> ?n < 56320 \<and> 56320 \<le> ?m \<and> ?m < 57344"
  have n: "?n < 65536" using hex by (intro hex4_val_less) simp_all
  have fffd: "rune_ok (encode_rune 65533)" by (rule encode_rune_ok) (simp_all add: is_surrogate_def)
  consider (plain) "\<not> is_surrogate ?n" | (pair) "is_surrogate ?n" ?pair | (half) "is_surrogate ?n" "\<not> ?pair" by blast
  then show thesis
  proof cases
    case plain
    with n raw that [of "encode_rune ?n" 4] encode_rune_ok [of ?n] show thesis by (simp add: unquote.simps(2))
  next
    case pair
    then obtain t where t: "?r = bslash # CHR ''u'' # t" by (auto simp: prefix_def)
    with raw have "raw_str (bslash # CHR ''u'' # t)" by simp
    then have "raw_str (drop 4 t)" by (cases rule: raw_str_escape) (auto simp: simple_escape_def)
    moreover have "drop 10 r = drop 6 ?r" by simp
    ultimately have "raw_str (drop 10 r)" by (simp add: t)
    moreover let ?x = "65536 + (?n - 55296) * 1024 + (?m - 56320)"
    have "rune_ok (encode_rune ?x)" using pair by (intro encode_rune_ok) (auto simp: is_surrogate_def)
    ultimately show thesis using pair that [of "encode_rune ?x" 10] by (simp add: unquote.simps(2))
  next
    case half
    with raw fffd that [of "encode_rune 65533" 4] show thesis by (auto simp: unquote.simps(2))
  qed
qed

lemma unquote_nonascii:
  assumes c: "\<not> is_ascii c" and raw: "raw_str (c # cs)"
  obtains x k where "rune_ok x" and "raw_str (drop k cs)" and "unquote (c # cs) = x @ unquote (drop k cs)"
proof -
  have b: "c \<noteq> bslash" using c by (auto simp: is_ascii_def)
  with raw have cs: "raw_str cs" by (rule raw_str_tail)
  obtain n v where nv: "rune_size (c # cs) = (n, v)" by (cases "rune_size (c # cs)")
  show thesis
  proof (cases v)
    case True
    with nv have r: "rune_ok (c # take (n - 1) cs)" by (intro rune_size_taken) simp
    with c have "\<forall>x\<in>set (take (n - 1) cs). \<not> is_ascii x" using rune_ok_nonascii by force
    with cs have "raw_str (drop (n - 1) cs)" by (intro raw_str_drop)
    with r b c nv True that show thesis by (simp add: unquote.simps(2))
  next
    case False
    have "rune_ok (encode_rune 65533)" by (rule encode_rune_ok) (simp_all add: is_surrogate_def)
    moreover have "n = 1" using nv False rune_size_invalid [of c cs n] by simp
    ultimately show thesis
      using False nv b c cs that [of "encode_rune 65533" 0] by (simp add: unquote.simps(2))
  qed
qed

text \<open>Every decoded string is valid UTF-8, whatever the bytes of the input are.\<close>

lemma unquote_utf8: "raw_str raw \<Longrightarrow> valid_utf8 (unquote raw)"
proof (induction raw rule: length_induct)
  case (1 raw)
  show ?case
  proof (cases raw)
    case (Cons c cs)
    have IH: "raw_str t \<Longrightarrow> length t \<le> length cs \<Longrightarrow> valid_utf8 (unquote t)" for t
      using "1.IH" Cons by auto
    have one: "is_ascii x \<Longrightarrow> rune_ok [x]" for x by (simp add: rune_ok_def)
    consider "c = bslash" | "c \<noteq> bslash" "is_ascii c" | "\<not> is_ascii c" by blast
    then show ?thesis
    proof cases
      case 1
      with "1.prems" Cons have "raw_str (bslash # cs)" by simp
      then show ?thesis
      proof (cases rule: raw_str_escape)
        case (simple e r)
        then obtain x where "is_ascii x" "unquote raw = x # unquote r"
          using unquote_simple [of e r] Cons \<open>c = bslash\<close> by auto
        with simple IH [of r] valid_utf8_append_rune [OF one, of x "unquote r"] show ?thesis by simp
      next
        case (hex r)
        then obtain x k where "rune_ok x" "raw_str (drop k r)" "unquote raw = x @ unquote (drop k r)"
          using unquote_hex [of r] Cons \<open>c = bslash\<close> by metis
        with hex IH [of "drop k r"] show ?thesis by (simp add: valid_utf8_append_rune)
      qed
    next
      case 2
      with Cons "1.prems" raw_str_tail [of c cs] IH [of cs] valid_utf8_append_rune [OF one [OF 2(2)], of "unquote cs"]
      show ?thesis by (simp add: unquote.simps(2))
    next
      case 3
      then obtain x k where "rune_ok x" "raw_str (drop k cs)" "unquote raw = x @ unquote (drop k cs)"
        using unquote_nonascii [of c cs] "1.prems" Cons by metis
      with IH [of "drop k cs"] show ?thesis by (simp add: valid_utf8_append_rune)
    qed
  qed simp
qed

section \<open>Decoded fields\<close>

lemma field_with_invariant:
  assumes "P d" and "\<And>k v cur. (k, v) \<in> set ms \<Longrightarrow> P cur \<Longrightarrow> P (snd (dec cur v))"
  shows "P (snd (field_with dec name d ms))"
proof -
  have "P (snd (foldl (\<lambda>(ok, cur) (k, v). if names_field name k then (let r = dec cur v in (ok \<and> fst r, snd r))
      else (ok, cur)) a ms))" if "P (snd a)" for a
    using that assms(2)
  proof (induction ms arbitrary: a)
    case (Cons m ms)
    obtain k v where m: "m = (k, v)" by (cases m)
    obtain ok cur where a: "a = (ok, cur)" by (cases a)
    have "P (snd (dec cur v))" using Cons.prems m a by auto
    moreover have "P cur" using Cons.prems a by simp
    moreover have "\<And>k v cur. (k, v) \<in> set ms \<Longrightarrow> P cur \<Longrightarrow> P (snd (dec cur v))" using Cons.prems by auto
    ultimately show ?case using Cons.IH by (simp add: m a Let_def)
  qed simp
  from this [of "(True, d)"] assms(1) show ?thesis by (simp add: field_with_def)
qed

lemma field_str_utf8: "wf_members ms \<Longrightarrow> valid_utf8 d \<Longrightarrow> valid_utf8 (snd (field_str name d ms))"
  by (rule field_with_invariant) (force simp: dec_str_def wf_members_def unquote_utf8 split: jv.splits)+

lemma field_raw_shallow:
  assumes "wf_members ms" and "low_members ms"
  shows "shallow (snd (field_raw name None ms)) \<and> snd (field_raw name None ms) \<noteq> Some []"
proof (rule field_with_invariant)
  fix k v and cur :: "string option"
  assume "(k, v) \<in> set ms"
  with assms have v: "jwf v" "jdepth v < maxNestingDepth" by (force simp: wf_members_def low_members_def)+
  then have "raw_tree (render v) = Some (html_tree v)" by (simp add: raw_tree_def parse_text_render)
  with v render_nonempty [OF v(1)] show "shallow (snd (dec_raw cur v)) \<and> snd (dec_raw cur v) \<noteq> Some []"
    by (auto simp: dec_raw_def shallow_def)
qed (simp add: shallow_def)

lemma jdepth_member: "m \<in> set ms \<Longrightarrow> jdepth (snd m) < jdepth (JObj ms)"
proof -
  assume "m \<in> set ms"
  then have "jdepth (snd m) \<in> insert 0 (set (map (\<lambda>(k, v). jdepth v) ms))" by (auto simp: case_prod_unfold)
  then have "jdepth (snd m) \<le> Max (insert 0 (set (map (\<lambda>(k, v). jdepth v) ms)))" by (intro Max_ge) simp_all
  then show ?thesis by (simp add: jdepth.simps(2))
qed

lemma body_members_wf: "wf_members (snd (body_members (decode_body b))) \<and> low_members (snd (body_members (decode_body b)))"
proof (cases "decode_body b")
  case (BodyVal v)
  then obtain r where r: "parse_first b = Some (v, r)" by (auto simp: decode_body_def split: option.splits if_splits)
  then have "jwf v" "jdepth v \<le> maxNestingDepth"
    using parse_first_jwf by (auto simp: parse_first_def split: option.splits if_splits)
  then show ?thesis
    using jdepth_member by (cases v) (fastforce simp: BodyVal body_members_def as_members_def low_members_def)+
qed (simp_all add: body_members_def)

end
