(* ===== verification/DeskEvent.thy ===== *)
theory DeskEvent
  imports JsonDecode
begin

text \<open>
  \<open>desk/event.go\<close>: the continuity record, the material its hash covers, the hash, and the check of a
  chain. SHA-256 is the parameter \<open>sha\<close> (from bytes to bytes): every property holds for any
  function in its place, and those that need it to tell texts apart say which texts.
\<close>

definition GenesisPrev :: string where
  "GenesisPrev = replicate 64 (CHR ''0'')"

record Event =
  ev_UTC :: string
  ev_Seq :: u64
  ev_WorldID :: string
  ev_SessionID :: string
  ev_PolicyHash :: string
  ev_Kind :: string
  ev_Payload :: "string option"
  ev_PrevHash :: string
  ev_EventHash :: string

record IngestRequest =
  rq_WorldID :: string
  rq_SessionID :: string
  rq_PolicyHash :: string
  rq_Kind :: string
  rq_Payload :: "string option"
  rq_UTC :: string

record chainMaterial =
  cm_UTC :: string
  cm_Seq :: u64
  cm_WorldID :: string
  cm_SessionID :: string
  cm_PolicyHash :: string
  cm_Kind :: string
  cm_Payload :: "string option"
  cm_PrevHash :: string

section \<open>Encoding\<close>

text \<open>\<open>json.Marshal\<close> of the chain material: fields in declaration order; \<open>None\<close> is its error.\<close>

definition material_tree :: "chainMaterial \<Rightarrow> jv option" where
  "material_tree m = map_option (\<lambda>pl. JObj (
      [(''utc'', jstr (cm_UTC m)), (''seq'', jnat (unat (cm_Seq m))), (''world_id'', jstr (cm_WorldID m))]
      @ omit_str ''session_id'' (cm_SessionID m) @ omit_str ''policy_hash'' (cm_PolicyHash m)
      @ [(''kind'', jstr (cm_Kind m))] @ pl @ [(''prev_hash'', jstr (cm_PrevHash m))]))
    (omit_raw ''payload'' (cm_Payload m))"

definition marshal_material :: "chainMaterial \<Rightarrow> string option" where
  "marshal_material m = map_option render (material_tree m)"

definition hashEvent :: "(string \<Rightarrow> string) \<Rightarrow> string \<Rightarrow> u64 \<Rightarrow> string \<Rightarrow> string \<Rightarrow> string \<Rightarrow> string
    \<Rightarrow> string option \<Rightarrow> string \<Rightarrow> string option" where
  "hashEvent sha utc seq worldID sessionID policyHash kind payload prevHash =
     (let payload' = (case payload of None \<Rightarrow> Some ''null'' | Some p \<Rightarrow> Some p);
          mat = \<lparr>cm_UTC = utc, cm_Seq = seq, cm_WorldID = worldID, cm_SessionID = sessionID,
                 cm_PolicyHash = policyHash, cm_Kind = kind, cm_Payload = payload', cm_PrevHash = prevHash\<rparr>
      in case marshal_material mat of None \<Rightarrow> None
         | Some b \<Rightarrow> Some (hex_encode (sha b)))"

text \<open>\<open>json.Marshal\<close> of an event and \<open>json.Unmarshal\<close> into one.\<close>

definition event_tree :: "Event \<Rightarrow> jv option" where
  "event_tree e = map_option (\<lambda>pl. JObj (
      [(''utc'', jstr (ev_UTC e)), (''seq'', jnat (unat (ev_Seq e))), (''world_id'', jstr (ev_WorldID e))]
      @ omit_str ''session_id'' (ev_SessionID e) @ omit_str ''policy_hash'' (ev_PolicyHash e)
      @ [(''kind'', jstr (ev_Kind e))] @ pl
      @ [(''prev_hash'', jstr (ev_PrevHash e)), (''event_hash'', jstr (ev_EventHash e))]))
    (omit_raw ''payload'' (ev_Payload e))"

definition marshal_event :: "Event \<Rightarrow> string option" where
  "marshal_event e = map_option render (event_tree e)"

definition event_of :: "members \<Rightarrow> bool \<times> Event" where
  "event_of ms =
     (let utc = field_str ''utc'' [] ms; seq = field_u64 ''seq'' 0 ms; wid = field_str ''world_id'' [] ms;
          sid = field_str ''session_id'' [] ms; ph = field_str ''policy_hash'' [] ms;
          kind = field_str ''kind'' [] ms; pl = field_raw ''payload'' None ms;
          prev = field_str ''prev_hash'' [] ms; h = field_str ''event_hash'' [] ms
      in (fst utc \<and> fst seq \<and> fst wid \<and> fst sid \<and> fst ph \<and> fst kind \<and> fst pl \<and> fst prev \<and> fst h,
          \<lparr>ev_UTC = snd utc, ev_Seq = snd seq, ev_WorldID = snd wid, ev_SessionID = snd sid,
           ev_PolicyHash = snd ph, ev_Kind = snd kind, ev_Payload = snd pl, ev_PrevHash = snd prev,
           ev_EventHash = snd h\<rparr>))"

definition unmarshal_event :: "string \<Rightarrow> Event option" where
  "unmarshal_event s = (case parse_text s of None \<Rightarrow> None
     | Some v \<Rightarrow> (let m = as_members v; r = event_of (snd m)
                 in if fst m \<and> fst r then Some (snd r) else None))"

section \<open>Verification\<close>

text \<open>The hash of an event's own fields, as \<open>VerifyChain\<close> recomputes it.\<close>

definition event_hash_of :: "(string \<Rightarrow> string) \<Rightarrow> Event \<Rightarrow> string option" where
  "event_hash_of sha e = hashEvent sha (ev_UTC e) (ev_Seq e) (ev_WorldID e) (ev_SessionID e)
     (ev_PolicyHash e) (ev_Kind e) (ev_Payload e) (ev_PrevHash e)"

datatype verify_error = HashError | PrevMismatch nat string string | HashMismatch nat string string

text \<open>The loop of \<open>VerifyChain\<close> at index \<open>i\<close> with the running \<open>prev\<close>; \<open>None\<close> is the nil error.\<close>

fun verify_from :: "(string \<Rightarrow> string) \<Rightarrow> nat \<Rightarrow> string \<Rightarrow> Event list \<Rightarrow> verify_error option" where
  "verify_from sha i prev [] = None"
| "verify_from sha i prev (ev # evs) =
     (case event_hash_of sha ev of None \<Rightarrow> Some HashError
      | Some want \<Rightarrow>
          if ev_PrevHash ev \<noteq> prev then Some (PrevMismatch i (ev_PrevHash ev) prev)
          else if ev_EventHash ev \<noteq> want then Some (HashMismatch i (ev_EventHash ev) want)
          else verify_from sha (Suc i) (ev_EventHash ev) evs)"

definition VerifyChain :: "(string \<Rightarrow> string) \<Rightarrow> Event list \<Rightarrow> verify_error option" where
  "VerifyChain sha evs = verify_from sha 0 GenesisPrev evs"

text \<open>
  What a chain promises, without the walk: every event carries the hash of its own fields, the
  first follows the genesis and each other follows its predecessor.
\<close>

fun linked :: "(string \<Rightarrow> string) \<Rightarrow> string \<Rightarrow> Event list \<Rightarrow> bool" where
  "linked sha prev [] = True"
| "linked sha prev (e # es) \<longleftrightarrow>
     ev_PrevHash e = prev \<and> event_hash_of sha e = Some (ev_EventHash e) \<and> linked sha (ev_EventHash e) es"

text \<open>The tip after a chain.\<close>

fun tip_of :: "string \<Rightarrow> Event list \<Rightarrow> string" where
  "tip_of prev [] = prev"
| "tip_of prev (e # es) = tip_of (ev_EventHash e) es"

lemmas [desk_defs] = hashEvent_def event_hash_of_def VerifyChain_def

lemma verify_from_linked: "verify_from sha i prev es = None \<longleftrightarrow> linked sha prev es"
  by (induction es arbitrary: i prev) (auto split: option.splits)

lemma linked_append: "linked sha prev (xs @ ys) \<longleftrightarrow> linked sha prev xs \<and> linked sha (tip_of prev xs) ys"
  by (induction xs arbitrary: prev) auto

lemma tip_of_append: "tip_of prev (xs @ ys) = tip_of (tip_of prev xs) ys"
  by (induction xs arbitrary: prev) auto

lemma tip_of_snoc [simp]: "tip_of prev (xs @ [e]) = ev_EventHash e"
  by (simp add: tip_of_append)

section \<open>The material determines the record\<close>

definition utf8_event :: "Event \<Rightarrow> bool" where
  "utf8_event e \<longleftrightarrow> valid_utf8 (ev_UTC e) \<and> valid_utf8 (ev_WorldID e) \<and> valid_utf8 (ev_SessionID e)
     \<and> valid_utf8 (ev_PolicyHash e) \<and> valid_utf8 (ev_Kind e) \<and> valid_utf8 (ev_PrevHash e)
     \<and> valid_utf8 (ev_EventHash e)"

text \<open>The material of an event, with the nil payload written as \<open>null\<close>.\<close>

definition material_of :: "Event \<Rightarrow> chainMaterial" where
  "material_of e = \<lparr>cm_UTC = ev_UTC e, cm_Seq = ev_Seq e, cm_WorldID = ev_WorldID e,
     cm_SessionID = ev_SessionID e, cm_PolicyHash = ev_PolicyHash e, cm_Kind = ev_Kind e,
     cm_Payload = Some (case ev_Payload e of None \<Rightarrow> ''null'' | Some p \<Rightarrow> p), cm_PrevHash = ev_PrevHash e\<rparr>"

lemma event_hash_of_material:
  "event_hash_of sha e = map_option (\<lambda>b. hex_encode (sha b)) (marshal_material (material_of e))"
  by (simp add: event_hash_of_def hashEvent_def material_of_def Let_def split: option.splits)

definition utf8_material :: "chainMaterial \<Rightarrow> bool" where
  "utf8_material m \<longleftrightarrow> valid_utf8 (cm_UTC m) \<and> valid_utf8 (cm_WorldID m) \<and> valid_utf8 (cm_SessionID m)
     \<and> valid_utf8 (cm_PolicyHash m) \<and> valid_utf8 (cm_Kind m) \<and> valid_utf8 (cm_PrevHash m)"

lemma material_tree_wf: "material_tree m = Some v \<Longrightarrow> jwf v"
  by (auto simp: material_tree_def omit_raw_wf)

lemma material_lookup:
  assumes "omit_raw ''payload'' p = Some pl"
    and "ms = [(''utc'', a), (''seq'', b), (''world_id'', c)] @ omit_str ''session_id'' s @ omit_str ''policy_hash'' h
        @ [(''kind'', k)] @ pl @ [(''prev_hash'', d)]"
  shows "map_of ms ''utc'' = Some a" "map_of ms ''seq'' = Some b" "map_of ms ''world_id'' = Some c"
    "map_of ms ''session_id'' = (if s = [] then None else Some (jstr s))"
    "map_of ms ''policy_hash'' = (if h = [] then None else Some (jstr h))"
    "map_of ms ''kind'' = Some k" "filter (\<lambda>m. fst m = ''payload'') ms = pl" "map_of ms ''prev_hash'' = Some d"
  using omit_raw_shape [OF assms(1)]
  by (elim disjE exE; simp add: assms(2) map_of_omit_str map_add_def omit_str_def)+

text \<open>
  Two materials with the same encoding are the same: same strings, same number, and payloads that
  differ at most in white space and escaping.
\<close>

lemma marshal_material_inject:
  assumes b: "marshal_material m = Some b" and b': "marshal_material m' = Some b"
    and u: "utf8_material m" "utf8_material m'"
    and pay: "cm_Payload m = Some p" "cm_Payload m' = Some p'"
  shows "cm_UTC m = cm_UTC m' \<and> cm_Seq m = cm_Seq m' \<and> cm_WorldID m = cm_WorldID m'
    \<and> cm_SessionID m = cm_SessionID m' \<and> cm_PolicyHash m = cm_PolicyHash m' \<and> cm_Kind m = cm_Kind m'
    \<and> cm_PrevHash m = cm_PrevHash m' \<and> (p = [] \<longleftrightarrow> p' = []) \<and> (p \<noteq> [] \<longrightarrow> raw_tree p = raw_tree p')"
proof -
  obtain v v' where v: "material_tree m = Some v" "material_tree m' = Some v'" and "render v = render v'"
    using b b' by (auto simp: marshal_material_def)
  then have "v = v'" using material_tree_wf render_inject by blast
  obtain pl where pl: "omit_raw ''payload'' (cm_Payload m) = Some pl"
    using v(1) by (auto simp: material_tree_def)
  obtain pl' where pl': "omit_raw ''payload'' (cm_Payload m') = Some pl'"
    using v(2) by (auto simp: material_tree_def)
  obtain ms where ms: "v = JObj ms" using v(1) by (auto simp: material_tree_def)
  have *: "ms = [(''utc'', jstr (cm_UTC m)), (''seq'', jnat (unat (cm_Seq m))), (''world_id'', jstr (cm_WorldID m))]
      @ omit_str ''session_id'' (cm_SessionID m) @ omit_str ''policy_hash'' (cm_PolicyHash m)
      @ [(''kind'', jstr (cm_Kind m))] @ pl @ [(''prev_hash'', jstr (cm_PrevHash m))]"
    using v(1) ms pl by (simp add: material_tree_def)
  have **: "ms = [(''utc'', jstr (cm_UTC m')), (''seq'', jnat (unat (cm_Seq m'))), (''world_id'', jstr (cm_WorldID m'))]
      @ omit_str ''session_id'' (cm_SessionID m') @ omit_str ''policy_hash'' (cm_PolicyHash m')
      @ [(''kind'', jstr (cm_Kind m'))] @ pl' @ [(''prev_hash'', jstr (cm_PrevHash m'))]"
    using v(2) ms pl' \<open>v = v'\<close> by (simp add: material_tree_def)
  note l = material_lookup [OF pl *] and l' = material_lookup [OF pl' **]
  have "pl = pl'" using l(7) l'(7) by simp
  with pl pl' pay have "(p = [] \<longleftrightarrow> p' = []) \<and> (p \<noteq> [] \<longrightarrow> raw_tree p = raw_tree p')"
    using omit_raw_inject by metis
  then show ?thesis
    using l(1-6) l'(1-6) l(8) l'(8) u
    by (auto simp: utf8_material_def jstr_inject word_unat_eq_iff [symmetric] split: if_splits)
qed

section \<open>An event survives its line\<close>

text \<open>What is read back from an event's line: the same event, its payload in compact form.\<close>

definition norm_event :: "Event \<Rightarrow> Event" where
  "norm_event e = e\<lparr>ev_Payload := (case ev_Payload e of None \<Rightarrow> None
     | Some p \<Rightarrow> if p = [] then None else map_option render (raw_tree p))\<rparr>"

definition event_members :: "Event \<Rightarrow> members \<Rightarrow> members" where
  "event_members e pl =
     [(''utc'', jstr (ev_UTC e)), (''seq'', jnat (unat (ev_Seq e))), (''world_id'', jstr (ev_WorldID e))]
      @ omit_str ''session_id'' (ev_SessionID e) @ omit_str ''policy_hash'' (ev_PolicyHash e)
      @ [(''kind'', jstr (ev_Kind e))] @ pl
      @ [(''prev_hash'', jstr (ev_PrevHash e)), (''event_hash'', jstr (ev_EventHash e))]"

lemma event_tree_members: "event_tree e = map_option (\<lambda>pl. JObj (event_members e pl)) (omit_raw ''payload'' (ev_Payload e))"
  by (simp add: event_tree_def event_members_def)

lemma event_tree_wf: "event_tree e = Some v \<Longrightarrow> jwf v"
  by (auto simp: event_tree_def omit_raw_wf)

lemma event_tree_depth: "event_tree e = Some v \<Longrightarrow> shallow (ev_Payload e) \<Longrightarrow> jdepth v \<le> maxNestingDepth"
  unfolding event_tree_members event_members_def
  by (auto intro!: jdepth_JObj_le simp: omit_raw_low)

lemma event_members_keys:
  assumes "omit_raw ''payload'' p = Some pl"
  shows "\<forall>m\<in>set (event_members e pl). plain_key (fst m)" and "distinct (map fst (event_members e pl))"
  using omit_raw_keys [OF assms] assms
  by (auto simp: event_members_def omit_str_def omit_raw_def split: option.splits if_splits)

lemma event_lookup:
  assumes "omit_raw ''payload'' p = Some pl"
  shows "map_of (event_members e pl) ''utc'' = Some (jstr (ev_UTC e))"
    "map_of (event_members e pl) ''seq'' = Some (jnat (unat (ev_Seq e)))"
    "map_of (event_members e pl) ''world_id'' = Some (jstr (ev_WorldID e))"
    "map_of (event_members e pl) ''session_id'' = (if ev_SessionID e = [] then None else Some (jstr (ev_SessionID e)))"
    "map_of (event_members e pl) ''policy_hash'' = (if ev_PolicyHash e = [] then None else Some (jstr (ev_PolicyHash e)))"
    "map_of (event_members e pl) ''kind'' = Some (jstr (ev_Kind e))"
    "map_of (event_members e pl) ''payload'' = map_of pl ''payload''"
    "map_of (event_members e pl) ''prev_hash'' = Some (jstr (ev_PrevHash e))"
    "map_of (event_members e pl) ''event_hash'' = Some (jstr (ev_EventHash e))"
  using omit_raw_shape [OF assms]
  by (elim disjE exE; simp add: event_members_def map_of_omit_str map_add_def)+

lemma event_of_members:
  assumes pl: "omit_raw ''payload'' (ev_Payload e) = Some pl" and u: "utf8_event e"
  shows "event_of (event_members e pl) = (True, norm_event e)"
proof -
  note f = field_with_map_of [OF event_members_keys [OF pl, of e]]
  note lookup = event_lookup [OF pl, of e]
  have "field_str ''utc'' [] (event_members e pl) = (True, ev_UTC e)"
    using u by (intro f) (auto simp: lookup utf8_event_def)
  moreover have "field_u64 ''seq'' 0 (event_members e pl) = (True, ev_Seq e)"
    by (intro f) (auto simp: lookup)
  moreover have "field_str ''world_id'' [] (event_members e pl) = (True, ev_WorldID e)"
    using u by (intro f) (auto simp: lookup utf8_event_def)
  moreover have "field_str ''session_id'' [] (event_members e pl) = (True, ev_SessionID e)"
    using u by (intro f) (auto simp: lookup utf8_event_def split: if_splits)
  moreover have "field_str ''policy_hash'' [] (event_members e pl) = (True, ev_PolicyHash e)"
    using u by (intro f) (auto simp: lookup utf8_event_def split: if_splits)
  moreover have "field_str ''kind'' [] (event_members e pl) = (True, ev_Kind e)"
    using u by (intro f) (auto simp: lookup utf8_event_def)
  moreover have "field_raw ''payload'' None (event_members e pl) = (True, ev_Payload (norm_event e))"
    using pl by (intro f) (auto simp: lookup dec_raw_def norm_event_def omit_raw_def
        split: option.splits if_splits)
  moreover have "field_str ''prev_hash'' [] (event_members e pl) = (True, ev_PrevHash e)"
    using u by (intro f) (auto simp: lookup utf8_event_def)
  moreover have "field_str ''event_hash'' [] (event_members e pl) = (True, ev_EventHash e)"
    using u by (intro f) (auto simp: lookup utf8_event_def)
  ultimately show ?thesis by (simp add: event_of_def norm_event_def)
qed

lemma unmarshal_marshal_event:
  assumes l: "marshal_event e = Some l" and u: "utf8_event e" and sh: "shallow (ev_Payload e)"
  shows "unmarshal_event l = Some (norm_event e)"
proof -
  obtain pl where pl: "omit_raw ''payload'' (ev_Payload e) = Some pl"
    and l': "l = render (JObj (event_members e pl))"
    using l by (auto simp: marshal_event_def event_tree_members simp del: render_JObj)
  have tree: "event_tree e = Some (JObj (event_members e pl))" by (simp add: event_tree_members pl)
  have "parse_text l = Some (JObj (event_members e pl))"
    unfolding l' using event_tree_wf [OF tree] event_tree_depth [OF tree sh] by (rule parse_text_render)
  then show ?thesis
    using event_of_members [OF pl u] by (simp add: unmarshal_event_def as_members_def)
qed

lemma marshal_event_clean: "marshal_event e = Some l \<Longrightarrow> clean_bytes l"
  by (auto simp: marshal_event_def dest: event_tree_wf render_clean)

end
