(* ===== verification/Paths.thy ===== *)
theory Paths
  imports GoStrings
begin

text \<open>
  \<open>filepath.Join\<close> of a directory and plain elements (no separator, neither empty nor a dot
  element): the result is a prefix that depends on the directory only, followed by the elements. So
  joining is injective in the elements, and no element can climb out of the directory.
\<close>

abbreviation slash :: char where "slash \<equiv> CHR ''/''"

definition plain_elem :: "string \<Rightarrow> bool" where
  "plain_elem e \<longleftrightarrow> e \<noteq> [] \<and> e \<noteq> ''.'' \<and> e \<noteq> ''..'' \<and> slash \<notin> set e"

lemma join_with_Cons: "ys \<noteq> [] \<Longrightarrow> join_with sep (x # ys) = x @ sep @ join_with sep ys"
  by (cases ys) simp_all

lemma split_on_join: "es \<noteq> [] \<Longrightarrow> \<forall>e\<in>set es. slash \<notin> set e \<Longrightarrow> split_on slash (join_with ''/'' es) = es"
proof (induction es)
  case (Cons e es)
  then show ?case by (cases "es = []") (simp_all add: join_with_Cons split_on_no_sep split_on_append_sep)
qed simp

lemma clean_elems_plain: "\<forall>e\<in>set es. plain_elem e \<Longrightarrow> clean_elems r acc es = rev acc @ es"
  by (induction es arbitrary: acc) (auto simp: plain_elem_def)

lemma clean_elems_append:
  "\<exists>A. \<forall>es. (\<forall>e\<in>set es. plain_elem e) \<longrightarrow> clean_elems r acc (xs @ es) = A @ es"
proof (induction xs arbitrary: acc)
  case Nil
  then show ?case by (auto simp: clean_elems_plain)
next
  case (Cons x xs)
  have "\<exists>acc'. \<forall>es. clean_elems r acc ((x # xs) @ es) = clean_elems r acc' (xs @ es)"
    by (rule exI [of _ "if x = [] \<or> x = ''.'' then acc
          else if x = ''..'' then (case acc of [] \<Rightarrow> if r then [] else [''..'']
            | a # as \<Rightarrow> if a = ''..'' then ''..'' # acc else as)
          else x # acc"]) (simp split: list.split)
  then obtain acc' where "\<forall>es. clean_elems r acc ((x # xs) @ es) = clean_elems r acc' (xs @ es)" by blast
  with Cons.IH [of acc'] show ?case by simp
qed

lemma join_with_append:
  "ys \<noteq> [] \<Longrightarrow> join_with sep (xs @ ys) = (if xs = [] then [] else join_with sep xs @ sep) @ join_with sep ys"
proof (induction xs)
  case (Cons x xs)
  then show ?case by (cases "xs = []") (simp_all add: join_with_Cons)
qed simp

lemma join_with_nonempty: "es \<noteq> [] \<Longrightarrow> \<forall>e\<in>set es. e \<noteq> [] \<Longrightarrow> join_with sep es \<noteq> []"
  by (cases es; cases "tl es") auto

lemma path_join_prefix:
  "\<exists>P. \<forall>es. es \<noteq> [] \<longrightarrow> (\<forall>e\<in>set es. plain_elem e) \<longrightarrow> path_join (root # es) = P @ join_with ''/'' es"
proof (cases "root = []")
  case True
  have "path_join (root # es) = join_with ''/'' es" if es: "es \<noteq> []" "\<forall>e\<in>set es. plain_elem e" for es
  proof -
    have "dropWhile (\<lambda>e. e = []) es = es" using es by (cases es) (auto simp: plain_elem_def)
    moreover have "split_on slash (join_with ''/'' es) = es"
      using es by (intro split_on_join) (auto simp: plain_elem_def)
    moreover have ne: "join_with ''/'' es \<noteq> []" using es by (intro join_with_nonempty) (auto simp: plain_elem_def)
    moreover have "hd (join_with ''/'' es) \<noteq> slash"
    proof -
      obtain x xs where x: "es = x # xs" using es by (cases es) auto
      then have "x \<noteq> []" and "slash \<notin> set x" using es by (auto simp: plain_elem_def)
      then have "x \<noteq> []" "hd x \<noteq> slash" by (cases x; auto)+
      then show ?thesis using x by (cases xs) auto
    qed
    ultimately show ?thesis
      using True es by (cases "join_with ''/'' es") (auto simp: path_join_def clean_path_def clean_elems_plain Let_def)
  qed
  then show ?thesis by (intro exI [of _ "[]"]) simp
next
  case False
  then obtain c cs where root: "root = c # cs" by (cases root) auto
  obtain A where A: "\<forall>es. (\<forall>e\<in>set es. plain_elem e) \<longrightarrow>
      clean_elems (c = slash) [] (split_on slash root @ es) = A @ es"
    using clean_elems_append by blast
  define P where "P = (if c = slash then [slash] else []) @ (if A = [] then [] else join_with ''/'' A @ ''/'')"
  have "path_join (root # es) = P @ join_with ''/'' es" if es: "es \<noteq> []" "\<forall>e\<in>set es. plain_elem e" for es
  proof -
    let ?p = "root @ slash # join_with ''/'' es"
    have "path_join (root # es) = clean_path ?p"
      using es False by (simp add: path_join_def join_with_Cons Let_def)
    moreover have "(case ?p of c # _ \<Rightarrow> c = slash | [] \<Rightarrow> False) = (c = slash)" by (simp add: root)
    moreover have "split_on slash ?p = split_on slash root @ es"
      using es by (simp only: split_on_append_sep) (simp add: split_on_join plain_elem_def)
    moreover have "clean_elems (c = slash) [] (split_on slash root @ es) = A @ es" using A es by blast
    moreover have "join_with ''/'' es \<noteq> []" using es by (intro join_with_nonempty) (auto simp: plain_elem_def)
    ultimately show ?thesis
      using es by (cases "c = slash") (simp_all add: clean_path_def Let_def P_def join_with_append)
  qed
  then show ?thesis by blast
qed

lemma path_join_plain_nonempty: "es \<noteq> [] \<Longrightarrow> \<forall>e\<in>set es. plain_elem e \<Longrightarrow> path_join (j # es) \<noteq> []"
  using path_join_prefix [of j] join_with_nonempty [of es "''/''"] by (fastforce simp: plain_elem_def)

lemma path_join_inject:
  assumes "plain_elem d" and "plain_elem x" and "plain_elem y"
  shows "path_join [root, d, x] = path_join [root, d, y] \<longleftrightarrow> x = y"
proof -
  obtain P where P: "\<forall>es. es \<noteq> [] \<longrightarrow> (\<forall>e\<in>set es. plain_elem e) \<longrightarrow> path_join (root # es) = P @ join_with ''/'' es"
    using path_join_prefix by blast
  show ?thesis using spec [OF P, of "[d, x]"] spec [OF P, of "[d, y]"] assms by simp
qed

lemma path_join_differ:
  assumes "plain_elem d" and "plain_elem x" and "plain_elem g" and "hd g \<noteq> hd d"
  shows "path_join [root, g] \<noteq> path_join [root, d, x]"
proof -
  obtain P where P: "\<forall>es. es \<noteq> [] \<longrightarrow> (\<forall>e\<in>set es. plain_elem e) \<longrightarrow> path_join (root # es) = P @ join_with ''/'' es"
    using path_join_prefix by blast
  have "d \<noteq> []" "g \<noteq> []" using assms by (auto simp: plain_elem_def)
  then show ?thesis
    using spec [OF P, of "[g]"] spec [OF P, of "[d, x]"] assms by (cases g; cases d) auto
qed

end
