(* ===== verification/DeskStore.thy ===== *)
theory DeskStore
  imports DeskEvent Paths
begin

text \<open>
  \<open>desk/store.go\<close>: the append-only store. The disk is a map from paths to contents. A system call
  that may fail takes its outcome as an argument, so that every error branch is reachable in the
  model; the mutex makes each operation one step.
\<close>

type_synonym disk = "string \<rightharpoonup> string"

definition contents :: "disk \<Rightarrow> string \<Rightarrow> string" where
  "contents d p = (case d p of None \<Rightarrow> [] | Some s \<Rightarrow> s)"

record Store =
  st_root :: string
  st_seq :: u64
  st_tip :: "string \<rightharpoonup> string"

text \<open>The limit given to the line scanner.\<close>

definition maxLine :: nat where
  "maxLine = 4 * 1024 * 1024"

definition globalPath :: "string \<Rightarrow> string" where
  "globalPath root = path_join [root, ''global.jsonl'']"

definition id_char :: "char \<Rightarrow> bool" where
  "id_char c \<longleftrightarrow> 97 \<le> byte c \<and> byte c \<le> 122 \<or> 65 \<le> byte c \<and> byte c \<le> 90 \<or> is_digit c
     \<or> c = CHR ''-'' \<or> c = CHR ''_'' \<or> c = CHR ''.''"

text \<open>The loop visits runes: a rune that is no safe character, of whatever length, becomes one underscore.\<close>

definition safe_rune :: "string \<Rightarrow> char" where
  "safe_rune r = (case r of [c] \<Rightarrow> if id_char c then c else CHR ''_'' | _ \<Rightarrow> CHR ''_'')"

definition sanitizeID :: "string \<Rightarrow> string" where
  "sanitizeID i = (let out = map (\<lambda>(r, v). safe_rune r) (runes i) in if out = [] then ''_empty'' else out)"

definition worldPath :: "string \<Rightarrow> string \<Rightarrow> string" where
  "worldPath root w = path_join [root, ''worlds'', sanitizeID w @ ''.jsonl'']"

section \<open>Errors\<close>

datatype desk_error = WorldIDRequired | KindRequired | MarshalError | SysError string | ShortWrite
  | WorldAppend desk_error | ReplayError | UnmarshalError | ForeignWorld | TooLong

section \<open>Files\<close>

text \<open>
  What the kernel may do to an append: refuse to open, fail after some bytes, accept fewer bytes,
  fail to sync once all bytes are written, or succeed.
\<close>

datatype append_io = AppendOK | OpenFail string | WriteFail nat string | WriteShort nat | SyncFail string

definition appendFile :: "append_io \<Rightarrow> string \<Rightarrow> string \<Rightarrow> disk \<Rightarrow> (desk_error option \<times> disk)" where
  "appendFile io path line d =
     (let put = (\<lambda>n. d(path \<mapsto> contents d path @ take n line)) in
      case io of OpenFail e \<Rightarrow> (Some (SysError e), d)
      | WriteFail n e \<Rightarrow> (Some (SysError e), put n)
      | WriteShort n \<Rightarrow> if n < length line then (Some ShortWrite, put n) else (None, put n)
      | SyncFail e \<Rightarrow> (Some (SysError e), put (length line))
      | AppendOK \<Rightarrow> (None, put (length line)))"

section \<open>Opening the store\<close>

fun replay_lines :: "string list \<Rightarrow> u64 \<times> (string \<rightharpoonup> string) \<Rightarrow> (desk_error, u64 \<times> (string \<rightharpoonup> string)) result" where
  "replay_lines [] s = Inr s"
| "replay_lines (l # ls) s =
     (if l = [] then replay_lines ls s
      else case unmarshal_event l of None \<Rightarrow> Inl ReplayError
        | Some ev \<Rightarrow> replay_lines ls
            (if fst s < ev_Seq ev then ev_Seq ev else fst s, (snd s)(ev_WorldID ev \<mapsto> ev_EventHash ev)))"

text \<open>
  Reading a file by lines. A read that fails after \<open>n\<close> bytes still hands out the lines of those
  bytes, the last one cut short; the scanner reports the failure, or a line over the limit, at the end.
  A missing file is \<open>Inr None\<close>.
\<close>

datatype read_io = ReadOK | OpenErr string | ReadErr nat string

definition open_scan :: "read_io \<Rightarrow> string \<Rightarrow> disk \<Rightarrow> (desk_error, (string list \<times> desk_error option) option) result" where
  "open_scan io p d =
     (case io of OpenErr e \<Rightarrow> Inl (SysError e)
      | _ \<Rightarrow> (case d p of None \<Rightarrow> Inr None
        | Some txt \<Rightarrow>
            let (ls, tooLong) = scan_lines maxLine (case io of ReadErr n e \<Rightarrow> take n txt | _ \<Rightarrow> txt) in
            Inr (Some (ls, if tooLong then Some TooLong
                           else case io of ReadErr n e \<Rightarrow> Some (SysError e) | _ \<Rightarrow> None))))"

definition replay :: "read_io \<Rightarrow> disk \<Rightarrow> Store \<Rightarrow> (desk_error, Store) result" where
  "replay io d s =
     (case open_scan io (globalPath (st_root s)) d of Inl e \<Rightarrow> Inl e
      | Inr None \<Rightarrow> Inr s
      | Inr (Some (ls, err)) \<Rightarrow>
          (case replay_lines ls (st_seq s, st_tip s) of Inl e \<Rightarrow> Inl e
           | Inr (q, t) \<Rightarrow> (case err of Some e \<Rightarrow> Inl e | None \<Rightarrow> Inr (s\<lparr>st_seq := q, st_tip := t\<rparr>))))"

text \<open>\<open>mk1\<close> and \<open>mk2\<close> are the errors of the two \<open>MkdirAll\<close> calls, if any.\<close>

definition NewStore :: "string option \<Rightarrow> string option \<Rightarrow> read_io \<Rightarrow> string \<Rightarrow> disk \<Rightarrow> (desk_error, Store) result" where
  "NewStore mk1 mk2 io root d =
     (case mk1 of Some e \<Rightarrow> Inl (SysError e)
      | None \<Rightarrow> (case mk2 of Some e \<Rightarrow> Inl (SysError e)
        | None \<Rightarrow> replay io d \<lparr>st_root = root, st_seq = 0, st_tip = Map.empty\<rparr>))"

section \<open>Committing\<close>

text \<open>\<open>now\<close> is \<open>nowUTC()\<close>; \<open>io1\<close> and \<open>io2\<close> are the outcomes of the two appends.\<close>

definition Commit :: "(string \<Rightarrow> string) \<Rightarrow> string \<Rightarrow> append_io \<Rightarrow> append_io \<Rightarrow> IngestRequest
    \<Rightarrow> Store \<times> disk \<Rightarrow> (desk_error, Event) result \<times> Store \<times> disk" where
  "Commit sha now io1 io2 req sd =
     (let s = fst sd; d = snd sd in
      if rq_WorldID req = [] then (Inl WorldIDRequired, s, d)
      else if rq_Kind req = [] then (Inl KindRequired, s, d)
      else
        let utc = (if rq_UTC req = [] then now else rq_UTC req);
            tip = (case st_tip s (rq_WorldID req) of None \<Rightarrow> [] | Some h \<Rightarrow> h);
            prev = (if tip = [] then GenesisPrev else tip);
            seq = st_seq s + 1;
            s1 = s\<lparr>st_seq := seq\<rparr>;
            payload = (case rq_Payload req of None \<Rightarrow> Some ''null'' | Some p \<Rightarrow> Some p)
        in case hashEvent sha utc seq (rq_WorldID req) (rq_SessionID req) (rq_PolicyHash req) (rq_Kind req) payload prev of
             None \<Rightarrow> (Inl MarshalError, s1\<lparr>st_seq := st_seq s1 - 1\<rparr>, d)
           | Some h \<Rightarrow>
               let ev = \<lparr>ev_UTC = utc, ev_Seq = seq, ev_WorldID = rq_WorldID req, ev_SessionID = rq_SessionID req,
                         ev_PolicyHash = rq_PolicyHash req, ev_Kind = rq_Kind req, ev_Payload = payload,
                         ev_PrevHash = prev, ev_EventHash = h\<rparr>
               in case marshal_event ev of
                    None \<Rightarrow> (Inl MarshalError, s1\<lparr>st_seq := st_seq s1 - 1\<rparr>, d)
                  | Some line0 \<Rightarrow>
                      let line = line0 @ [nl] in
                      case appendFile io1 (globalPath (st_root s)) line d of
                        (Some e, d1) \<Rightarrow> (Inl e, s1\<lparr>st_seq := st_seq s1 - 1\<rparr>, d1)
                      | (None, d1) \<Rightarrow>
                          (case appendFile io2 (worldPath (st_root s) (rq_WorldID req)) line d1 of
                             (Some e, d2) \<Rightarrow> (Inl (WorldAppend e), s1, d2)
                           | (None, d2) \<Rightarrow> (Inr ev, s1\<lparr>st_tip := (st_tip s1)(rq_WorldID req \<mapsto> h)\<rparr>, d2)))"

section \<open>Listing\<close>

fun list_lines :: "string \<Rightarrow> u64 \<Rightarrow> string list \<Rightarrow> (desk_error, Event list) result" where
  "list_lines w cursor [] = Inr []"
| "list_lines w cursor (l # ls) =
     (if l = [] then list_lines w cursor ls
      else case unmarshal_event l of None \<Rightarrow> Inl UnmarshalError
        | Some ev \<Rightarrow>
            if ev_WorldID ev \<noteq> w then Inl ForeignWorld
            else (case list_lines w cursor ls of Inl e \<Rightarrow> Inl e
              | Inr out \<Rightarrow> Inr (if cursor < ev_Seq ev then ev # out else out)))"

text \<open>
  The result is a slice: \<open>None\<close> is the nil slice, which \<open>out\<close> still is when nothing was appended to
  it; a world without a file gets an empty slice that is not nil.
\<close>

type_synonym 'a slice = "'a list option"

definition items :: "'a slice \<Rightarrow> 'a list" where
  "items sl = (case sl of None \<Rightarrow> [] | Some xs \<Rightarrow> xs)"

lemma items_simps [simp]: "items None = []" "items (Some xs) = xs"
  by (simp_all add: items_def)

definition ListWorld :: "read_io \<Rightarrow> string \<Rightarrow> u64 \<Rightarrow> Store \<times> disk \<Rightarrow> (desk_error, Event slice) result" where
  "ListWorld io w cursor sd =
     (if w = [] then Inl WorldIDRequired
      else case open_scan io (worldPath (st_root (fst sd)) w) (snd sd) of Inl e \<Rightarrow> Inl e
      | Inr None \<Rightarrow> Inr (Some [])
      | Inr (Some (ls, err)) \<Rightarrow>
          (case list_lines w cursor ls of Inl e \<Rightarrow> Inl e
           | Inr out \<Rightarrow> (case err of Some e \<Rightarrow> Inl e | None \<Rightarrow> Inr (if out = [] then None else Some out))))"

definition LoadWorldChain :: "read_io \<Rightarrow> string \<Rightarrow> Store \<times> disk \<Rightarrow> (desk_error, Event slice) result" where
  "LoadWorldChain io w sd = ListWorld io w 0 sd"

lemmas [desk_defs] = NewStore_def replay_def Commit_def ListWorld_def LoadWorldChain_def appendFile_def

end
