(* ===== verification/JsonSize.thy ===== *)
theory JsonSize
  imports JsonDecode
begin

text \<open>Bounds on the length of what the encoder writes.\<close>

lemma length_u_escape [simp]: "length (u_escape n) = 6"
  by (simp add: u_escape_def)

lemma length_esc_rune: "r \<noteq> [] \<Longrightarrow> length (esc_rune (r, v)) \<le> 6 * length r"
  by (cases r) (auto simp: esc_ascii_def split: list.splits)

lemma runes_nonempty: "x \<in> set (runes s) \<Longrightarrow> fst x \<noteq> []"
proof (induction s rule: runes.induct)
  case (2 c cs)
  then show ?case by (auto simp: runes.simps(2) Let_def)
qed simp

text \<open>Escaping makes a string at most six times as long.\<close>

lemma length_quote: "length (quote s) \<le> 6 * length s"
proof -
  have "length (concat (map esc_rune rs)) \<le> 6 * length (concat (map fst rs))" if "\<forall>x\<in>set rs. fst x \<noteq> []" for rs
    using that
  proof (induction rs)
    case (Cons x rs)
    obtain r v where x: "x = (r, v)" by (cases x)
    with Cons length_esc_rune [of r v] show ?case by (simp del: esc_rune.simps)
  qed simp
  from this [of "runes s"] show ?thesis by (simp add: quote_def concat_runes runes_nonempty)
qed

lemma length_render_jstr: "length (render (jstr s)) \<le> 6 * length s + 2"
  using length_quote [of s] by (simp add: jstr_def str_lit_def)

lemma length_show_nat: "n < 10 ^ Suc k \<Longrightarrow> length (show_nat n) \<le> Suc k"
proof (induction k arbitrary: n)
  case 0
  then show ?case by (subst show_nat.simps) simp
next
  case (Suc k)
  then have "n div 10 < 10 ^ Suc k" by simp
  from Suc.IH [OF this] show ?case by (subst show_nat.simps) simp
qed

lemma length_jnat_u64: "length (render (jnat (unat (q :: u64)))) \<le> 20"
proof -
  have "unat q < 2 ^ 64" by (rule order.strict_trans2 [OF unsigned_less]) simp
  also have "(2 :: nat) ^ 64 < 10 ^ Suc 19" by simp
  finally show ?thesis using length_show_nat [of "unat q" 19] by (simp add: jnat_def)
qed

lemma length_commas: "length (commas xs) \<le> sum_list (map (\<lambda>x. Suc (length x)) xs)"
  by (induction xs rule: commas.induct) simp_all

lemma length_member: "length (member_text m) = length (fst m) + 3 + length (render (snd m))"
  by (cases m) (simp add: member_text_def str_lit_def)

lemma length_render_JObj:
  "length (render (JObj ms)) \<le> 2 + sum_list (map (\<lambda>m. length (fst m) + 4 + length (render (snd m))) ms)"
  using length_commas [of "map member_text ms"]
  by (simp add: render_JObj o_def length_member ac_simps)

lemma length_omit_str:
  "sum_list (map (\<lambda>m. length (fst m) + 4 + length (render (snd m))) (omit_str k s)) \<le> length k + 6 + 6 * length s"
  using length_render_jstr [of s] by (simp add: omit_str_def)

end
