(* ===== verification/DeskLog.thy ===== *)
theory DeskLog
  imports DeskStore JsonSize
begin

text \<open>
  The store as a log. \<open>desk_inv sha s d log\<close> says that the in-memory state and the files are the
  concrete form of a list of events: the global file holds the lines of all of them in order, each
  world file those whose sanitized identifier is the file's, the tips and the sequence counter are
  those of the list, and the events of each world form a hash chain. \<open>Commit\<close> appends one event to
  the log, \<open>ListWorld\<close> reads one world of it, and opening the store again finds the same state.
\<close>

section \<open>Paths\<close>

lemma safe_rune_char: "safe_rune r = CHR ''_'' \<or> (\<exists>c. r = [c] \<and> id_char c \<and> safe_rune r = c)"
  by (auto simp: safe_rune_def split: list.splits)

lemma id_char_safe_rune: "id_char (safe_rune r)"
  using safe_rune_char [of r] by (auto simp: id_char_def)

lemma sanitizeID_chars: "c \<in> set (sanitizeID i) \<Longrightarrow> id_char c"
  by (auto simp: sanitizeID_def Let_def id_char_safe_rune id_char_def [of "CHR ''e''"] id_char_def [of "CHR ''m''"]
      id_char_def [of "CHR ''p''"] id_char_def [of "CHR ''t''"] id_char_def [of "CHR ''y''"]
      id_char_def [of "CHR ''_''"] split: if_splits)

lemma sanitizeID_nonempty: "sanitizeID i \<noteq> []"
  by (simp add: sanitizeID_def Let_def)

lemma id_char_no_slash: "id_char c \<Longrightarrow> c \<noteq> slash"
  by (auto simp: id_char_def is_digit_def)

lemma world_file_plain: "plain_elem (sanitizeID w @ ''.jsonl'')"
proof -
  have "length (sanitizeID w @ ''.jsonl'') > 2" by simp
  then have "sanitizeID w @ ''.jsonl'' \<noteq> ''.''" "sanitizeID w @ ''.jsonl'' \<noteq> ''..''"
    by (metis less_numeral_extra(3) list.size(3) length_Cons One_nat_def numeral_2_eq_2 not_less_iff_gr_or_eq Suc_1 less_Suc_eq)+
  moreover have "slash \<notin> set (sanitizeID w)" using sanitizeID_chars id_char_no_slash by blast
  ultimately show ?thesis by (simp add: plain_elem_def)
qed

lemma worldPath_inject: "worldPath root v = worldPath root w \<longleftrightarrow> sanitizeID v = sanitizeID w"
proof -
  have "plain_elem ''worlds''" by (simp add: plain_elem_def)
  from path_join_inject [OF this world_file_plain world_file_plain] show ?thesis
    by (simp add: worldPath_def)
qed

lemma globalPath_not_world [simp]: "globalPath root \<noteq> worldPath root w"
  unfolding globalPath_def worldPath_def
  by (rule path_join_differ [OF _ world_file_plain]) (simp_all add: plain_elem_def)

section \<open>Files of events\<close>

definition event_line :: "Event \<Rightarrow> string" where
  "event_line e = (case marshal_event e of None \<Rightarrow> [] | Some l \<Rightarrow> l)"

definition storable :: "Event \<Rightarrow> bool" where
  "storable e \<longleftrightarrow> unmarshal_event (event_line e) = Some e \<and> clean_bytes (event_line e)
     \<and> event_line e \<noteq> [] \<and> length (event_line e) < maxLine"

definition file_of :: "Event list \<Rightarrow> string" where
  "file_of es = concat (map (\<lambda>e. event_line e @ [nl]) es)"

lemma file_of_simps [simp]:
  "file_of [] = []" "file_of (e # es) = event_line e @ nl # file_of es"
  "file_of (xs @ ys) = file_of xs @ file_of ys"
  by (simp_all add: file_of_def)

lemma scan_file:
  "\<forall>e\<in>set es. storable e \<Longrightarrow> scan_lines maxLine (file_of es) = (map event_line es, False)"
proof (induction es)
  case (Cons e es)
  then have "nl \<notin> set (event_line e)" "length (event_line e) < maxLine" "drop_cr (event_line e) = event_line e"
    by (auto simp: storable_def clean_bytes_nl clean_bytes_drop_cr)
  with Cons show ?case by (simp add: scan_lines_cons)
qed simp

text \<open>The state a log determines.\<close>

definition log_tip :: "Event list \<Rightarrow> string \<rightharpoonup> string" where
  "log_tip es = foldl (\<lambda>t e. t(ev_WorldID e \<mapsto> ev_EventHash e)) Map.empty es"

definition log_seq :: "Event list \<Rightarrow> u64" where
  "log_seq es = foldl (\<lambda>q e. if q < ev_Seq e then ev_Seq e else q) 0 es"

definition world_log :: "string \<Rightarrow> Event list \<Rightarrow> Event list" where
  "world_log w es = filter (\<lambda>e. ev_WorldID e = w) es"

lemma replay_lines_file:
  "\<forall>e\<in>set es. storable e \<Longrightarrow> replay_lines (map event_line es) s =
     Inr (foldl (\<lambda>q e. if q < ev_Seq e then ev_Seq e else q) (fst s) es,
          foldl (\<lambda>t e. t(ev_WorldID e \<mapsto> ev_EventHash e)) (snd s) es)"
  by (induction es arbitrary: s) (auto simp: storable_def)

lemma list_lines_file:
  "\<forall>e\<in>set es. storable e \<and> ev_WorldID e = w \<Longrightarrow>
     list_lines w cursor (map event_line es) = Inr (filter (\<lambda>e. cursor < ev_Seq e) es)"
  by (induction es) (auto simp: storable_def)

lemma log_tip_snoc: "log_tip (es @ [e]) = (log_tip es)(ev_WorldID e \<mapsto> ev_EventHash e)"
  by (simp add: log_tip_def)

lemma world_log_snoc:
  "world_log w (es @ [e]) = world_log w es @ (if ev_WorldID e = w then [e] else [])"
  by (simp add: world_log_def)

lemma log_tip_world: "log_tip es w = (if world_log w es = [] then None else Some (ev_EventHash (last (world_log w es))))"
proof (induction es rule: rev_induct)
  case Nil
  then show ?case by (simp add: log_tip_def world_log_def)
next
  case (snoc e es)
  then show ?case by (auto simp: log_tip_snoc world_log_snoc)
qed

lemma tip_of_last: "es \<noteq> [] \<Longrightarrow> tip_of prev es = ev_EventHash (last es)"
  by (induction es arbitrary: prev) auto

section \<open>What a commit builds\<close>

text \<open>The previous hash a commit for a world links to.\<close>

definition prev_hash :: "Store \<Rightarrow> string \<Rightarrow> string" where
  "prev_hash s w = (case st_tip s w of None \<Rightarrow> GenesisPrev | Some h \<Rightarrow> if h = [] then GenesisPrev else h)"

text \<open>The event of a request, before its hash is known and with it.\<close>

definition draft_event :: "string \<Rightarrow> Store \<Rightarrow> IngestRequest \<Rightarrow> string \<Rightarrow> Event" where
  "draft_event now s req h = \<lparr>ev_UTC = (if rq_UTC req = [] then now else rq_UTC req), ev_Seq = st_seq s + 1,
     ev_WorldID = rq_WorldID req, ev_SessionID = rq_SessionID req, ev_PolicyHash = rq_PolicyHash req,
     ev_Kind = rq_Kind req, ev_Payload = Some (case rq_Payload req of None \<Rightarrow> ''null'' | Some p \<Rightarrow> p),
     ev_PrevHash = prev_hash s (rq_WorldID req), ev_EventHash = h\<rparr>"

lemma draft_event_simps [simp]:
  "ev_Seq (draft_event now s req h) = st_seq s + 1" "ev_WorldID (draft_event now s req h) = rq_WorldID req"
  "ev_Kind (draft_event now s req h) = rq_Kind req" "ev_EventHash (draft_event now s req h) = h"
  "ev_PrevHash (draft_event now s req h) = prev_hash s (rq_WorldID req)"
  "ev_Payload (draft_event now s req h) = Some (case rq_Payload req of None \<Rightarrow> ''null'' | Some p \<Rightarrow> p)"
  by (simp_all add: draft_event_def)

definition new_event :: "(string \<Rightarrow> string) \<Rightarrow> string \<Rightarrow> Store \<Rightarrow> IngestRequest \<Rightarrow> Event option" where
  "new_event sha now s req =
     (case event_hash_of sha (draft_event now s req []) of None \<Rightarrow> None
      | Some h \<Rightarrow> (case marshal_event (draft_event now s req h) of None \<Rightarrow> None
        | Some l \<Rightarrow> Some (draft_event now s req h)))"

definition commit_state :: "Store \<Rightarrow> Event \<Rightarrow> Store" where
  "commit_state s e = s\<lparr>st_seq := ev_Seq e, st_tip := (st_tip s)(ev_WorldID e \<mapsto> ev_EventHash e)\<rparr>"

definition append_line :: "string \<Rightarrow> Event \<Rightarrow> disk \<Rightarrow> disk" where
  "append_line p e d = d(p \<mapsto> contents d p @ event_line e @ [nl])"

lemma new_event_SomeD:
  assumes "new_event sha now s req = Some ev"
  shows "ev = draft_event now s req (ev_EventHash ev)" and "event_hash_of sha ev = Some (ev_EventHash ev)"
    and "marshal_event ev = Some (event_line ev)"
proof -
  obtain h l where h: "event_hash_of sha (draft_event now s req []) = Some h" and ev: "ev = draft_event now s req h"
    and l: "marshal_event ev = Some l"
    using assms by (auto simp: new_event_def split: option.splits)
  then show "ev = draft_event now s req (ev_EventHash ev)" by (simp add: draft_event_def)
  show "event_hash_of sha ev = Some (ev_EventHash ev)"
    using h ev by (simp add: event_hash_of_def draft_event_def)
  show "marshal_event ev = Some (event_line ev)" using l by (simp add: event_line_def)
qed

text \<open>
  \<open>Commit\<close> in these terms, for every pair of outcomes: the branches that fail before the global
  append leave everything as it was.
\<close>

lemma Commit_unfold:
  "Commit sha now io1 io2 req (s, d) =
     (if rq_WorldID req = [] then (Inl WorldIDRequired, s, d)
      else if rq_Kind req = [] then (Inl KindRequired, s, d)
      else case new_event sha now s req of None \<Rightarrow> (Inl MarshalError, s, d)
        | Some ev \<Rightarrow>
            (case appendFile io1 (globalPath (st_root s)) (event_line ev @ [nl]) d of
               (Some e, d1) \<Rightarrow> (Inl e, s, d1)
             | (None, d1) \<Rightarrow>
                 (case appendFile io2 (worldPath (st_root s) (rq_WorldID req)) (event_line ev @ [nl]) d1 of
                    (Some e, d2) \<Rightarrow> (Inl (WorldAppend e), s\<lparr>st_seq := ev_Seq ev\<rparr>, d2)
                  | (None, d2) \<Rightarrow> (Inr ev, commit_state s ev, d2))))"
proof (cases "rq_WorldID req = [] \<or> rq_Kind req = []")
  case True
  then show ?thesis by (auto simp: Commit_def)
next
  case False
  have prev: "(if (case st_tip s w of None \<Rightarrow> [] | Some h \<Rightarrow> h) = [] then GenesisPrev
      else (case st_tip s w of None \<Rightarrow> [] | Some h \<Rightarrow> h)) = prev_hash s w" for w
    by (simp add: prev_hash_def split: option.split)
  have pay: "(case rq_Payload req of None \<Rightarrow> Some ''null'' | Some p \<Rightarrow> Some p)
      = Some (case rq_Payload req of None \<Rightarrow> ''null'' | Some p \<Rightarrow> p)"
    by (simp split: option.split)
  note commit = Commit_def Let_def fst_conv snd_conv prev pay
  have hash: "event_hash_of sha (draft_event now s req []) =
      hashEvent sha (if rq_UTC req = [] then now else rq_UTC req) (st_seq s + 1) (rq_WorldID req) (rq_SessionID req)
        (rq_PolicyHash req) (rq_Kind req) (Some (case rq_Payload req of None \<Rightarrow> ''null'' | Some p \<Rightarrow> p))
        (prev_hash s (rq_WorldID req))"
    by (simp add: event_hash_of_def draft_event_def)
  have "Commit sha now io1 io2 req (s, d) =
     (case event_hash_of sha (draft_event now s req []) of None \<Rightarrow> (Inl MarshalError, s, d)
      | Some h \<Rightarrow> (case marshal_event (draft_event now s req h) of None \<Rightarrow> (Inl MarshalError, s, d)
        | Some l \<Rightarrow>
            (case appendFile io1 (globalPath (st_root s)) (l @ [nl]) d of
               (Some e, d1) \<Rightarrow> (Inl e, s, d1)
             | (None, d1) \<Rightarrow>
                 (case appendFile io2 (worldPath (st_root s) (rq_WorldID req)) (l @ [nl]) d1 of
                    (Some e, d2) \<Rightarrow> (Inl (WorldAppend e), s\<lparr>st_seq := st_seq s + 1\<rparr>, d2)
                  | (None, d2) \<Rightarrow> (Inr (draft_event now s req h), commit_state s (draft_event now s req h), d2)))))"
    unfolding hash unfolding commit draft_event_def commit_state_def
    using False by (simp split del: if_split cong: option.case_cong)
  then show ?thesis
    using False by (simp add: new_event_def event_line_def split: option.split prod.split)
qed

lemma appendFile_OK: "appendFile AppendOK p l d = (None, d(p \<mapsto> contents d p @ l))"
  by (simp add: appendFile_def Let_def)

lemma Commit_OK:
  "Commit sha now AppendOK AppendOK req (s, d) = (Inr ev, s', d') \<longleftrightarrow>
     rq_WorldID req \<noteq> [] \<and> rq_Kind req \<noteq> [] \<and> new_event sha now s req = Some ev \<and> s' = commit_state s ev
     \<and> d' = append_line (worldPath (st_root s) (rq_WorldID req)) ev (append_line (globalPath (st_root s)) ev d)"
  by (auto simp: Commit_unfold appendFile_OK append_line_def split: option.splits)

section \<open>The invariant\<close>

definition world_file :: "string \<Rightarrow> string \<Rightarrow> Event list \<Rightarrow> Event list" where
  "world_file root w es = filter (\<lambda>e. worldPath root (ev_WorldID e) = worldPath root w) es"

definition desk_inv :: "(string \<Rightarrow> string) \<Rightarrow> Store \<Rightarrow> disk \<Rightarrow> Event list \<Rightarrow> bool" where
  "desk_inv sha s d log \<longleftrightarrow>
     (\<forall>e\<in>set log. storable e \<and> 0 < ev_Seq e \<and> ev_Seq e \<le> st_seq s)
   \<and> contents d (globalPath (st_root s)) = file_of log
   \<and> (\<forall>w. contents d (worldPath (st_root s) w) = file_of (world_file (st_root s) w log))
   \<and> st_tip s = log_tip log \<and> st_seq s = log_seq log
   \<and> sorted_wrt (<) (map ev_Seq log)
   \<and> (\<forall>w. linked sha GenesisPrev (world_log w log))"

text \<open>The documented size of a SHA-256 sum.\<close>

definition sum32 :: "(string \<Rightarrow> string) \<Rightarrow> bool" where
  "sum32 sha \<longleftrightarrow> (\<forall>b. length (sha b) = 32)"

text \<open>
  Requests whose record reads back: strings that are UTF-8 (which every decoded JSON string is),
  a payload that is not the empty non-nil message and leaves room under the nesting bound, and a
  line the scanner accepts.
\<close>

definition request_ok :: "IngestRequest \<Rightarrow> bool" where
  "request_ok req \<longleftrightarrow> valid_utf8 (rq_WorldID req) \<and> valid_utf8 (rq_SessionID req) \<and> valid_utf8 (rq_PolicyHash req)
     \<and> valid_utf8 (rq_Kind req) \<and> valid_utf8 (rq_UTC req) \<and> rq_Payload req \<noteq> Some [] \<and> shallow (rq_Payload req)"

lemma desk_inv_empty:
  assumes "contents d (globalPath root) = []" and "\<forall>w. contents d (worldPath root w) = []"
  shows "desk_inv sha \<lparr>st_root = root, st_seq = 0, st_tip = Map.empty\<rparr> d []"
  using assms by (simp add: desk_inv_def world_file_def log_tip_def log_seq_def world_log_def)

lemma norm_event_simps [simp]:
  "ev_UTC (norm_event e) = ev_UTC e" "ev_Seq (norm_event e) = ev_Seq e" "ev_WorldID (norm_event e) = ev_WorldID e"
  "ev_Kind (norm_event e) = ev_Kind e" "ev_SessionID (norm_event e) = ev_SessionID e"
  "ev_PolicyHash (norm_event e) = ev_PolicyHash e"
  "ev_PrevHash (norm_event e) = ev_PrevHash e" "ev_EventHash (norm_event e) = ev_EventHash e"
  by (simp_all add: norm_event_def)

text \<open>How long a line can be, in terms of the strings of the event and of its payload as written.\<close>

definition payload_size :: "string option \<Rightarrow> nat" where
  "payload_size p = (case p of None \<Rightarrow> 0 | Some t \<Rightarrow> (case raw_tree t of None \<Rightarrow> 0 | Some v \<Rightarrow> length (render v)))"

lemma length_omit_raw:
  "omit_raw k p = Some pl \<Longrightarrow>
     sum_list (map (\<lambda>m. length (fst m) + 4 + length (render (snd m))) pl) \<le> length k + 4 + payload_size p"
  by (auto simp: omit_raw_def payload_size_def split: option.splits if_splits)

lemma event_line_length:
  "length (event_line e) \<le> 6 * (length (ev_UTC e) + length (ev_WorldID e) + length (ev_SessionID e)
     + length (ev_PolicyHash e) + length (ev_Kind e) + length (ev_PrevHash e) + length (ev_EventHash e))
     + payload_size (ev_Payload e) + 200"
proof (cases "marshal_event e")
  case (Some l)
  then obtain pl where pl: "omit_raw ''payload'' (ev_Payload e) = Some pl" and l: "l = render (JObj (event_members e pl))"
    by (auto simp: marshal_event_def event_tree_members simp del: render_JObj)
  note js = length_render_jstr [of "ev_UTC e"] length_render_jstr [of "ev_WorldID e"] length_render_jstr [of "ev_Kind e"]
    length_render_jstr [of "ev_PrevHash e"] length_render_jstr [of "ev_EventHash e"] length_jnat_u64 [of "ev_Seq e"]
  note os = length_omit_str [of "''session_id''" "ev_SessionID e"] length_omit_str [of "''policy_hash''" "ev_PolicyHash e"]
  from length_render_JObj [of "event_members e pl"] js os length_omit_raw [OF pl] Some l show ?thesis
    unfolding event_members_def event_line_def by simp
qed (simp add: event_line_def)

text \<open>Compacting the payload changes neither the line nor the hash.\<close>

lemma raw_tree_nonempty: "raw_tree p = Some v \<Longrightarrow> render v \<noteq> []"
  using raw_tree_wf [of p v] render_nonempty [of v] by auto

lemma omit_raw_norm:
  assumes "omit_raw k (Some p) = Some pl" and "p \<noteq> []"
  shows "\<exists>v. raw_tree p = Some v \<and> omit_raw k (Some (render v)) = Some pl"
  using assms raw_tree_render [of p] raw_tree_nonempty [of p] by (auto simp: omit_raw_def)

lemma norm_event_payload:
  assumes "marshal_event e = Some l" and "ev_Payload e = Some p" and "p \<noteq> []"
  obtains v where "raw_tree p = Some v" and "ev_Payload (norm_event e) = Some (render v)"
    and "marshal_event (norm_event e) = Some l" and "raw_tree (render v) = Some v" and "render v \<noteq> []"
proof -
  obtain pl where pl: "omit_raw ''payload'' (Some p) = Some pl" and l: "l = render (JObj (event_members e pl))"
    using assms by (auto simp: marshal_event_def event_tree_members simp del: render_JObj)
  obtain v where v: "raw_tree p = Some v" and pl': "omit_raw ''payload'' (Some (render v)) = Some pl"
    using omit_raw_norm [OF pl assms(3)] by blast
  have pay: "ev_Payload (norm_event e) = Some (render v)" using assms v by (simp add: norm_event_def)
  moreover have "event_members (norm_event e) pl = event_members e pl" by (simp add: event_members_def)
  ultimately have "marshal_event (norm_event e) = Some l"
    using pl' l by (simp add: marshal_event_def event_tree_members del: render_JObj)
  then show thesis using that v pay raw_tree_render [OF v] raw_tree_nonempty [OF v] by blast
qed

lemma material_norm_hash:
  assumes "ev_Payload e = Some p" and "p \<noteq> []" and "raw_tree p = Some v"
    and "ev_Payload e' = Some (render v)" and "norm_event e = e'"
  shows "event_hash_of sha e' = event_hash_of sha e"
proof -
  have "raw_tree (render v) = Some v" "render v \<noteq> []"
    using assms raw_tree_render raw_tree_nonempty by auto
  then show ?thesis
    using assms by (auto simp: event_hash_of_material marshal_material_def material_tree_def material_of_def omit_raw_def)
qed

lemma event_hash_hex: "event_hash_of sha e = Some h \<Longrightarrow> \<exists>b. h = hex_encode (sha b)"
  by (auto simp: event_hash_of_material)

lemma linked_hash: "linked sha p es \<Longrightarrow> e \<in> set es \<Longrightarrow> event_hash_of sha e = Some (ev_EventHash e)"
  by (induction es arbitrary: p) auto

lemma GenesisPrev_props [simp]: "GenesisPrev \<noteq> []" "valid_utf8 GenesisPrev"
proof -
  have "ascii_string GenesisPrev" by (simp add: GenesisPrev_def ascii_string_def list_all_iff is_ascii_def)
  then show "valid_utf8 GenesisPrev" by (rule ascii_valid_utf8)
qed (simp add: GenesisPrev_def)

text \<open>Under the invariant the previous hash is the tip of the world's chain.\<close>

lemma prev_hash_tip:
  assumes inv: "desk_inv sha s d log" and sha: "sum32 sha"
  shows "prev_hash s w = tip_of GenesisPrev (world_log w log)" and "valid_utf8 (prev_hash s w)"
proof -
  have tip: "st_tip s = log_tip log" and link: "linked sha GenesisPrev (world_log w log)"
    using inv by (simp_all add: desk_inv_def)
  have "prev_hash s w = tip_of GenesisPrev (world_log w log) \<and> valid_utf8 (prev_hash s w)"
  proof (cases "world_log w log = []")
    case True
    then show ?thesis by (simp add: prev_hash_def tip log_tip_world)
  next
    case False
    let ?e = "last (world_log w log)"
    obtain b where b: "ev_EventHash ?e = hex_encode (sha b)"
      using linked_hash [OF link last_in_set [OF False]] event_hash_hex by blast
    moreover have "length (sha b) = 32" using sha by (simp add: sum32_def)
    ultimately have "ev_EventHash ?e \<noteq> []" and "valid_utf8 (ev_EventHash ?e)"
      by (metis length_hex_encode length_0_conv mult_is_0 zero_neq_numeral) (simp add: b ascii_valid_utf8)
    with False show ?thesis by (simp add: prev_hash_def tip log_tip_world tip_of_last)
  qed
  then show "prev_hash s w = tip_of GenesisPrev (world_log w log)" and "valid_utf8 (prev_hash s w)" by auto
qed

lemma new_event_norm:
  assumes ev: "new_event sha now s req = Some ev" and ok: "request_ok req" and now: "valid_utf8 now"
    and prev: "valid_utf8 (prev_hash s (rq_WorldID req))" and len: "length (event_line ev) < maxLine"
  shows "storable (norm_event ev)" and "event_line (norm_event ev) = event_line ev"
    and "event_hash_of sha (norm_event ev) = Some (ev_EventHash ev)"
proof -
  note d = new_event_SomeD [OF ev]
  obtain b where b: "ev_EventHash ev = hex_encode (sha b)" using event_hash_hex [OF d(2)] by blast
  have u: "utf8_event ev"
    using ok now prev by (subst d(1)) (simp add: draft_event_def utf8_event_def request_ok_def b ascii_valid_utf8)
  define p where "p = (case rq_Payload req of None \<Rightarrow> ''null'' | Some p \<Rightarrow> p)"
  have pay: "ev_Payload ev = Some p" by (subst d(1)) (simp add: p_def)
  have p: "p \<noteq> []" using ok by (auto simp: p_def request_ok_def split: option.splits)
  have sh: "shallow (ev_Payload ev)"
    using ok by (auto simp: pay p_def request_ok_def shallow_def split: option.splits)
  obtain v where v: "raw_tree p = Some v" "ev_Payload (norm_event ev) = Some (render v)"
    and l: "marshal_event (norm_event ev) = Some (event_line ev)"
    using norm_event_payload [OF d(3) pay p] by blast
  show line: "event_line (norm_event ev) = event_line ev" using l by (simp add: event_line_def)
  have "unmarshal_event (event_line ev) = Some (norm_event ev)"
    by (rule unmarshal_marshal_event [OF d(3) u sh])
  moreover have "clean_bytes (event_line ev)" by (rule marshal_event_clean [OF d(3)])
  moreover have "event_line ev \<noteq> []"
    using d(3) by (auto simp: marshal_event_def event_tree_def)
  ultimately show "storable (norm_event ev)" using line len by (simp add: storable_def)
  show "event_hash_of sha (norm_event ev) = Some (ev_EventHash ev)"
    using material_norm_hash [OF pay p v(1) v(2)] d(2) by simp
qed

lemma log_seq_snoc: "log_seq (es @ [e]) = (if log_seq es < ev_Seq e then ev_Seq e else log_seq es)"
  by (simp add: log_seq_def)

lemma seq_step: "unat (q :: u64) + 1 < 2 ^ 64 \<Longrightarrow> q < q + 1"
  by (simp add: word_less_nat_alt unat_word_ariths)

lemma desk_inv_commit:
  assumes inv: "desk_inv sha s d log" and sha: "sum32 sha"
    and c: "Commit sha now AppendOK AppendOK req (s, d) = (Inr ev, s', d')"
    and ok: "request_ok req" and now: "valid_utf8 now" and len: "length (event_line ev) < maxLine"
    and seq: "unat (st_seq s) + 1 < 2 ^ 64"
  shows "desk_inv sha s' d' (log @ [norm_event ev])"
proof -
  let ?r = "st_root s" and ?e = "norm_event ev" and ?w = "rq_WorldID req"
  have ev: "new_event sha now s req = Some ev" and s': "s' = commit_state s ev"
    and d': "d' = append_line (worldPath ?r ?w) ev (append_line (globalPath ?r) ev d)"
    using c by (simp_all add: Commit_OK)
  note n = new_event_norm [OF ev ok now prev_hash_tip(2) [OF inv sha] len]
  have e: "ev_WorldID ev = ?w" "ev_Seq ev = st_seq s + 1" "ev_PrevHash ev = prev_hash s ?w"
    using new_event_SomeD(1) [OF ev] by (metis draft_event_simps)+
  have root: "st_root s' = ?r" by (simp add: s' commit_state_def)
  have less: "st_seq s < ev_Seq ev" using seq_step [OF seq] e by simp
  have old: "\<forall>x\<in>set log. ev_Seq x < ev_Seq ev" using inv less by (auto simp: desk_inv_def)
  have "contents d' (globalPath ?r) = file_of (log @ [?e])"
    using inv n(2) by (simp add: d' append_line_def contents_def desk_inv_def)
  moreover have "contents d' (worldPath ?r w) = file_of (world_file ?r w (log @ [?e]))" for w
  proof (cases "worldPath ?r w = worldPath ?r ?w")
    case True
    have "contents d (worldPath ?r ?w) = file_of (world_file ?r ?w log)" using inv by (simp add: desk_inv_def)
    then show ?thesis
      using n(2) e True by (simp add: d' append_line_def contents_def world_file_def globalPath_not_world [symmetric])
  next
    case False
    then have "contents d' (worldPath ?r w) = contents d (worldPath ?r w)"
      by (simp add: d' append_line_def contents_def globalPath_not_world [symmetric])
    with inv False e show ?thesis by (auto simp: desk_inv_def world_file_def)
  qed
  moreover have "linked sha GenesisPrev (world_log w (log @ [?e]))" for w
    using inv n(3) e prev_hash_tip(1) [OF inv sha, of ?w]
    by (auto simp: desk_inv_def world_log_snoc linked_append)
  moreover have "st_tip s' = log_tip (log @ [?e])" and "st_seq s' = log_seq (log @ [?e])"
    using inv less by (simp_all add: s' commit_state_def desk_inv_def log_tip_snoc log_seq_snoc)
  moreover have "\<forall>x\<in>set (log @ [?e]). storable x \<and> 0 < ev_Seq x \<and> ev_Seq x \<le> st_seq s'"
    using inv n(1) old le_less_trans [OF word_zero_le less]
    by (auto simp: desk_inv_def s' commit_state_def less_imp_le)
  moreover have "sorted_wrt (<) (map ev_Seq (log @ [?e]))"
    using inv old by (simp add: desk_inv_def sorted_wrt_append)
  ultimately show ?thesis by (simp add: desk_inv_def root)
qed

section \<open>Reading it back\<close>

lemma file_of_eq_Nil [simp]: "file_of es = [] \<longleftrightarrow> es = []" "[] = file_of es \<longleftrightarrow> es = []"
  by (cases es; simp)+

lemma open_scan_file:
  assumes "contents d p = file_of es" and "\<forall>e\<in>set es. storable e"
  shows "open_scan ReadOK p d = Inr None \<and> es = [] \<or> open_scan ReadOK p d = Inr (Some (map event_line es, None))"
  using assms by (auto simp: open_scan_def contents_def scan_file split: option.splits)

lemma list_lines_foreign:
  "\<forall>e\<in>set es. storable e \<Longrightarrow> \<exists>e\<in>set es. ev_WorldID e \<noteq> w \<Longrightarrow>
     list_lines w cursor (map event_line es) = Inl ForeignWorld"
  by (induction es) (auto simp: storable_def)

text \<open>No other world of the log has the same sanitized identifier.\<close>

definition own_file :: "string \<Rightarrow> Event list \<Rightarrow> bool" where
  "own_file w log \<longleftrightarrow> (\<forall>e\<in>set log. sanitizeID (ev_WorldID e) = sanitizeID w \<longrightarrow> ev_WorldID e = w)"

lemma world_file_own: "own_file w log \<Longrightarrow> world_file root w log = world_log w log"
  unfolding world_file_def world_log_def own_file_def
  by (intro filter_cong refl) (auto simp: worldPath_inject)

lemma desk_inv_world_scan:
  assumes "desk_inv sha s d log"
  shows "open_scan ReadOK (worldPath (st_root s) w) d = Inr None \<and> world_file (st_root s) w log = []
     \<or> open_scan ReadOK (worldPath (st_root s) w) d = Inr (Some (map event_line (world_file (st_root s) w log), None))"
  using assms by (intro open_scan_file) (auto simp: desk_inv_def world_file_def)

lemma ListWorld_log:
  assumes inv: "desk_inv sha s d log" and w: "w \<noteq> []" and own: "own_file w log"
  obtains sl where "ListWorld ReadOK w cursor (s, d) = Inr sl"
    and "items sl = filter (\<lambda>e. cursor < ev_Seq e) (world_log w log)"
proof -
  have "\<forall>e\<in>set (world_log w log). storable e \<and> ev_WorldID e = w"
    using inv by (auto simp: desk_inv_def world_log_def)
  note ls = list_lines_file [OF this, of cursor]
  show thesis
    using desk_inv_world_scan [OF inv, of w] that w
    by (elim disjE conjE) (auto simp: ListWorld_def world_file_own [OF own] ls)
qed

lemma NewStore_log:
  assumes inv: "desk_inv sha s d log"
  shows "NewStore None None ReadOK (st_root s) d = Inr s"
proof -
  have st: "\<forall>e\<in>set log. storable e" and tip: "st_tip s = log_tip log" and seq: "st_seq s = log_seq log"
    and g: "contents d (globalPath (st_root s)) = file_of log"
    using inv by (auto simp: desk_inv_def)
  have s: "s = \<lparr>st_root = st_root s, st_seq = log_seq log, st_tip = log_tip log\<rparr>"
    using tip seq by (cases s) simp
  show ?thesis
  proof (cases "open_scan ReadOK (globalPath (st_root s)) d = Inr None")
    case True
    with open_scan_file [OF g st] have "log = []" by auto
    with s True show ?thesis by (simp add: NewStore_def replay_def log_seq_def log_tip_def)
  next
    case False
    with open_scan_file [OF g st]
    have "open_scan ReadOK (globalPath (st_root s)) d = Inr (Some (map event_line log, None))" by blast
    with s replay_lines_file [OF st, of "(0, Map.empty)"] show ?thesis
      by (simp add: NewStore_def replay_def log_seq_def log_tip_def)
  qed
qed

text \<open>A line the scanner refuses makes the store impossible to open.\<close>

lemma scan_file_long:
  assumes "\<forall>e\<in>set es. storable e" and "nl \<notin> set l" and "maxLine \<le> length l"
  shows "scan_lines maxLine (file_of es @ l @ nl # t) = (map event_line es, True)"
  using assms(1)
proof (induction es)
  case Nil
  from assms have "l \<noteq> []" by (auto simp: maxLine_def)
  with assms show ?case by (simp add: scan_lines_too_long)
next
  case (Cons e es)
  then have "nl \<notin> set (event_line e)" "length (event_line e) < maxLine" "drop_cr (event_line e) = event_line e"
    by (auto simp: storable_def clean_bytes_nl clean_bytes_drop_cr)
  with Cons show ?case by (simp add: scan_lines_cons)
qed

lemma NewStore_long:
  assumes g: "d (globalPath root) = Some (file_of es @ l @ nl # t)" and st: "\<forall>e\<in>set es. storable e"
    and l: "nl \<notin> set l" "maxLine \<le> length l"
  shows "NewStore None None ReadOK root d = Inl TooLong"
  using replay_lines_file [OF st, of "(0, Map.empty)"] scan_file_long [OF st l, of t]
  by (simp add: NewStore_def replay_def open_scan_def g)

text \<open>Two worlds that share a file make it unreadable for both.\<close>

lemma ListWorld_foreign:
  assumes inv: "desk_inv sha s d log" and w: "w \<noteq> []" and shared: "\<not> own_file w log"
  shows "ListWorld ReadOK w cursor (s, d) = Inl ForeignWorld"
proof -
  have ex: "\<exists>e\<in>set (world_file (st_root s) w log). ev_WorldID e \<noteq> w"
    using shared by (auto simp: own_file_def world_file_def worldPath_inject)
  moreover have "\<forall>e\<in>set (world_file (st_root s) w log). storable e"
    using inv by (auto simp: desk_inv_def world_file_def)
  ultimately have "list_lines w cursor (map event_line (world_file (st_root s) w log)) = Inl ForeignWorld"
    by (intro list_lines_foreign)
  moreover have "open_scan ReadOK (worldPath (st_root s) w) d = Inr (Some (map event_line (world_file (st_root s) w log), None))"
    using desk_inv_world_scan [OF inv, of w] ex by auto
  ultimately show ?thesis using w by (simp add: ListWorld_def)
qed

text \<open>A read that succeeds returns exactly the world's part of the log above the cursor.\<close>

lemma ListWorld_SomeD:
  assumes inv: "desk_inv sha s d log" and l: "ListWorld ReadOK w cursor (s, d) = Inr sl"
  shows "items sl = filter (\<lambda>e. cursor < ev_Seq e) (world_log w log)" and "own_file w log"
proof -
  have w: "w \<noteq> []" using l by (auto simp: ListWorld_def)
  show own: "own_file w log" using ListWorld_foreign [OF inv w, of cursor] l by fastforce
  obtain sl' where "ListWorld ReadOK w cursor (s, d) = Inr sl'"
    and "items sl' = filter (\<lambda>e. cursor < ev_Seq e) (world_log w log)"
    using ListWorld_log [OF inv w own] by blast
  with l show "items sl = filter (\<lambda>e. cursor < ev_Seq e) (world_log w log)" by simp
qed

end
