(* ===== verification/HttpModel.thy ===== *)
theory HttpModel
  imports JsonDecode
begin

text \<open>
  What the three services share of \<open>net/http\<close>: requests, responses, \<open>writeJSON\<close> and \<open>httpError\<close>
  (each service has its own copy of the two), and the matching of \<open>ServeMux\<close> patterns.
\<close>

text \<open>
  A request as a handler sees it. \<open>hr_path\<close> is the clean path cut into decoded segments, \<open>hr_query\<close>
  and \<open>hr_header\<close> are the \<open>Get\<close> of the query and of the headers (empty when absent), \<open>hr_body\<close> are
  the bytes of the body that arrived and \<open>hr_broken\<close> tells whether reading it ended in an error
  rather than in the end of the input.
\<close>

record Request =
  hr_method :: string
  hr_path :: "string list"
  hr_query :: "string \<Rightarrow> string"
  hr_header :: "string \<Rightarrow> string"
  hr_body :: string
  hr_broken :: bool

text \<open>Every response of the services has the JSON content type.\<close>

record Response =
  rs_code :: nat
  rs_body :: string

text \<open>An encoding error leaves the body empty: the status is written already.\<close>

definition writeJSON :: "nat \<Rightarrow> jv option \<Rightarrow> Response" where
  "writeJSON code v = \<lparr>rs_code = code, rs_body = (case v of None \<Rightarrow> [] | Some t \<Rightarrow> render t @ [nl])\<rparr>"

definition httpError :: "nat \<Rightarrow> string \<Rightarrow> Response" where
  "httpError code msg = writeJSON code (Some (JObj [(''error'', jstr msg)]))"

lemma rs_code_simps [simp]: "rs_code (writeJSON code v) = code" "rs_code (httpError code msg) = code"
  by (simp_all add: writeJSON_def httpError_def)

definition jbool :: "bool \<Rightarrow> jv" where
  "jbool b = (if b then JTrue else JFalse)"

definition jint :: "int \<Rightarrow> jv" where
  "jint i = JNum (show_int i)"

text \<open>Decoding the body of a request into a struct: the end of the input is told from an error.\<close>

definition request_json :: "Request \<Rightarrow> body_json" where
  "request_json r = (case decode_body (hr_body r) of BodyEOF \<Rightarrow> if hr_broken r then BodyBad else BodyEOF | b \<Rightarrow> b)"

lemma request_json_wf: "wf_members (snd (body_members (request_json r))) \<and> low_members (snd (body_members (request_json r)))"
  using body_members_wf [of "hr_body r"]
  by (auto simp: request_json_def body_members_def split: body_json.splits)

text \<open>What one end writes the other end reads.\<close>

lemma decode_rendered:
  assumes "jwf (JObj ms)" "jdepth (JObj ms) \<le> maxNestingDepth"
  shows "decode_body (render (JObj ms)) = BodyVal (JObj ms)"
proof -
  have "skip_ws (render (JObj ms)) \<noteq> []" by (simp add: render_JObj)
  moreover have "parse_first (render (JObj ms)) = Some (JObj ms, [])"
    using parse_first_render [OF assms, of "[]"] by simp
  ultimately show ?thesis unfolding decode_body_def by (simp del: render_JObj)
qed

lemma parse_text_line: "jwf v \<Longrightarrow> jdepth v \<le> maxNestingDepth \<Longrightarrow> parse_text (render v @ [nl]) = Some v"
  using parse_first_render [of v "[nl]"] by (simp add: parse_text_def skip_ws_def num_stop_def is_ws_def is_digit_def)

section \<open>Patterns\<close>

datatype seg = Lit string | Wild

fun match_segs :: "seg list \<Rightarrow> string list \<Rightarrow> string list option" where
  "match_segs [] [] = Some []"
| "match_segs (Lit l # ps) (s # ss) = (if l = s then match_segs ps ss else None)"
| "match_segs (Wild # ps) (s # ss) = (if s = [] then None else map_option ((#) s) (match_segs ps ss))"
| "match_segs _ _ = None"

definition match_method :: "string \<Rightarrow> string \<Rightarrow> bool" where
  "match_method m m' \<longleftrightarrow> m = m' \<or> m = ''GET'' \<and> m' = ''HEAD''"

text \<open>A path some pattern knows under another method only is answered 405.\<close>

datatype 'h dispatch = Serve 'h "string list" | MethodNotAllowed | PathNotFound

fun first_match :: "(string \<times> seg list \<times> 'h) list \<Rightarrow> string \<Rightarrow> string list \<Rightarrow> ('h \<times> string list) option" where
  "first_match [] m p = None"
| "first_match ((m', pat, h) # rs) m p =
     (case match_segs pat p of Some vs \<Rightarrow> if match_method m' m then Some (h, vs) else first_match rs m p
      | None \<Rightarrow> first_match rs m p)"

definition dispatch :: "(string \<times> seg list \<times> 'h) list \<Rightarrow> Request \<Rightarrow> 'h dispatch" where
  "dispatch rs r =
     (case first_match rs (hr_method r) (hr_path r) of Some (h, vs) \<Rightarrow> Serve h vs
      | None \<Rightarrow> if \<exists>x\<in>set rs. match_segs (fst (snd x)) (hr_path r) \<noteq> None then MethodNotAllowed else PathNotFound)"

definition mux_error :: "'h dispatch \<Rightarrow> Response" where
  "mux_error x = (case x of MethodNotAllowed \<Rightarrow> \<lparr>rs_code = 405, rs_body = ''Method Not Allowed'' @ [nl]\<rparr>
     | _ \<Rightarrow> \<lparr>rs_code = 404, rs_body = ''404 page not found'' @ [nl]\<rparr>)"

section \<open>Clients\<close>

text \<open>\<open>json.Unmarshal\<close> of a whole body into a struct.\<close>

definition unmarshal_with :: "(members \<Rightarrow> bool \<times> 'a) \<Rightarrow> string \<Rightarrow> 'a option" where
  "unmarshal_with dec b = (case parse_text b of None \<Rightarrow> None
     | Some v \<Rightarrow> (let m = as_members v; r = dec (snd m) in if fst m \<and> fst r then Some (snd r) else None))"

text \<open>
  What a client gets for a request: an error, or a status code, its line and the bytes of the body
  that could be read (\<open>io.ReadAll\<close>'s error is dropped everywhere).
\<close>

record http_reply =
  hp_code :: nat
  hp_status :: string
  hp_body :: string

record http_call =
  hc_method :: string
  hc_url :: string
  hc_body :: string

text \<open>
  The transport: \<open>tp_do\<close> is \<open>Client.Do\<close>, its error given by its text; \<open>tp_url\<close> is the error of \<open>http.NewRequest\<close> for a URL that
  does not parse; \<open>tp_json\<close> is the text of the error of \<open>json.Unmarshal\<close> for a body it refuses.
\<close>

record 'e transport =
  tp_do :: "http_call \<Rightarrow> 'e \<Rightarrow> (string, http_reply) result \<times> 'e"
  tp_url :: "string \<Rightarrow> string option"
  tp_json :: "string \<Rightarrow> string"

text \<open>Every client starts alike: build the request, send it.\<close>

datatype sent = BadRequest string | NoReply string | Reply http_reply

definition send :: "'e transport \<Rightarrow> string \<Rightarrow> string \<Rightarrow> string \<Rightarrow> 'e \<Rightarrow> sent \<times> 'e" where
  "send tp m url body e = (case tp_url tp url of Some msg \<Rightarrow> (BadRequest msg, e)
     | None \<Rightarrow> (case tp_do tp \<lparr>hc_method = m, hc_url = url, hc_body = body\<rparr> e of
         (Inl m, e') \<Rightarrow> (NoReply m, e') | (Inr r, e') \<Rightarrow> (Reply r, e')))"

text \<open>The codes \<open>WriteHeader\<close> accepts.\<close>

definition writable :: "nat \<Rightarrow> bool" where
  "writable code \<longleftrightarrow> 100 \<le> code \<and> code \<le> 999"

text \<open>Replies whose codes may be written, whatever the state: what HTTP servers send.\<close>

definition sane_transport :: "'e transport \<Rightarrow> bool" where
  "sane_transport tp \<longleftrightarrow> (\<forall>c e r e'. tp_do tp c e = (Inr r, e') \<longrightarrow> writable (hp_code r))"

lemma send_writable: "send tp x u b e = (Reply p, e') \<Longrightarrow> sane_transport tp \<Longrightarrow> writable (hp_code p)"
  by (auto simp: send_def sane_transport_def split: option.splits prod.splits sum.splits)

end
