(* ===== verification/EventLog.thy ===== *)
theory EventLog
  imports Prelude
begin

text \<open>
  The contract between a continuity log and those who read it. A state stands for a list of
  entries with increasing numbers; a step appends to the list; a read of a key from a cursor
  returns the entries of the key above the cursor, or fails. Nothing else is assumed, so what is
  shown here of readers holds of every store that keeps the contract.
\<close>

locale event_log =
  fixes inv :: "'st \<Rightarrow> 'e list \<Rightarrow> bool"
    and step :: "'st \<Rightarrow> 'st \<Rightarrow> bool"
    and read :: "'w \<Rightarrow> 'k::linorder \<Rightarrow> 'st \<Rightarrow> 'e list option"
    and seq :: "'e \<Rightarrow> 'k"
    and key :: "'e \<Rightarrow> 'w"
  assumes step_extends: "\<lbrakk>inv st log; step st st'\<rbrakk> \<Longrightarrow> \<exists>new. inv st' (log @ new)"
    and inv_sorted: "inv st log \<Longrightarrow> sorted_wrt (<) (map seq log)"
    and read_log: "\<lbrakk>inv st log; read w c st = Some es\<rbrakk> \<Longrightarrow> es = filter (\<lambda>e. key e = w \<and> c < seq e) log"
begin

lemma run_extends: "step\<^sup>*\<^sup>* st st' \<Longrightarrow> inv st log \<Longrightarrow> \<exists>new. inv st' (log @ new)"
proof (induction rule: rtranclp_induct)
  case base
  then show ?case by (intro exI [of _ "[]"]) simp
next
  case (step st1 st2)
  then obtain new where "inv st1 (log @ new)" by blast
  with step_extends step(2) show ?case by fastforce
qed

lemma read_sorted:
  assumes "inv st log" and "read w c st = Some es"
  shows "sorted_wrt (<) (map seq es)" and "\<forall>e\<in>set es. key e = w \<and> c < seq e"
  using read_log [OF assms] inv_sorted [OF assms(1)] by (auto simp: sorted_wrt_map sorted_wrt_filter)

text \<open>Where a reader goes on after a page.\<close>

definition next_cursor :: "'k \<Rightarrow> 'e list \<Rightarrow> 'k" where
  "next_cursor c es = (if es = [] then c else seq (last es))"

text \<open>
  A reader that pages through the log while it grows misses nothing and sees nothing twice: the
  page read earlier and the page read later, from where the first one ended, make up what one read
  at the later time returns.
\<close>

lemma poll_complete:
  assumes inv: "inv st log" and run: "step\<^sup>*\<^sup>* st st'"
    and page: "read w c st = Some es" "read w (next_cursor c es) st' = Some es'" and all: "read w c st' = Some xs"
  shows "xs = es @ es'"
proof -
  obtain new where inv': "inv st' (log @ new)" using run_extends [OF run inv] by blast
  let ?c = "next_cursor c es"
  have es: "es = filter (\<lambda>e. key e = w \<and> c < seq e) log" by (rule read_log [OF inv page(1)])
  have sorted: "sorted_wrt (\<lambda>x y. seq x < seq y) (log @ new)" using inv_sorted [OF inv'] unfolding sorted_wrt_map .
  have old: "seq e \<le> ?c" if "e \<in> set log" "key e = w" "c < seq e" for e
  proof -
    from that es have "e \<in> set es" by simp
    then obtain xs where xs: "es = xs @ [last es]" by (metis append_butlast_last_id empty_iff list.set(1))
    have "sorted_wrt (\<lambda>x y. seq x < seq y) es" using read_sorted(1) [OF inv page(1)] by (simp add: sorted_wrt_map)
    with xs \<open>e \<in> set es\<close> have "e = last es \<or> seq e < seq (last es)"
      by (metis Un_iff append_is_Nil_conv list.set_intros(1) set_ConsD set_append sorted_wrt_append empty_iff list.set(1))
    with \<open>e \<in> set es\<close> show ?thesis by (auto simp: next_cursor_def)
  qed
  have le: "c \<le> ?c"
    using es last_in_set [of es] by (auto simp: next_cursor_def intro: less_imp_le)
  have new: "c < seq e \<longleftrightarrow> ?c < seq e" if "e \<in> set new" for e
  proof (cases "es = []")
    case False
    then have "last es \<in> set log" "c < seq (last es)" using es last_in_set [of es] by auto
    with that sorted have "seq (last es) < seq e" by (auto simp: sorted_wrt_append)
    with False \<open>c < seq (last es)\<close> show ?thesis by (simp add: next_cursor_def)
  qed (simp add: next_cursor_def)
  have "filter (\<lambda>e. key e = w \<and> ?c < seq e) log = []"
    using old le by (fastforce simp: filter_empty_conv)
  moreover have "filter (\<lambda>e. key e = w \<and> ?c < seq e) new = filter (\<lambda>e. key e = w \<and> c < seq e) new"
    using new by (intro filter_cong) auto
  ultimately show ?thesis
    using read_log [OF inv' page(2)] read_log [OF inv' all] es by simp
qed

end

end
