(* ===== verification/DeskServer.thy ===== *)
theory DeskServer
  imports DeskLog HttpModel EventLog
begin

text \<open>
  \<open>desk/server.go\<close>: the HTTP interface of the store, and the states it can reach. Texts of errors
  that come from the standard library or the kernel are the parameter \<open>lib\<close>.
\<close>

section \<open>Handlers\<close>

primrec error_text :: "(desk_error \<Rightarrow> string) \<Rightarrow> desk_error \<Rightarrow> string" where
  "error_text lib WorldIDRequired = ''world_id required''"
| "error_text lib KindRequired = ''kind required''"
| "error_text lib MarshalError = lib MarshalError"
| "error_text lib (SysError e) = e"
| "error_text lib ShortWrite = ''short write''"
| "error_text lib (WorldAppend e) = ''world append after global commit: '' @ error_text lib e"
| "error_text lib ReplayError = ''replay: '' @ lib ReplayError"
| "error_text lib UnmarshalError = lib UnmarshalError"
| "error_text lib ForeignWorld = ''corrupt world file: foreign world_id''"
| "error_text lib TooLong = ''bufio.Scanner: token too long''"

definition ingest_of :: "members \<Rightarrow> bool \<times> IngestRequest" where
  "ingest_of ms =
     (let wid = field_str ''world_id'' [] ms; sid = field_str ''session_id'' [] ms;
          ph = field_str ''policy_hash'' [] ms; kind = field_str ''kind'' [] ms;
          pl = field_raw ''payload'' None ms; utc = field_str ''utc'' [] ms
      in (fst wid \<and> fst sid \<and> fst ph \<and> fst kind \<and> fst pl \<and> fst utc,
          \<lparr>rq_WorldID = snd wid, rq_SessionID = snd sid, rq_PolicyHash = snd ph, rq_Kind = snd kind,
           rq_Payload = snd pl, rq_UTC = snd utc\<rparr>))"

definition decode_ingest :: "Request \<Rightarrow> IngestRequest option" where
  "decode_ingest r = (let m = body_members (request_json r); q = ingest_of (snd m)
     in if fst m \<and> fst q then Some (snd q) else None)"

definition handleHealth :: Response where
  "handleHealth = \<lparr>rs_code = 200, rs_body = ''{'' @ str_lit ''ok'' @ '':true,'' @ str_lit ''service'' @ '':'' @ str_lit ''desk'' @ ''}''\<rparr>"

text \<open>The outcomes of the calls one request may make to the clock and the kernel.\<close>

record desk_env =
  de_now :: string
  de_global :: append_io
  de_world :: append_io
  de_read :: read_io

definition handleIngest :: "(string \<Rightarrow> string) \<Rightarrow> (desk_error \<Rightarrow> string) \<Rightarrow> desk_env \<Rightarrow> Request
    \<Rightarrow> Store \<times> disk \<Rightarrow> Response \<times> Store \<times> disk" where
  "handleIngest sha lib env r sd =
     (case decode_ingest r of None \<Rightarrow> (httpError 400 ''invalid json'', sd)
      | Some req \<Rightarrow>
          (case Commit sha (de_now env) (de_global env) (de_world env) req sd of
             (Inl e, sd') \<Rightarrow> (httpError 400 (error_text lib e), sd')
           | (Inr ev, sd') \<Rightarrow> (writeJSON 201 (event_tree ev), sd')))"

text \<open>A slice as JSON: nil is \<open>null\<close>. One element that does not encode spoils the whole.\<close>

fun event_trees :: "Event list \<Rightarrow> jv list option" where
  "event_trees [] = Some []"
| "event_trees (e # es) = (case event_tree e of None \<Rightarrow> None | Some v \<Rightarrow> map_option ((#) v) (event_trees es))"

definition slice_tree :: "Event slice \<Rightarrow> jv option" where
  "slice_tree sl = (case sl of None \<Rightarrow> Some JNull | Some es \<Rightarrow> map_option JArr (event_trees es))"

definition list_body :: "string \<Rightarrow> Event slice \<Rightarrow> jv option" where
  "list_body w sl = map_option (\<lambda>v. JObj [(''events'', v), (''world_id'', jstr w)]) (slice_tree sl)"

definition handleList :: "(desk_error \<Rightarrow> string) \<Rightarrow> desk_env \<Rightarrow> Request \<Rightarrow> Store \<times> disk \<Rightarrow> Response" where
  "handleList lib env r sd =
     (let worldID = hr_query r ''world_id''; c = hr_query r ''cursor'' in
      if worldID = [] then httpError 400 ''world_id required''
      else case (if c = [] then Some 0 else parse_uint64 c) of None \<Rightarrow> httpError 400 ''bad cursor''
        | Some cursor \<Rightarrow>
            (case ListWorld (de_read env) worldID cursor sd of
               Inl e \<Rightarrow> httpError 500 (error_text lib e)
             | Inr events \<Rightarrow> writeJSON 200 (list_body worldID events)))"

datatype desk_handler = HHealth | HIngest | HList

text \<open>The routes of \<open>NewServer\<close>.\<close>

definition desk_routes :: "(string \<times> seg list \<times> desk_handler) list" where
  "desk_routes = [(''GET'', [Lit ''health''], HHealth), (''POST'', [Lit ''v1'', Lit ''events''], HIngest),
     (''GET'', [Lit ''v1'', Lit ''events''], HList)]"

definition desk_serve :: "(string \<Rightarrow> string) \<Rightarrow> (desk_error \<Rightarrow> string) \<Rightarrow> desk_env \<Rightarrow> Request
    \<Rightarrow> Store \<times> disk \<Rightarrow> Response \<times> Store \<times> disk" where
  "desk_serve sha lib env r sd =
     (case dispatch desk_routes r of
        Serve HHealth vs \<Rightarrow> (handleHealth, sd)
      | Serve HIngest vs \<Rightarrow> handleIngest sha lib env r sd
      | Serve HList vs \<Rightarrow> (handleList lib env r sd, sd)
      | x \<Rightarrow> (mux_error x, sd))"

lemmas [desk_defs] = handleIngest_def handleList_def desk_serve_def

section \<open>Every decoded request can be stored and read back\<close>

lemma decode_ingest_ok: "decode_ingest r = Some req \<Longrightarrow> request_ok req"
  using request_json_wf [of r] field_raw_shallow [of "snd (body_members (request_json r))" "''payload''"]
  by (auto simp: decode_ingest_def ingest_of_def Let_def request_ok_def field_str_utf8 split: if_splits)

section \<open>Steps\<close>

text \<open>
  One step is a request or a restart of the process. The environment is a good one: an append
  succeeds, or the global file cannot be opened; the clock prints text; the line of the new event
  is one the scanner reads back; the counter is not at its end.
\<close>

definition good_env :: "desk_env \<Rightarrow> bool" where
  "good_env env \<longleftrightarrow> valid_utf8 (de_now env) \<and> de_world env = AppendOK
     \<and> (de_global env = AppendOK \<or> (\<exists>e. de_global env = OpenFail e))"

definition line_fits :: "(string \<Rightarrow> string) \<Rightarrow> desk_env \<Rightarrow> Store \<Rightarrow> Request \<Rightarrow> bool" where
  "line_fits sha env s r = (case decode_ingest r of None \<Rightarrow> True
     | Some req \<Rightarrow> (case new_event sha (de_now env) s req of None \<Rightarrow> True
       | Some ev \<Rightarrow> length (event_line ev) < maxLine))"

inductive desk_step :: "(string \<Rightarrow> string) \<Rightarrow> Store \<times> disk \<Rightarrow> Store \<times> disk \<Rightarrow> bool" for sha where
  request: "\<lbrakk>good_env env; line_fits sha env s r; unat (st_seq s) + 1 < 2 ^ 64;
     desk_serve sha lib env r (s, d) = (resp, s', d')\<rbrakk> \<Longrightarrow> desk_step sha (s, d) (s', d')"
| restart: "NewStore None None ReadOK (st_root s) d = Inr s' \<Longrightarrow> desk_step sha (s, d) (s', d)"

inductive_cases desk_stepE [consumes 1, case_names request restart]: "desk_step sha (s, d) (s', d')"

abbreviation "desk_run sha \<equiv> (desk_step sha)\<^sup>*\<^sup>*"

lemma appendFile_open: "appendFile (OpenFail e) p l d = (Some (SysError e), d)"
  by (simp add: appendFile_def Let_def)

lemma Commit_good:
  assumes "good_env env" and "Commit sha (de_now env) (de_global env) (de_world env) req (s, d) = (res, s', d')"
  shows "(\<exists>e. res = Inl e) \<and> s' = s \<and> d' = d
     \<or> (\<exists>ev. res = Inr ev \<and> Commit sha (de_now env) AppendOK AppendOK req (s, d) = (Inr ev, s', d'))"
  using assms unfolding good_env_def
  by (elim conjE disjE exE) (auto simp: Commit_unfold appendFile_open appendFile_OK split: option.splits if_splits)

lemma desk_serve_cases:
  assumes "desk_serve sha lib env r sd = (resp, sd')"
  obtains (same) "sd' = sd" | (ingest) req res where "decode_ingest r = Some req"
    and "Commit sha (de_now env) (de_global env) (de_world env) req sd = (res, sd')"
  using assms
  by (auto simp: desk_serve_def handleIngest_def split: dispatch.splits desk_handler.splits option.splits prod.splits sum.splits)

text \<open>One step keeps the invariant; the log grows by at most one event at its end.\<close>

lemma desk_step_inv:
  assumes "desk_step sha (s, d) (s', d')" and inv: "desk_inv sha s d log" and sha: "sum32 sha"
  shows "\<exists>new. length new \<le> 1 \<and> desk_inv sha s' d' (log @ new)"
  using assms(1)
proof (cases rule: desk_stepE)
  case (request env r lib resp)
  have same: ?thesis if "s' = s" "d' = d" using inv that by (intro exI [of _ "[]"]) simp
  from request(4) show ?thesis
  proof (cases rule: desk_serve_cases)
    case (ingest req res)
    from Commit_good [OF request(1) ingest(2)] show ?thesis
    proof (elim disjE conjE exE)
      fix ev assume res: "res = Inr ev" and c: "Commit sha (de_now env) AppendOK AppendOK req (s, d) = (Inr ev, s', d')"
      then have "length (event_line ev) < maxLine"
        using request(2) ingest(1) by (simp add: line_fits_def Commit_OK)
      with inv sha c decode_ingest_ok [OF ingest(1)] request(1,3) have "desk_inv sha s' d' (log @ [norm_event ev])"
        by (intro desk_inv_commit) (auto simp: good_env_def)
      then show ?thesis by (intro exI [of _ "[norm_event ev]"]) simp
    qed (use same in simp)
  qed (use same in simp)
next
  case restart
  with NewStore_log [OF inv] inv show ?thesis by (intro exI [of _ "[]"]) simp
qed

section \<open>The store keeps the contract of a log\<close>

definition read_world :: "string \<Rightarrow> u64 \<Rightarrow> Store \<times> disk \<Rightarrow> Event list option" where
  "read_world w c sd = (case ListWorld ReadOK w c sd of Inl e \<Rightarrow> None | Inr sl \<Rightarrow> Some (items sl))"

definition desk_state :: "(string \<Rightarrow> string) \<Rightarrow> Store \<times> disk \<Rightarrow> Event list \<Rightarrow> bool" where
  "desk_state sha sd log \<longleftrightarrow> sum32 sha \<and> desk_inv sha (fst sd) (snd sd) log"

interpretation desk: event_log "desk_state sha" "desk_step sha" read_world ev_Seq ev_WorldID for sha
proof
  fix st log st'
  assume "desk_state sha st log" and "desk_step sha st st'"
  then show "\<exists>new. desk_state sha st' (log @ new)"
    using desk_step_inv [of sha "fst st" "snd st" "fst st'" "snd st'" log] by (auto simp: desk_state_def)
next
  fix st log
  assume "desk_state sha st log"
  then show "sorted_wrt (<) (map ev_Seq log)" by (simp add: desk_state_def desk_inv_def)
next
  fix st log w c es
  assume "desk_state sha st log" and "read_world w c st = Some es"
  then show "es = filter (\<lambda>e. ev_WorldID e = w \<and> c < ev_Seq e) log"
    using ListWorld_SomeD [of sha "fst st" "snd st" log w c]
    by (auto simp: desk_state_def read_world_def world_log_def conj_commute split: sum.splits)
qed

text \<open>A data directory that holds no event yet.\<close>

definition fresh_disk :: "string \<Rightarrow> disk \<Rightarrow> bool" where
  "fresh_disk root d \<longleftrightarrow> contents d (globalPath root) = [] \<and> (\<forall>w. contents d (worldPath root w) = [])"

definition empty_store :: "string \<Rightarrow> Store" where
  "empty_store root = \<lparr>st_root = root, st_seq = 0, st_tip = Map.empty\<rparr>"

lemma desk_step_root:
  assumes "desk_step sha (s, d) (s', d')" and inv: "desk_inv sha s d log"
  shows "st_root s' = st_root s"
  using assms(1)
proof (cases rule: desk_stepE)
  case (request env r lib resp)
  from request(4) show ?thesis
  proof (cases rule: desk_serve_cases)
    case (ingest req res)
    from Commit_good [OF request(1) ingest(2)] show ?thesis by (auto simp: Commit_OK commit_state_def)
  qed simp
next
  case restart
  with NewStore_log [OF inv] show ?thesis by simp
qed

lemma desk_run_state:
  assumes sha: "sum32 sha" and "fresh_disk root d0" and "desk_run sha (empty_store root, d0) (s, d)"
  obtains log where "desk_inv sha s d log" and "st_root s = root"
proof -
  have start: "desk_state sha (empty_store root, d0) []"
    using assms desk_inv_empty by (simp add: desk_state_def fresh_disk_def empty_store_def)
  have "(\<exists>log. desk_state sha (s, d) log) \<and> st_root s = root"
    using assms(3)
  proof (induction rule: rtranclp_induct2)
    case refl
    then show ?case using start by (auto simp: empty_store_def)
  next
    case (step s1 d1 s2 d2)
    then obtain log where "desk_state sha (s1, d1) log" by blast
    with step desk.step_extends [OF this step(2)] desk_step_root [OF step(2)] show ?case
      by (auto simp: desk_state_def)
  qed
  then show thesis using that by (auto simp: desk_state_def)
qed

end
