(* ===== verification/DeskTheorems.thy ===== *)
theory DeskTheorems
  imports DeskServer
begin

text \<open>The properties of the continuity desk, and concrete inputs at which their hypotheses hold.\<close>

section \<open>Concrete inputs\<close>

text \<open>A hash of the right size, a request, and the state after committing it to an empty store.\<close>

definition demo_sha :: "string \<Rightarrow> string" where
  "demo_sha b = replicate 32 (CHR ''a'')"

definition demo_ingest :: "string \<Rightarrow> IngestRequest" where
  "demo_ingest w = \<lparr>rq_WorldID = w, rq_SessionID = [], rq_PolicyHash = [], rq_Kind = ''exec'', rq_Payload = None, rq_UTC = ''t''\<rparr>"

definition demo_event :: "string \<Rightarrow> u64 \<Rightarrow> string \<Rightarrow> Event" where
  "demo_event w q prev = \<lparr>ev_UTC = ''t'', ev_Seq = q, ev_WorldID = w, ev_SessionID = [], ev_PolicyHash = [], ev_Kind = ''exec'',
     ev_Payload = Some ''null'', ev_PrevHash = prev, ev_EventHash = hex_encode (demo_sha [])\<rparr>"

definition demo_disk :: disk where
  "demo_disk = append_line (worldPath ''/data'' ''w1'') (demo_event ''w1'' 1 GenesisPrev)
     (append_line (globalPath ''/data'') (demo_event ''w1'' 1 GenesisPrev) Map.empty)"

definition demo_store :: Store where
  "demo_store = commit_state (empty_store ''/data'') (demo_event ''w1'' 1 GenesisPrev)"

lemma demo_sum32: "sum32 demo_sha"
  by (simp add: sum32_def demo_sha_def)

lemmas encode_event_defs = event_hash_of_def hashEvent_def marshal_material_def material_tree_def omit_raw_def
  marshal_event_def event_tree_def

lemma demo_new_event:
  "new_event demo_sha now s (demo_ingest w) = Some (demo_event w (st_seq s + 1) (prev_hash s w))"
  by (simp add: new_event_def draft_event_def encode_event_defs demo_event_def demo_sha_def demo_ingest_def)

lemma demo_linked: "linked demo_sha prev [demo_event w q prev]"
  by (simp add: encode_event_defs demo_event_def demo_sha_def)

lemma demo_norm [simp]: "norm_event (demo_event w q prev) = demo_event w q prev"
  by (simp add: norm_event_def demo_event_def)

lemma demo_line: "6 * (length w + length prev) < 10000 \<Longrightarrow> length (event_line (demo_event w q prev)) < maxLine"
  using event_line_length [of "demo_event w q prev"]
  by (simp add: demo_event_def payload_size_def demo_sha_def maxLine_def)

lemma demo_request_ok: "ascii_string w \<Longrightarrow> request_ok (demo_ingest w)"
  by (simp add: request_ok_def demo_ingest_def shallow_def ascii_valid_utf8 ascii_string_def is_ascii_def)

lemma demo_fresh: "fresh_disk root Map.empty"
  by (simp add: fresh_disk_def contents_def)

lemma demo_commit:
  assumes "w \<noteq> []"
  shows "Commit demo_sha now AppendOK AppendOK (demo_ingest w) (s, d) =
    (Inr (demo_event w (st_seq s + 1) (prev_hash s w)), commit_state s (demo_event w (st_seq s + 1) (prev_hash s w)),
     append_line (worldPath (st_root s) w) (demo_event w (st_seq s + 1) (prev_hash s w))
       (append_line (globalPath (st_root s)) (demo_event w (st_seq s + 1) (prev_hash s w)) d))"
proof -
  have [simp]: "rq_WorldID (demo_ingest w) = w" "rq_Kind (demo_ingest w) = ''exec''" by (simp_all add: demo_ingest_def)
  show ?thesis using assms by (subst Commit_OK) (simp add: demo_new_event)
qed

lemma demo_first: "Commit demo_sha [] AppendOK AppendOK (demo_ingest ''w1'') (empty_store ''/data'', Map.empty) =
    (Inr (demo_event ''w1'' 1 GenesisPrev), demo_store, demo_disk)"
  by (simp add: demo_commit demo_store_def demo_disk_def empty_store_def prev_hash_def)

lemma demo_inv: "desk_inv demo_sha demo_store demo_disk [demo_event ''w1'' 1 GenesisPrev]"
proof -
  have "desk_inv demo_sha (empty_store ''/data'') Map.empty []"
    using demo_fresh desk_inv_empty by (simp add: fresh_disk_def empty_store_def)
  from desk_inv_commit [OF this demo_sum32 demo_first] show ?thesis
    by (simp add: demo_request_ok ascii_string_def is_ascii_def demo_line GenesisPrev_def empty_store_def)
qed

definition demo_env :: desk_env where
  "demo_env = \<lparr>de_now = [], de_global = AppendOK, de_world = AppendOK, de_read = ReadOK\<rparr>"

definition demo_members :: members where
  "demo_members = [(''world_id'', jstr ''w1''), (''kind'', jstr ''exec''), (''utc'', jstr ''t'')]"

definition demo_post :: Request where
  "demo_post = \<lparr>hr_method = ''POST'', hr_path = [''v1'', ''events''], hr_query = (\<lambda>k. []), hr_header = (\<lambda>k. []),
     hr_body = render (JObj demo_members), hr_broken = False\<rparr>"

lemma demo_decode_members:
  "ingest_of demo_members = (True, demo_ingest ''w1'')"
proof -
  have keys: "\<forall>m\<in>set demo_members. plain_key (fst m)" "distinct (map fst demo_members)"
    by (simp_all add: demo_members_def)
  note f = field_with_map_of [OF keys]
  have u: "valid_utf8 ''w1''" "valid_utf8 ''exec''" "valid_utf8 ''t''"
    by (simp_all add: ascii_valid_utf8 ascii_string_def is_ascii_def)
  have "field_str ''world_id'' [] demo_members = (True, ''w1'')" using u by (intro f) (auto simp: demo_members_def)
  moreover have "field_str ''kind'' [] demo_members = (True, ''exec'')" using u by (intro f) (auto simp: demo_members_def)
  moreover have "field_str ''utc'' [] demo_members = (True, ''t'')" using u by (intro f) (auto simp: demo_members_def)
  moreover have "field_str ''session_id'' [] demo_members = (True, [])" by (intro f) (auto simp: demo_members_def)
  moreover have "field_str ''policy_hash'' [] demo_members = (True, [])" by (intro f) (auto simp: demo_members_def)
  moreover have "field_raw ''payload'' None demo_members = (True, None)" by (intro f) (auto simp: demo_members_def)
  ultimately show ?thesis by (simp add: ingest_of_def demo_ingest_def)
qed

lemma demo_decode: "decode_ingest demo_post = Some (demo_ingest ''w1'')"
proof -
  have wf: "jwf (JObj demo_members)" by (simp add: demo_members_def)
  have "jdepth (JObj demo_members) \<le> maxNestingDepth" by (rule jdepth_JObj_le) (simp add: demo_members_def)
  with wf have "decode_body (render (JObj demo_members)) = BodyVal (JObj demo_members)"
    using parse_text_render [OF wf]
    by (auto simp: decode_body_def parse_text_def render_JObj split: option.splits if_splits)
  then show ?thesis
    by (simp add: decode_ingest_def request_json_def demo_post_def body_members_def as_members_def demo_decode_members
        del: render_JObj)
qed

lemma demo_step: "desk_step demo_sha (empty_store ''/data'', Map.empty) (demo_store, demo_disk)"
proof (rule desk_step.request [where env = demo_env and r = demo_post and lib = "\<lambda>e. []"])
  show "good_env demo_env" by (simp add: good_env_def demo_env_def)
  show "line_fits demo_sha demo_env (empty_store ''/data'') demo_post"
    by (simp add: line_fits_def demo_decode demo_new_event demo_line empty_store_def prev_hash_def GenesisPrev_def)
  show "unat (st_seq (empty_store ''/data'')) + 1 < 2 ^ 64" by (simp add: empty_store_def)
  have "dispatch desk_routes demo_post = Serve HIngest []"
    by (simp add: dispatch_def desk_routes_def demo_post_def match_method_def)
  then show "desk_serve demo_sha (\<lambda>e. []) demo_env demo_post (empty_store ''/data'', Map.empty) =
      (writeJSON 201 (event_tree (demo_event ''w1'' 1 GenesisPrev)), demo_store, demo_disk)"
    by (simp add: desk_serve_def handleIngest_def demo_decode demo_env_def demo_first)
qed

lemma demo_run: "desk_run demo_sha (empty_store ''/data'', Map.empty) (demo_store, demo_disk)"
  using demo_step by (rule r_into_rtranclp [of "desk_step demo_sha"])

section \<open>The chains of the store\<close>

lemma LoadWorldChain_log:
  assumes inv: "desk_inv sha s d log" and l: "LoadWorldChain ReadOK w (s, d) = Inr sl"
  shows "items sl = world_log w log"
proof -
  have "\<forall>e\<in>set log. 0 < ev_Seq e" using inv by (simp add: desk_inv_def)
  then have "filter (\<lambda>e. 0 < ev_Seq e) (world_log w log) = world_log w log" by (intro filter_True) (simp add: world_log_def)
  then show ?thesis using ListWorld_SomeD(1) [OF inv, of w 0 sl] l by (simp add: LoadWorldChain_def)
qed






text \<open>At the witness the first page is read before the event is there and the second after it.\<close>

lemma demo_lists:
  "ListWorld ReadOK ''w1'' 0 (empty_store ''/data'', Map.empty) = Inr (Some [])"
  "ListWorld ReadOK ''w1'' 0 (demo_store, demo_disk) = Inr (Some [demo_event ''w1'' 1 GenesisPrev])"
proof -
  show "ListWorld ReadOK ''w1'' 0 (empty_store ''/data'', Map.empty) = Inr (Some [])"
    by (simp add: ListWorld_def open_scan_def)
  have own: "own_file ''w1'' [demo_event ''w1'' 1 GenesisPrev]" by (simp add: own_file_def demo_event_def)
  obtain sl where sl: "ListWorld ReadOK ''w1'' 0 (demo_store, demo_disk) = Inr sl"
    using ListWorld_log [OF demo_inv _ own, of 0] by auto
  moreover have "items sl = [demo_event ''w1'' 1 GenesisPrev]"
    using ListWorld_SomeD(1) [OF demo_inv sl] by (simp add: world_log_def demo_event_def)
  ultimately show "ListWorld ReadOK ''w1'' 0 (demo_store, demo_disk) = Inr (Some [demo_event ''w1'' 1 GenesisPrev])"
    by (cases sl) auto
qed


section \<open>Append only, whatever the kernel does\<close>

lemma appendFile_grows:
  "appendFile io p l d = (r, d') \<Longrightarrow> prefix (contents d q) (contents d' q) \<and> (q \<noteq> p \<longrightarrow> d' q = d q)"
  by (auto simp: appendFile_def Let_def contents_def split: append_io.splits if_splits)

lemma Commit_grows:
  assumes "Commit sha now io1 io2 req (s, d) = (res, s', d')"
  shows "st_root s' = st_root s \<and> prefix (contents d p) (contents d' p)
     \<and> (d' p \<noteq> d p \<longrightarrow> p = globalPath (st_root s) \<or> p = worldPath (st_root s) (rq_WorldID req))"
proof -
  have two: "prefix (contents d p) (contents d2 p)
      \<and> (d2 p \<noteq> d p \<longrightarrow> p = globalPath (st_root s) \<or> p = worldPath (st_root s) (rq_WorldID req))"
    if "appendFile io1 (globalPath (st_root s)) l d = (r1, d1)"
      and "appendFile io2 (worldPath (st_root s) (rq_WorldID req)) l d1 = (r2, d2)" for l r1 d1 r2 d2
    using appendFile_grows [OF that(1), of p] appendFile_grows [OF that(2), of p]
    by (auto intro: prefix_order.trans)
  show ?thesis
    using assms appendFile_grows [of io1 "globalPath (st_root s)" _ d _ _ p] two
    by (auto simp: Commit_unfold commit_state_def split: if_splits option.splits prod.splits)
qed

text \<open>
  C19: no request ever overwrites or removes what a file holds. For every request and every
  outcome of the kernel's calls, failures in the middle of an append included, each file keeps its
  contents as a prefix, and only the global file and world files change.
\<close>

theorem desk_append_only:
  assumes "desk_serve sha lib env r (s, d) = (resp, s', d')"
  shows "\<forall>p. prefix (contents d p) (contents d' p)
    \<and> (d' p = d p \<or> p = globalPath (st_root s) \<or> (\<exists>w. p = worldPath (st_root s) w))"
  using assms
proof (cases rule: desk_serve_cases)
  case (ingest req res)
  then show ?thesis using Commit_grows [of sha "de_now env" "de_global env" "de_world env" req s d res s' d'] by blast
qed simp

text \<open>At the witness the global append stops after three bytes.\<close>

definition demo_torn :: desk_env where
  "demo_torn = demo_env\<lparr>de_global := WriteFail 3 ''no space left on device''\<rparr>"

lemma demo_dispatch: "dispatch desk_routes demo_post = Serve HIngest []"
  by (simp add: dispatch_def desk_routes_def demo_post_def match_method_def)

lemma demo_torn_serve:
  "desk_serve demo_sha (\<lambda>e. []) demo_torn demo_post (demo_store, demo_disk) =
     (httpError 400 ''no space left on device'', demo_store,
      demo_disk(globalPath ''/data'' \<mapsto> contents demo_disk (globalPath ''/data'')
        @ take 3 (event_line (demo_event ''w1'' 2 (prev_hash demo_store ''w1'')) @ [nl])))"
proof -
  have [simp]: "rq_WorldID (demo_ingest ''w1'') = ''w1''" "rq_Kind (demo_ingest ''w1'') = ''exec''"
    "st_seq demo_store = 1" "st_root demo_store = ''/data''"
    by (simp_all add: demo_ingest_def demo_store_def commit_state_def demo_event_def empty_store_def)
  show ?thesis
    by (simp add: desk_serve_def handleIngest_def demo_dispatch demo_decode Commit_unfold demo_new_event
        demo_torn_def demo_env_def appendFile_def)
qed

theorem desk_append_only_witness:
  "\<forall>p. prefix (contents demo_disk p) (contents (demo_disk(globalPath ''/data'' \<mapsto> contents demo_disk (globalPath ''/data'')
        @ take 3 (event_line (demo_event ''w1'' 2 (prev_hash demo_store ''w1'')) @ [nl]))) p)
    \<and> ((demo_disk(globalPath ''/data'' \<mapsto> contents demo_disk (globalPath ''/data'')
        @ take 3 (event_line (demo_event ''w1'' 2 (prev_hash demo_store ''w1'')) @ [nl]))) p = demo_disk p
      \<or> p = globalPath (st_root demo_store) \<or> (\<exists>w. p = worldPath (st_root demo_store) w))"
  by (rule desk_append_only [OF demo_torn_serve])

section \<open>The records of a chain cannot be changed\<close>

text \<open>What the hash of an event covers: all its fields, the payload up to white space and escaping.\<close>

definition payload_text :: "Event \<Rightarrow> string" where
  "payload_text e = (case ev_Payload e of None \<Rightarrow> ''null'' | Some p \<Rightarrow> p)"

definition same_record :: "Event \<Rightarrow> Event \<Rightarrow> bool" where
  "same_record e e' \<longleftrightarrow> ev_UTC e = ev_UTC e' \<and> ev_Seq e = ev_Seq e' \<and> ev_WorldID e = ev_WorldID e'
     \<and> ev_SessionID e = ev_SessionID e' \<and> ev_PolicyHash e = ev_PolicyHash e' \<and> ev_Kind e = ev_Kind e'
     \<and> ev_PrevHash e = ev_PrevHash e' \<and> ev_EventHash e = ev_EventHash e'
     \<and> (payload_text e = [] \<longleftrightarrow> payload_text e' = [])
     \<and> (payload_text e \<noteq> [] \<longrightarrow> raw_tree (payload_text e) = raw_tree (payload_text e'))"

definition hashed_texts :: "Event list \<Rightarrow> string set" where
  "hashed_texts es = {b. \<exists>e\<in>set es. marshal_material (material_of e) = Some b}"

text \<open>Two texts of the chains with one hash, or a text whose hash is the genesis.\<close>

definition hash_broken :: "(string \<Rightarrow> string) \<Rightarrow> string set \<Rightarrow> bool" where
  "hash_broken sha T \<longleftrightarrow> (\<exists>a\<in>T. \<exists>b\<in>T. a \<noteq> b \<and> sha a = sha b) \<or> (\<exists>a\<in>T. hex_encode (sha a) = GenesisPrev)"

lemma hashed_texts_snoc: "hashed_texts (es @ [e]) = hashed_texts es \<union> {b. marshal_material (material_of e) = Some b}"
  by (auto simp: hashed_texts_def)

lemma hash_broken_mono: "hash_broken sha T \<Longrightarrow> T \<subseteq> U \<Longrightarrow> hash_broken sha U"
  unfolding hash_broken_def by blast

lemma same_hash_same_record:
  assumes "event_hash_of sha e = Some h" and "event_hash_of sha e' = Some h"
    and "ev_EventHash e = h" and "ev_EventHash e' = h" and "utf8_event e" and "utf8_event e'"
    and T: "hashed_texts [e, e'] \<subseteq> T"
  shows "same_record e e' \<or> hash_broken sha T"
proof -
  obtain b b' where b: "marshal_material (material_of e) = Some b" "marshal_material (material_of e') = Some b'"
    and h: "h = hex_encode (sha b)" "h = hex_encode (sha b')"
    using assms(1,2) by (auto simp: event_hash_of_material)
  show ?thesis
  proof (cases "b = b'")
    case True
    with b have b': "marshal_material (material_of e') = Some b" by simp
    have u: "utf8_material (material_of e)" "utf8_material (material_of e')"
      using assms(5,6) by (auto simp: utf8_material_def utf8_event_def material_of_def)
    have "cm_Payload (material_of x) = Some (payload_text x)" for x
      by (simp add: material_of_def payload_text_def)
    from marshal_material_inject [OF b(1) b' u this this] show ?thesis
      using assms(3,4) by (auto simp: same_record_def material_of_def)
  next
    case False
    moreover have "b \<in> T" "b' \<in> T" using b T by (auto simp: hashed_texts_def)
    moreover have "sha b = sha b'" using h by simp
    ultimately show ?thesis unfolding hash_broken_def by blast
  qed
qed

lemma linked_same_tip:
  assumes "linked sha GenesisPrev es" and "linked sha GenesisPrev es'" and "tip_of GenesisPrev es = tip_of GenesisPrev es'"
    and "\<forall>e\<in>set es \<union> set es'. utf8_event e"
  shows "list_all2 same_record es es' \<or> hash_broken sha (hashed_texts es \<union> hashed_texts es')"
  using assms
proof (induction es arbitrary: es' rule: rev_induct)
  case Nil
  show ?case
  proof (cases es' rule: rev_cases)
    case (snoc ys e')
    with Nil have "event_hash_of sha e' = Some GenesisPrev" by (auto simp: linked_append)
    then show ?thesis by (auto simp: snoc hash_broken_def hashed_texts_snoc event_hash_of_material)
  qed simp
next
  case (snoc e xs)
  show ?case
  proof (cases es' rule: rev_cases)
    case Nil
    with snoc.prems have "event_hash_of sha e = Some GenesisPrev" by (auto simp: linked_append)
    then show ?thesis by (auto simp: hash_broken_def hashed_texts_snoc event_hash_of_material)
  next
    case es': (snoc ys e')
    let ?T = "hashed_texts (xs @ [e]) \<union> hashed_texts es'"
    have "same_record e e' \<or> hash_broken sha ?T"
      using snoc.prems es' by (intro same_hash_same_record) (auto simp: linked_append hashed_texts_def)
    moreover have "list_all2 same_record xs ys \<or> hash_broken sha ?T" if "same_record e e'"
    proof -
      have "tip_of GenesisPrev xs = tip_of GenesisPrev ys"
        using snoc.prems es' that by (simp add: linked_append same_record_def)
      then have "list_all2 same_record xs ys \<or> hash_broken sha (hashed_texts xs \<union> hashed_texts ys)"
        using snoc.prems es' by (intro snoc.IH) (auto simp: linked_append)
      moreover have "hashed_texts xs \<union> hashed_texts ys \<subseteq> ?T" by (auto simp: es' hashed_texts_snoc)
      ultimately show ?thesis using hash_broken_mono by blast
    qed
    ultimately show ?thesis by (auto simp: es' intro: list_all2_appendI)
  qed
qed

text \<open>
  C21: the chain is tamper-evident. Two lists of events that both pass \<open>VerifyChain\<close> and end in the
  same tip hold the same records one by one (every field, the payload up to white space and
  escaping), unless the two lists themselves exhibit a collision of SHA-256 or a text that hashes to
  the genesis value.
\<close>

theorem chain_tamper_evident:
  assumes "VerifyChain sha es = None" and "VerifyChain sha es' = None"
    and "tip_of GenesisPrev es = tip_of GenesisPrev es'" and "\<forall>e\<in>set es \<union> set es'. utf8_event e"
  shows "list_all2 same_record es es' \<or> hash_broken sha (hashed_texts es \<union> hashed_texts es')"
  using assms by (intro linked_same_tip) (simp_all add: VerifyChain_def verify_from_linked)

lemma demo_event_utf8: "utf8_event (demo_event ''w1'' 1 GenesisPrev)"
  by (simp add: utf8_event_def demo_event_def ascii_valid_utf8) (simp add: ascii_valid_utf8 ascii_string_def is_ascii_def)

theorem chain_tamper_evident_witness:
  "let es = [demo_event ''w1'' 1 GenesisPrev]
   in list_all2 same_record es es \<or> hash_broken demo_sha (hashed_texts es \<union> hashed_texts es)"
  unfolding Let_def
  by (rule chain_tamper_evident) (use demo_linked [of GenesisPrev "''w1''" 1] demo_event_utf8 in
      \<open>simp_all add: VerifyChain_def verify_from_linked\<close>)

section \<open>What one commit does\<close>



text \<open>
  C30: the errors of a commit. Whatever the kernel answers, a failed commit moves no tip, and the
  counter moves only when the global append had succeeded and the world append had not; a request
  that is refused or does not encode writes nothing.
\<close>

theorem commit_error_contract:
  assumes "Commit sha now io1 io2 req (s, d) = (Inl e, s', d')"
  shows "st_tip s' = st_tip s \<and> st_root s' = st_root s
    \<and> (st_seq s' = st_seq s \<or> (\<exists>e'. e = WorldAppend e') \<and> st_seq s' = st_seq s + 1)
    \<and> (e \<in> {WorldIDRequired, KindRequired, MarshalError} \<longrightarrow> d' = d)"
  using assms new_event_SomeD(1) [of sha now s req]
  by (auto simp: Commit_unfold appendFile_def Let_def split: if_splits option.splits prod.splits append_io.splits)
    (metis draft_event_simps(1))+

theorem commit_error_contract_witness:
  "snd (Commit demo_sha [] AppendOK AppendOK (demo_ingest []) (demo_store, demo_disk)) = (demo_store, demo_disk)"
proof -
  have c: "Commit demo_sha [] AppendOK AppendOK (demo_ingest []) (demo_store, demo_disk) = (Inl WorldIDRequired, demo_store, demo_disk)"
    by (simp add: Commit_unfold demo_ingest_def)
  show ?thesis using commit_error_contract [OF c] c by simp
qed

text \<open>
  C31: a world identifier cannot leave the data directory. Whatever bytes it has, its file is one
  plain name (not empty, without a slash, neither \<open>.\<close> nor \<open>..\<close>) directly under the directory
  \<open>worlds\<close> of the root, and it is never the global file.
\<close>

theorem world_path_confined:
  "\<exists>P. \<forall>w. worldPath root w \<noteq> globalPath root \<and>
     (\<exists>name. plain_elem name \<and> worldPath root w = P @ ''worlds/'' @ name)"
proof -
  obtain P where P: "\<And>es. es \<noteq> [] \<Longrightarrow> \<forall>e\<in>set es. plain_elem e \<Longrightarrow> path_join (root # es) = P @ join_with ''/'' es"
    using path_join_prefix by blast
  have "worldPath root w = P @ ''worlds/'' @ (sanitizeID w @ ''.jsonl'')" for w
    using P [of "[''worlds'', sanitizeID w @ ''.jsonl'']"] world_file_plain [of w]
    by (simp add: worldPath_def plain_elem_def)
  then show ?thesis using world_file_plain globalPath_not_world by metis
qed

text \<open>
  C32: an event survives its line. Encoding an event with UTF-8 strings and a payload within the
  nesting bound and decoding the line gives the event back, its payload in compact form.
\<close>

theorem event_line_roundtrip:
  assumes "marshal_event e = Some l" and "utf8_event e" and "shallow (ev_Payload e)"
  shows "unmarshal_event l = Some (norm_event e) \<and> nl \<notin> set l"
  using unmarshal_marshal_event [OF assms] clean_bytes_nl [OF marshal_event_clean [OF assms(1)]] by blast

theorem event_line_roundtrip_witness:
  "unmarshal_event (event_line (demo_event ''w1'' 1 GenesisPrev)) = Some (norm_event (demo_event ''w1'' 1 GenesisPrev))
    \<and> nl \<notin> set (event_line (demo_event ''w1'' 1 GenesisPrev))"
proof (rule event_line_roundtrip [OF _ demo_event_utf8])
  show "marshal_event (demo_event ''w1'' 1 GenesisPrev) = Some (event_line (demo_event ''w1'' 1 GenesisPrev))"
    by (simp add: event_line_def encode_event_defs demo_event_def)
  show "shallow (ev_Payload (demo_event ''w1'' 1 GenesisPrev))" by (simp add: shallow_def demo_event_def)
qed

section \<open>Where the store breaks\<close>

text \<open>
  two worlds whose identifiers sanitize alike destroy each other's history. Once the log has an
  event of \<open>w\<close>, a successful commit for another world \<open>v\<close> with the same sanitized identifier leaves
  both unreadable: every read of either fails as a corrupt file.
\<close>

theorem sanitized_collision_blocks_both:
  assumes inv: "desk_inv sha s d log" and sha: "sum32 sha" and seq: "unat (st_seq s) + 1 < 2 ^ 64"
    and c: "Commit sha now AppendOK AppendOK req (s, d) = (Inr ev, s', d')"
    and req: "request_ok req" "valid_utf8 now" "length (event_line ev) < maxLine"
    and e: "e \<in> set log" "ev_WorldID e \<noteq> rq_WorldID req" "ev_WorldID e \<noteq> []"
    and clash: "sanitizeID (ev_WorldID e) = sanitizeID (rq_WorldID req)"
  shows "\<forall>w\<in>{ev_WorldID e, rq_WorldID req}. \<forall>cursor. ListWorld ReadOK w cursor (s', d') = Inl ForeignWorld"
proof -
  have inv': "desk_inv sha s' d' (log @ [norm_event ev])" by (rule desk_inv_commit [OF inv sha c req seq])
  have ev: "new_event sha now s req = Some ev" and w: "rq_WorldID req \<noteq> []" using c by (auto simp: Commit_OK)
  have wid: "ev_WorldID ev = rq_WorldID req" using new_event_SomeD(1) [OF ev] by (metis draft_event_simps(2))
  have "\<not> own_file x (log @ [norm_event ev])" if "x \<in> {ev_WorldID e, rq_WorldID req}" for x
  proof -
    have "e \<in> set (log @ [norm_event ev])" "norm_event ev \<in> set (log @ [norm_event ev])" using e by simp_all
    moreover have "ev_WorldID (norm_event ev) = rq_WorldID req" by (simp add: wid)
    ultimately show ?thesis using that e(2) clash unfolding own_file_def by (metis insertE singletonD)
  qed
  moreover have "x \<noteq> []" if "x \<in> {ev_WorldID e, rq_WorldID req}" for x using that w e(3) by auto
  ultimately show ?thesis by (intro ballI allI ListWorld_foreign [OF inv']) simp_all
qed

text \<open>At the witness the two identifiers are \<open>w1\<close> with a trailing underscore and with a trailing slash.\<close>

lemma demo_sanitize: "sanitizeID ''w_'' = ''w_''" "sanitizeID ''w/'' = ''w_''"
  by (simp_all add: sanitizeID_def safe_rune_def id_char_def is_ascii_def is_digit_def)

definition demo_under :: "Store \<times> disk" where
  "demo_under = snd (Commit demo_sha [] AppendOK AppendOK (demo_ingest ''w_'') (empty_store ''/data'', Map.empty))"

definition demo_slash :: "Store \<times> disk" where
  "demo_slash = snd (Commit demo_sha [] AppendOK AppendOK (demo_ingest ''w/'') demo_under)"

lemma demo_under_inv: "desk_inv demo_sha (fst demo_under) (snd demo_under) [demo_event ''w_'' 1 GenesisPrev]"
proof -
  have "desk_inv demo_sha (empty_store ''/data'') Map.empty []"
    using demo_fresh desk_inv_empty by (simp add: fresh_disk_def empty_store_def)
  from desk_inv_commit [OF this demo_sum32 demo_commit [of "''w_''" "[]"]] show ?thesis
    by (simp add: demo_under_def demo_commit demo_request_ok ascii_string_def is_ascii_def demo_line GenesisPrev_def
        empty_store_def prev_hash_def)
qed

theorem sanitized_collision_blocks_both_witness:
  "ListWorld ReadOK ''w_'' 0 demo_slash = Inl ForeignWorld \<and> ListWorld ReadOK ''w/'' 0 demo_slash = Inl ForeignWorld"
proof -
  have "\<forall>w\<in>{ev_WorldID (demo_event ''w_'' 1 GenesisPrev), rq_WorldID (demo_ingest ''w/'')}.
     \<forall>cursor. ListWorld ReadOK w cursor (fst demo_slash, snd demo_slash) = Inl ForeignWorld"
  proof (rule sanitized_collision_blocks_both [OF demo_under_inv demo_sum32])
  have under: "fst demo_under = commit_state (empty_store ''/data'') (demo_event ''w_'' 1 GenesisPrev)"
    by (simp add: demo_under_def demo_commit empty_store_def prev_hash_def)
  then have seq: "st_seq (fst demo_under) = 1" and prev: "prev_hash (fst demo_under) ''w/'' = GenesisPrev"
    by (simp_all add: commit_state_def demo_event_def empty_store_def prev_hash_def)
  have "Commit demo_sha [] AppendOK AppendOK (demo_ingest ''w/'') (fst demo_under, snd demo_under) =
      (Inr (demo_event ''w/'' 2 GenesisPrev), demo_slash)"
    using demo_commit [of "''w/''" "[]" "fst demo_under" "snd demo_under"] by (simp add: demo_slash_def seq prev)
  then show "Commit demo_sha [] AppendOK AppendOK (demo_ingest ''w/'') (fst demo_under, snd demo_under) =
      (Inr (demo_event ''w/'' 2 GenesisPrev), fst demo_slash, snd demo_slash)" by simp
  show "unat (st_seq (fst demo_under)) + 1 < 2 ^ 64" by (simp add: seq)
  show "request_ok (demo_ingest ''w/'')" by (simp add: demo_request_ok ascii_string_def is_ascii_def)
  show "length (event_line (demo_event ''w/'' 2 GenesisPrev)) < maxLine" by (simp add: demo_line GenesisPrev_def)
  qed (simp_all add: demo_event_def demo_ingest_def demo_sanitize)
  then show ?thesis by (simp add: demo_event_def demo_ingest_def)
qed

text \<open>
  C33: after a failed world append the tip is not that of the global file. The event is in the
  global file and its number is used, but the tip in memory is the old one, so the next event of
  the world links to the same predecessor: the global file then holds a fork of the chain.
\<close>

theorem world_append_failure_forks_chain:
  assumes "rq_WorldID req \<noteq> []" and "rq_Kind req \<noteq> []" and "new_event sha now s req = Some ev"
  shows "\<exists>s1 d1. Commit sha now AppendOK (OpenFail msg) req (s, d) = (Inl (WorldAppend (SysError msg)), s1, d1)
    \<and> contents d1 (globalPath (st_root s)) = contents d (globalPath (st_root s)) @ event_line ev @ [nl]
    \<and> (\<forall>now' req' ev'. rq_WorldID req' = rq_WorldID req \<longrightarrow> new_event sha now' s1 req' = Some ev' \<longrightarrow>
         ev_PrevHash ev' = ev_PrevHash ev \<and> ev_Seq ev' = ev_Seq ev + 1)"
proof -
  let ?s = "s\<lparr>st_seq := ev_Seq ev\<rparr>"
  have f: "ev_PrevHash e = prev_hash t (rq_WorldID q)" "ev_Seq e = st_seq t + 1" if "new_event sha n t q = Some e" for e t n q
    using new_event_SomeD(1) [OF that] by (metis draft_event_simps)+
  have "prev_hash ?s w = prev_hash s w" for w by (simp add: prev_hash_def)
  then have step: "ev_PrevHash ev' = ev_PrevHash ev \<and> ev_Seq ev' = ev_Seq ev + 1"
    if "rq_WorldID req' = rq_WorldID req" "new_event sha now' ?s req' = Some ev'" for now' req' ev'
    using f [OF that(2)] f [OF assms(3)] that(1) by simp
  let ?d = "d(globalPath (st_root s) \<mapsto> contents d (globalPath (st_root s)) @ event_line ev @ [nl])"
  have "Commit sha now AppendOK (OpenFail msg) req (s, d) = (Inl (WorldAppend (SysError msg)), ?s, ?d)"
    using assms by (simp add: Commit_unfold appendFile_OK appendFile_open)
  moreover have "contents ?d (globalPath (st_root s)) = contents d (globalPath (st_root s)) @ event_line ev @ [nl]"
    by (simp add: contents_def)
  ultimately show ?thesis using step by blast
qed

theorem world_append_failure_forks_chain_witness:
  "\<exists>s1 d1 ev'. Commit demo_sha [] AppendOK (OpenFail ''too many open files'') (demo_ingest ''w1'') (demo_store, demo_disk)
      = (Inl (WorldAppend (SysError ''too many open files'')), s1, d1)
    \<and> new_event demo_sha [] s1 (demo_ingest ''w1'') = Some ev'
    \<and> ev_PrevHash ev' = ev_PrevHash (demo_event ''w1'' (st_seq demo_store + 1) (prev_hash demo_store ''w1''))"
proof -
  have "rq_WorldID (demo_ingest ''w1'') \<noteq> []" and "rq_Kind (demo_ingest ''w1'') \<noteq> []" by (simp_all add: demo_ingest_def)
  from world_append_failure_forks_chain [where sha = demo_sha and now = "[]" and s = demo_store and d = demo_disk
      and msg = "''too many open files''", OF this demo_new_event]
  show ?thesis using demo_new_event [of "[]" _ "''w1''"] by blast
qed

text \<open>
  a failed sync reuses the sequence number. When the line reaches the global file but
  \<open>Sync\<close> reports an error, the counter is taken back, so the next event, of whatever world, is
  written to the same file with the same number.
\<close>

theorem sync_failure_reuses_seq:
  assumes "rq_WorldID req \<noteq> []" and "rq_Kind req \<noteq> []" and "new_event sha now s req = Some ev"
  shows "\<exists>d1. Commit sha now (SyncFail msg) io2 req (s, d) = (Inl (SysError msg), s, d1)
    \<and> contents d1 (globalPath (st_root s)) = contents d (globalPath (st_root s)) @ event_line ev @ [nl]
    \<and> (\<forall>now' req' ev'. new_event sha now' s req' = Some ev' \<longrightarrow> ev_Seq ev' = ev_Seq ev)"
proof -
  have "ev_Seq e = st_seq s + 1" if "new_event sha n s q = Some e" for e n q
    using new_event_SomeD(1) [OF that] by (metis draft_event_simps(1))
  with assms show ?thesis
    by (auto simp: Commit_unfold appendFile_def Let_def contents_def)
qed

theorem sync_failure_reuses_seq_witness:
  "\<exists>d1 ev'. Commit demo_sha [] (SyncFail ''input/output error'') AppendOK (demo_ingest ''w1'') (demo_store, demo_disk)
      = (Inl (SysError ''input/output error''), demo_store, d1)
    \<and> new_event demo_sha [] demo_store (demo_ingest ''w2'') = Some ev'
    \<and> ev_Seq ev' = ev_Seq (demo_event ''w1'' (st_seq demo_store + 1) (prev_hash demo_store ''w1''))"
proof -
  have "rq_WorldID (demo_ingest ''w1'') \<noteq> []" and "rq_Kind (demo_ingest ''w1'') \<noteq> []" by (simp_all add: demo_ingest_def)
  from sync_failure_reuses_seq [where sha = demo_sha and now = "[]" and s = demo_store and d = demo_disk
      and msg = "''input/output error''" and ?io2.0 = AppendOK, OF this demo_new_event]
  show ?thesis using demo_new_event [of "[]" demo_store "''w2''"] by blast
qed

text \<open>
  one long event makes the store impossible to open. A commit accepts an event whose line is as
  long as the scanner's limit of 4 MiB or longer, and acknowledges it; from then on every start of
  the desk on that directory fails.
\<close>

theorem long_event_bricks_store:
  assumes inv: "desk_inv sha s d log"
    and c: "Commit sha now AppendOK AppendOK req (s, d) = (Inr ev, s', d')" and "maxLine \<le> length (event_line ev)"
  shows "NewStore None None ReadOK (st_root s) d' = Inl TooLong"
proof (rule NewStore_long)
  have d': "d' = append_line (worldPath (st_root s) (rq_WorldID req)) ev (append_line (globalPath (st_root s)) ev d)"
    and ev: "new_event sha now s req = Some ev"
    using c by (auto simp: Commit_OK)
  have "contents d (globalPath (st_root s)) = file_of log" using inv by (simp add: desk_inv_def)
  then show "d' (globalPath (st_root s)) = Some (file_of log @ event_line ev @ nl # [])"
    by (simp add: d' append_line_def contents_def)
  show "\<forall>e\<in>set log. storable e" using inv by (simp add: desk_inv_def)
  show "nl \<notin> set (event_line ev)" by (rule clean_bytes_nl [OF marshal_event_clean [OF new_event_SomeD(3) [OF ev]]])
qed (rule assms(3))

lemma length_quote_ascii: "list_all (\<lambda>c. c = CHR ''a'') s \<Longrightarrow> quote s = s"
proof (induction s)
  case (Cons c s)
  then have "esc_rune ([CHR ''a''], True) = ''a''" by (simp add: encode_rune_def esc_ascii_def)
  with Cons show ?case by (simp add: quote_def is_ascii_def del: esc_rune.simps)
qed (simp add: quote_def)

text \<open>At the witness the identifier of the world is as long as the limit.\<close>

definition demo_long :: string where
  "demo_long = replicate maxLine (CHR ''a'')"

lemma demo_long_line: "maxLine \<le> length (event_line (demo_event demo_long 1 GenesisPrev))"
proof -
  have q: "quote demo_long = demo_long" by (rule length_quote_ascii) (simp add: demo_long_def list_all_iff)
  have len: "length (member_text (''world_id'', jstr demo_long)) \<ge> maxLine"
    by (simp add: length_member jstr_def q str_lit_def) (simp add: demo_long_def)
  have "event_line (demo_event demo_long 1 GenesisPrev) =
      render (JObj (event_members (demo_event demo_long 1 GenesisPrev) [(''payload'', JNull)]))"
    by (simp add: event_line_def marshal_event_def event_tree_members omit_raw_def demo_event_def del: render_JObj)
  also have "length \<dots> \<ge> length (member_text (''world_id'', jstr demo_long))"
    by (simp add: render_JObj event_members_def omit_str_def demo_event_def)
  finally show ?thesis using len by (rule order_trans [rotated])
qed

theorem long_event_bricks_store_witness:
  "NewStore None None ReadOK (st_root (empty_store ''/data''))
     (snd (snd (Commit demo_sha [] AppendOK AppendOK (demo_ingest demo_long) (empty_store ''/data'', Map.empty)))) = Inl TooLong"
proof -
  have ne: "demo_long \<noteq> []" by (simp add: demo_long_def maxLine_def)
  have inv: "desk_inv demo_sha (empty_store ''/data'') Map.empty []"
    using demo_fresh desk_inv_empty by (simp add: fresh_disk_def empty_store_def)
  show ?thesis
    using long_event_bricks_store [OF inv demo_commit [OF ne, of "[]"]] demo_long_line ne
    by (simp add: demo_commit empty_store_def prev_hash_def)
qed

end
