(* ===== verification/GoTime.thy ===== *)
theory GoTime
  imports GoStrings
begin

text \<open>
  Durations of Go's \<open>time\<close> package: nanoseconds in a signed 64-bit integer, their printing
  (\<open>Duration.String\<close>) and their parsing (\<open>time.ParseDuration\<close>). A fraction of a unit is computed
  in floating point by the library; that product is the parameter \<open>fmul f unit k\<close>, for \<open>f\<close> over
  ten to the \<open>k\<close> units.
\<close>

definition second :: int where "second = 1000000000"
definition minute :: int where "minute = 60 * second"
definition hour :: int where "hour = 60 * minute"

section \<open>Printing\<close>

text \<open>\<open>k\<close> digits of a number, and those of a fraction with the trailing zeros and a bare point dropped.\<close>

fun pad_digits :: "nat \<Rightarrow> nat \<Rightarrow> string" where
  "pad_digits 0 n = []"
| "pad_digits (Suc k) n = pad_digits k (n div 10) @ [digit_char (n mod 10)]"

definition frac_string :: "nat \<Rightarrow> nat \<Rightarrow> string" where
  "frac_string k n = (let ds = trim_right (CHR ''0'') (pad_digits k n) in if ds = [] then [] else CHR ''.'' # ds)"

definition with_frac :: "nat \<Rightarrow> nat \<Rightarrow> string" where
  "with_frac k u = show_nat (u div 10 ^ k) @ frac_string k (u mod 10 ^ k)"

definition duration_string :: "int \<Rightarrow> string" where
  "duration_string d =
     (let u = nat \<bar>d\<bar>;
          secs = u div 1000000000;
          body = (if u = 0 then ''0s''
            else if u < 1000 then show_nat u @ ''ns''
            else if u < 1000000 then with_frac 3 u @ [CHR 0xC2, CHR 0xB5, CHR ''s'']
            else if u < 1000000000 then with_frac 6 u @ ''ms''
            else (if 3600 \<le> secs then show_nat (secs div 3600) @ ''h'' else [])
              @ (if 60 \<le> secs then show_nat (secs div 60 mod 60) @ ''m'' else [])
              @ show_nat (secs mod 60) @ frac_string 9 (u mod 1000000000) @ ''s'')
      in if d < 0 then CHR ''-'' # body else body)"

section \<open>Parsing\<close>

definition unit_value :: "string \<Rightarrow> nat option" where
  "unit_value s =
     (if s = ''ns'' then Some 1
      else if s = ''us'' \<or> s = [CHR 0xC2, CHR 0xB5, CHR ''s''] \<or> s = [CHR 0xCE, CHR 0xBC, CHR ''s''] then Some 1000
      else if s = ''ms'' then Some 1000000
      else if s = ''s'' then Some 1000000000
      else if s = ''m'' then Some 60000000000
      else if s = ''h'' then Some 3600000000000
      else None)"

text \<open>
  The fraction's digits: those beyond what fits are ignored, and so is the scale they would have;
  the pair is the number so far and how many digits it has.
\<close>

fun lead_fraction :: "nat \<Rightarrow> nat \<Rightarrow> bool \<Rightarrow> string \<Rightarrow> nat \<times> nat" where
  "lead_fraction x k ov [] = (x, k)"
| "lead_fraction x k ov (c # cs) =
     (if ov then lead_fraction x k ov cs
      else if (2 ^ 63 - 1) div 10 < x then lead_fraction x k True cs
      else let y = 10 * x + digit_val c
           in if 2 ^ 63 < y then lead_fraction x k True cs else lead_fraction y (Suc k) False cs)"

definition unit_char :: "char \<Rightarrow> bool" where
  "unit_char c \<longleftrightarrow> c \<noteq> CHR ''.'' \<and> \<not> is_digit c"

text \<open>One number with its unit: the value in nanoseconds and the rest of the text.\<close>

definition parse_component :: "(nat \<Rightarrow> nat \<Rightarrow> nat \<Rightarrow> nat) \<Rightarrow> string \<Rightarrow> (nat \<times> string) option" where
  "parse_component fmul s =
     (let ip = takeWhile is_digit s; r = dropWhile is_digit s; v = digits_val 0 ip;
          dot = (r \<noteq> [] \<and> hd r = CHR ''.'');
          fp = (if dot then takeWhile is_digit (tl r) else []);
          r' = (if dot then dropWhile is_digit (tl r) else r);
          u = takeWhile unit_char r'; rest = dropWhile unit_char r'; (f, k) = lead_fraction 0 0 False fp
      in if 2 ^ 63 < v \<or> ip = [] \<and> fp = [] \<or> u = [] then None
         else case unit_value u of None \<Rightarrow> None
           | Some n \<Rightarrow>
               if 2 ^ 63 div n < v then None
               else let w = v * n + (if 0 < f then fmul f n k else 0) in if 2 ^ 63 < w then None else Some (w, rest))"

lemma parse_component_shorter: "parse_component fmul s = Some (v, r) \<Longrightarrow> length r < length s"
proof -
  assume *: "parse_component fmul s = Some (v, r)"
  let ?r = "dropWhile is_digit s"
  let ?r' = "if ?r \<noteq> [] \<and> hd ?r = CHR ''.'' then dropWhile is_digit (tl ?r) else ?r"
  from * have "r = dropWhile unit_char ?r'" and ne: "takeWhile unit_char ?r' \<noteq> []"
    by (auto simp: parse_component_def Let_def split: option.splits if_splits prod.splits)
  moreover from ne have "length (dropWhile unit_char ?r') < length ?r'"
    by (metis takeWhile_dropWhile_id length_append less_add_same_cancel2 length_greater_0_conv)
  moreover have "length ?r' \<le> length s"
    using length_dropWhile_le [of is_digit "tl ?r"] length_dropWhile_le [of is_digit s] by auto
  ultimately show ?thesis by (simp only: less_le_trans)
qed

function parse_components :: "(nat \<Rightarrow> nat \<Rightarrow> nat \<Rightarrow> nat) \<Rightarrow> nat \<Rightarrow> string \<Rightarrow> nat option" where
  "parse_components fmul d s =
     (if s = [] then Some d
      else case parse_component fmul s of None \<Rightarrow> None
        | Some (v, r) \<Rightarrow> if 2 ^ 63 < d + v then None else parse_components fmul (d + v) r)"
  by pat_completeness auto
termination
  by (relation "measure (\<lambda>(fmul, d, s). length s)") (auto dest: parse_component_shorter)

declare parse_components.simps [simp del]

definition parse_duration :: "(nat \<Rightarrow> nat \<Rightarrow> nat \<Rightarrow> nat) \<Rightarrow> string \<Rightarrow> int option" where
  "parse_duration fmul s =
     (let sign = (s \<noteq> [] \<and> (hd s = CHR ''-'' \<or> hd s = CHR ''+'')); neg = (s \<noteq> [] \<and> hd s = CHR ''-'');
          t = (if sign then tl s else s)
      in if t = ''0'' then Some 0
         else if t = [] then None
         else case parse_components fmul 0 t of None \<Rightarrow> None
           | Some d \<Rightarrow> if neg then Some (- int d) else if 2 ^ 63 - 1 < d then None else Some (int d))"

section \<open>What is printed is parsed\<close>

text \<open>A whole number of one unit at the front of a text.\<close>

lemma parse_component_unit:
  assumes u: "unit_value u = Some n" "list_all unit_char u" "u \<noteq> []" and le: "v * n \<le> 2 ^ 63"
    and rest: "rest = [] \<or> \<not> unit_char (hd rest)"
  shows "parse_component fmul (show_nat v @ u @ rest) = Some (v * n, rest)"
proof -
  obtain c cs where c: "u = c # cs" using u(3) by (cases u) auto
  have d: "takeWhile is_digit (show_nat v @ u @ rest) = show_nat v" "dropWhile is_digit (show_nat v @ u @ rest) = u @ rest"
    using u(2) c by (simp_all add: takeWhile_append_stop dropWhile_append_stop unit_char_def)
  have dot: "hd (u @ rest) \<noteq> CHR ''.''" using u(2) c by (simp add: unit_char_def)
  have un: "takeWhile unit_char (u @ rest) = u" "dropWhile unit_char (u @ rest) = rest"
    using u(2) rest by (cases rest; simp add: takeWhile_append_stop dropWhile_append_stop)+
  have n: "0 < n" using u(1) by (auto simp: unit_value_def split: if_splits)
  have "v \<le> 2 ^ 63 div n" using le n by (simp add: less_eq_div_iff_mult_less_eq)
  moreover have "v \<le> v * n" using n by simp
  ultimately have "\<not> 2 ^ 63 < v" "\<not> 2 ^ 63 div n < v" using le by linarith+
  with d dot un u le show ?thesis by (simp add: parse_component_def Let_def)
qed

lemma parse_components_unit:
  assumes "unit_value u = Some n" "list_all unit_char u" "u \<noteq> []" and "v * n \<le> 2 ^ 63" and "d + v * n \<le> 2 ^ 63"
    and "rest = [] \<or> \<not> unit_char (hd rest)"
  shows "parse_components fmul d (show_nat v @ u @ rest) = parse_components fmul (d + v * n) rest"
  using parse_component_unit [OF assms(1-4) assms(6), of fmul] assms(5)
  by (subst parse_components.simps) simp

lemma show_nat_not_unit: "\<not> unit_char (hd (show_nat n @ s))"
  using show_nat_digits [of "hd (show_nat n)" n] by (simp add: unit_char_def)

lemma units: "unit_value ''h'' = Some 3600000000000" "unit_value ''m'' = Some 60000000000" "unit_value ''s'' = Some 1000000000"
  "list_all unit_char ''h''" "list_all unit_char ''m''" "list_all unit_char ''s''"
  by (simp_all add: unit_value_def unit_char_def is_digit_def)

lemma frac_string_0: "frac_string 9 0 = []"
proof -
  have "digit_char 0 = CHR ''0''" by (simp add: digit_char_def char_of_eq_iff)
  then have "pad_digits k 0 = replicate k (CHR ''0'')" for k
    by (induction k) (simp_all add: replicate_append_same)
  then show ?thesis by (simp add: frac_string_def trim_right_def)
qed

text \<open>A whole number of seconds within the range survives printing and parsing.\<close>

lemma parse_duration_string:
  assumes "int n * second < 2 ^ 63"
  shows "parse_duration fmul (duration_string (int n * second)) = Some (int n * second)"
proof (cases "n = 0")
  case True
  then show ?thesis
    using parse_components_unit [OF units(3,6), of 0 0 "[]" fmul]
    by (simp add: duration_string_def parse_duration_def units parse_components.simps [of _ _ "[]"])
next
  case False
  let ?h = "n div 3600" and ?m = "n div 60 mod 60" and ?s = "n mod 60"
  have lim: "n * 1000000000 < 2 ^ 63" using assms by (simp add: second_def)
  have n: "n = ?h * 3600 + ?m * 60 + ?s" 
  proof -
    have "n div 3600 = n div 60 div 60" by (simp flip: div_mult2_eq)
    then show ?thesis using div_mult_mod_eq [of n 60] div_mult_mod_eq [of "n div 60" 60] by linarith
  qed
  define H where "H = (if 3600 \<le> n then show_nat ?h @ ''h'' else [])"
  define M where "M = (if 60 \<le> n then show_nat ?m @ ''m'' else [])"
  have str: "duration_string (int n * second) = H @ M @ show_nat ?s @ ''s''"
    using False by (simp add: duration_string_def H_def M_def second_def nat_mult_distrib frac_string_0 Let_def)
  let ?S = "show_nat ?s @ ''s''"
  have dh: "parse_components fmul 0 (H @ M @ ?S) = parse_components fmul (?h * 3600000000000) (M @ ?S)"
  proof (cases "3600 \<le> n")
    case True
    have "M @ ?S \<noteq> [] \<and> \<not> unit_char (hd (M @ ?S))" using show_nat_not_unit by (auto simp: M_def)
    then show ?thesis
      using True parse_components_unit [OF units(1,4), of ?h 0 "M @ ?S" fmul] lim n by (simp add: H_def)
  qed (simp add: H_def)
  have dm: "parse_components fmul x (M @ ?S) = parse_components fmul (x + ?m * 60000000000) ?S"
    if "x + ?m * 60000000000 \<le> 2 ^ 63" for x
    using that parse_components_unit [OF units(2,5), of ?m x ?S fmul] show_nat_not_unit [of ?s "''s''"]
    by (auto simp: M_def)
  have ds: "parse_components fmul x ?S = Some (x + ?s * 1000000000)" if "x + ?s * 1000000000 \<le> 2 ^ 63" for x
    using that parse_components_unit [OF units(3,6), of ?s x "[]" fmul] by (simp add: parse_components.simps [of _ _ "[]"])
  have all: "parse_components fmul 0 (H @ M @ ?S) = Some (n * 1000000000)"
    unfolding dh using lim n by (subst dm) (simp_all add: ds)
  have hd: "is_digit (hd (H @ M @ ?S))"
    using show_nat_digits [OF hd_in_set [OF show_nat_nonempty]] by (simp add: H_def M_def hd_append)
  then have "hd (H @ M @ ?S) \<noteq> CHR ''-''" "hd (H @ M @ ?S) \<noteq> CHR ''+''" by (auto simp: is_digit_def)
  moreover have "H @ M @ ?S \<noteq> ''0''"
  proof
    assume "H @ M @ ?S = ''0''"
    then have "last (H @ M @ ?S) = CHR ''0''" by (simp only: last.simps simp_thms if_True)
    then show False by simp
  qed
  ultimately show ?thesis
    using all lim unfolding str parse_duration_def Let_def by (simp add: second_def)
qed

end
