(* ===== verification/RouterEngine.thy ===== *)
theory RouterEngine
  imports HttpModel GoTime
begin

text \<open>
  \<open>router/engine.go\<close>: the engine interface, its two implementations and the defaults of a lease.
  The interface is a record of operations over a state \<open>'e\<close> that stands for the world outside the
  router; \<open>HTTPEngine\<close> is built over a transport, which is \<open>http.Client\<close> and whatever answers it.
\<close>

section \<open>Data\<close>

record LeaseRequest =
  lr_Profile :: string
  lr_TTLPause :: string
  lr_TTLStore :: string
  lr_TTLPrune :: string
  lr_SessionID :: string

record WorldInfo =
  wi_ID :: string
  wi_Profile :: string
  wi_State :: string
  wi_TTLPause :: string
  wi_TTLStore :: string
  wi_TTLPrune :: string
  wi_Network :: string
  wi_Engine :: string
  wi_SessionID :: string

definition lease_tree :: "LeaseRequest \<Rightarrow> jv" where
  "lease_tree lr = JObj ([(''profile'', jstr (lr_Profile lr))] @ omit_str ''ttl_pause'' (lr_TTLPause lr)
     @ omit_str ''ttl_store'' (lr_TTLStore lr) @ omit_str ''ttl_prune'' (lr_TTLPrune lr)
     @ omit_str ''session_id'' (lr_SessionID lr))"

definition lease_of :: "members \<Rightarrow> bool \<times> LeaseRequest" where
  "lease_of ms =
     (let p = field_str ''profile'' [] ms; a = field_str ''ttl_pause'' [] ms; b = field_str ''ttl_store'' [] ms;
          c = field_str ''ttl_prune'' [] ms; s = field_str ''session_id'' [] ms
      in (fst p \<and> fst a \<and> fst b \<and> fst c \<and> fst s,
          \<lparr>lr_Profile = snd p, lr_TTLPause = snd a, lr_TTLStore = snd b, lr_TTLPrune = snd c, lr_SessionID = snd s\<rparr>))"

definition info_tree :: "WorldInfo \<Rightarrow> jv" where
  "info_tree i = JObj ([(''id'', jstr (wi_ID i))] @ omit_str ''profile'' (wi_Profile i)
     @ [(''state'', jstr (wi_State i)), (''ttl_pause'', jstr (wi_TTLPause i)), (''ttl_store'', jstr (wi_TTLStore i)),
        (''ttl_prune'', jstr (wi_TTLPrune i))]
     @ omit_str ''network'' (wi_Network i) @ omit_str ''engine'' (wi_Engine i) @ omit_str ''session_id'' (wi_SessionID i))"

definition info_of :: "members \<Rightarrow> bool \<times> WorldInfo" where
  "info_of ms =
     (let i = field_str ''id'' [] ms; p = field_str ''profile'' [] ms; st = field_str ''state'' [] ms;
          a = field_str ''ttl_pause'' [] ms; b = field_str ''ttl_store'' [] ms; c = field_str ''ttl_prune'' [] ms;
          n = field_str ''network'' [] ms; e = field_str ''engine'' [] ms; s = field_str ''session_id'' [] ms
      in (fst i \<and> fst p \<and> fst st \<and> fst a \<and> fst b \<and> fst c \<and> fst n \<and> fst e \<and> fst s,
          \<lparr>wi_ID = snd i, wi_Profile = snd p, wi_State = snd st, wi_TTLPause = snd a, wi_TTLStore = snd b,
           wi_TTLPrune = snd c, wi_Network = snd n, wi_Engine = snd e, wi_SessionID = snd s\<rparr>))"

section \<open>The interface\<close>

datatype engine_error = ErrEngineUnavailable | EngineError string

primrec engine_error_text :: "engine_error \<Rightarrow> string" where
  "engine_error_text ErrEngineUnavailable = ''world engine unavailable''"
| "engine_error_text (EngineError m) = m"

text \<open>A pointer result is an option, \<open>None\<close> the nil pointer.\<close>

record 'e Engine =
  en_Available :: "'e \<Rightarrow> bool \<times> 'e"
  en_Lease :: "LeaseRequest \<Rightarrow> 'e \<Rightarrow> (engine_error, WorldInfo option) result \<times> 'e"
  en_Get :: "string \<Rightarrow> 'e \<Rightarrow> (engine_error, WorldInfo option) result \<times> 'e"
  en_Heartbeat :: "string \<Rightarrow> 'e \<Rightarrow> engine_error option \<times> 'e"
  en_Exec :: "string \<Rightarrow> string \<Rightarrow> 'e \<Rightarrow> (engine_error, nat \<times> string) result \<times> 'e"
  en_Destroy :: "string \<Rightarrow> 'e \<Rightarrow> engine_error option \<times> 'e"
  en_SetNetwork :: "string \<Rightarrow> string \<Rightarrow> 'e \<Rightarrow> (engine_error, WorldInfo option) result \<times> 'e"

definition UnavailableEngine :: "'e Engine" where
  "UnavailableEngine = \<lparr>en_Available = (\<lambda>e. (False, e)),
     en_Lease = (\<lambda>lr e. (Inl ErrEngineUnavailable, e)), en_Get = (\<lambda>i e. (Inl ErrEngineUnavailable, e)),
     en_Heartbeat = (\<lambda>i e. (Some ErrEngineUnavailable, e)), en_Exec = (\<lambda>i b e. (Inl ErrEngineUnavailable, e)),
     en_Destroy = (\<lambda>i e. (Some ErrEngineUnavailable, e)), en_SetNetwork = (\<lambda>i p e. (Inl ErrEngineUnavailable, e))\<rparr>"

section \<open>The engine over HTTP\<close>

type_synonym 'e HTTPEngine = "string \<times> 'e transport"

definition health_of :: "members \<Rightarrow> bool \<times> (bool option \<times> bool)" where
  "health_of ms = (let r = field_bool_ptr ''engine_ready'' None ms; k = field_bool ''ok'' False ms
     in (fst r \<and> fst k, (snd r, snd k)))"

definition HTTPEngine_Available :: "'e HTTPEngine \<Rightarrow> 'e \<Rightarrow> bool \<times> 'e" where
  "HTTPEngine_Available h e =
     (case send (snd h) ''GET'' (fst h @ ''/health'') [] e of
        (Reply r, e') \<Rightarrow>
          (if hp_code r \<noteq> 200 then False
           else case unmarshal_with health_of (hp_body r) of None \<Rightarrow> True
             | Some (Some ready, ok) \<Rightarrow> ready
             | Some (None, ok) \<Rightarrow> ok, e')
      | (x, e') \<Rightarrow> (False, e'))"

definition info_result :: "'e transport \<Rightarrow> string \<Rightarrow> (engine_error, WorldInfo option) result" where
  "info_result tp body = (case unmarshal_with info_of body of
     None \<Rightarrow> Inl (EngineError (tp_json tp body)) | Some i \<Rightarrow> Inr (Some i))"

definition HTTPEngine_Lease :: "'e HTTPEngine \<Rightarrow> LeaseRequest \<Rightarrow> 'e \<Rightarrow> (engine_error, WorldInfo option) result \<times> 'e" where
  "HTTPEngine_Lease h lr e =
     (case send (snd h) ''POST'' (fst h @ ''/v1/worlds'') (render (lease_tree lr)) e of
        (BadRequest m, e') \<Rightarrow> (Inl (EngineError m), e')
      | (NoReply m, e') \<Rightarrow> (Inl ErrEngineUnavailable, e')
      | (Reply r, e') \<Rightarrow>
          (if hp_code r = 503 then Inl ErrEngineUnavailable
           else if 300 \<le> hp_code r
             then Inl (EngineError (''lot-boss lease: '' @ hp_status r @ '': '' @ hp_body r))
           else info_result (snd h) (hp_body r), e'))"

definition HTTPEngine_Get :: "'e HTTPEngine \<Rightarrow> string \<Rightarrow> 'e \<Rightarrow> (engine_error, WorldInfo option) result \<times> 'e" where
  "HTTPEngine_Get h i e =
     (case send (snd h) ''GET'' (fst h @ ''/v1/worlds/'' @ i) [] e of
        (BadRequest m, e') \<Rightarrow> (Inl (EngineError m), e')
      | (NoReply m, e') \<Rightarrow> (Inl ErrEngineUnavailable, e')
      | (Reply r, e') \<Rightarrow>
          (if hp_code r = 404 then Inl (EngineError ''world not found'')
           else if hp_code r = 503 then Inl ErrEngineUnavailable
           else if 300 \<le> hp_code r then Inl (EngineError (''lot-boss get: '' @ hp_body r))
           else info_result (snd h) (hp_body r), e'))"

definition HTTPEngine_Heartbeat :: "'e HTTPEngine \<Rightarrow> string \<Rightarrow> 'e \<Rightarrow> engine_error option \<times> 'e" where
  "HTTPEngine_Heartbeat h i e =
     (case send (snd h) ''POST'' (fst h @ ''/v1/worlds/'' @ i @ ''/heartbeat'') [] e of
        (BadRequest m, e') \<Rightarrow> (Some (EngineError m), e')
      | (NoReply m, e') \<Rightarrow> (Some ErrEngineUnavailable, e')
      | (Reply r, e') \<Rightarrow>
          (if hp_code r = 503 then Some ErrEngineUnavailable
           else if 300 \<le> hp_code r then Some (EngineError (''heartbeat: '' @ hp_body r))
           else None, e'))"

definition HTTPEngine_Exec :: "'e HTTPEngine \<Rightarrow> string \<Rightarrow> string \<Rightarrow> 'e \<Rightarrow> (engine_error, nat \<times> string) result \<times> 'e" where
  "HTTPEngine_Exec h i body e =
     (case send (snd h) ''POST'' (fst h @ ''/v1/worlds/'' @ i @ ''/exec'') body e of
        (BadRequest m, e') \<Rightarrow> (Inl (EngineError m), e')
      | (NoReply m, e') \<Rightarrow> (Inl ErrEngineUnavailable, e')
      | (Reply r, e') \<Rightarrow>
          (if hp_code r = 503 then Inl ErrEngineUnavailable else Inr (hp_code r, hp_body r), e'))"

definition HTTPEngine_Destroy :: "'e HTTPEngine \<Rightarrow> string \<Rightarrow> 'e \<Rightarrow> engine_error option \<times> 'e" where
  "HTTPEngine_Destroy h i e =
     (case send (snd h) ''DELETE'' (fst h @ ''/v1/worlds/'' @ i) [] e of
        (BadRequest m, e') \<Rightarrow> (Some (EngineError m), e')
      | (NoReply m, e') \<Rightarrow> (Some ErrEngineUnavailable, e')
      | (Reply r, e') \<Rightarrow>
          (if hp_code r = 503 then Some ErrEngineUnavailable
           else if 300 \<le> hp_code r \<and> hp_code r \<noteq> 404 then Some (EngineError (''destroy: '' @ hp_body r))
           else None, e'))"

definition HTTPEngine_SetNetwork :: "'e HTTPEngine \<Rightarrow> string \<Rightarrow> string \<Rightarrow> 'e \<Rightarrow> (engine_error, WorldInfo option) result \<times> 'e" where
  "HTTPEngine_SetNetwork h i phase e =
     (case send (snd h) ''PUT'' (fst h @ ''/v1/worlds/'' @ i @ ''/network'') (render (JObj [(''phase'', jstr phase)])) e of
        (BadRequest m, e') \<Rightarrow> (Inl (EngineError m), e')
      | (NoReply m, e') \<Rightarrow> (Inl ErrEngineUnavailable, e')
      | (Reply r, e') \<Rightarrow>
          (if hp_code r = 503 then Inl ErrEngineUnavailable
           else if hp_code r = 404 then Inl (EngineError ''world not found'')
           else if 300 \<le> hp_code r then Inl (EngineError (''lot-boss network: '' @ hp_status r @ '': '' @ hp_body r))
           else info_result (snd h) (hp_body r), e'))"

definition HTTPEngine_engine :: "'e HTTPEngine \<Rightarrow> 'e Engine" where
  "HTTPEngine_engine h = \<lparr>en_Available = HTTPEngine_Available h, en_Lease = HTTPEngine_Lease h,
     en_Get = HTTPEngine_Get h, en_Heartbeat = HTTPEngine_Heartbeat h, en_Exec = HTTPEngine_Exec h,
     en_Destroy = HTTPEngine_Destroy h, en_SetNetwork = HTTPEngine_SetNetwork h\<rparr>"

section \<open>Defaults\<close>

definition DefaultTTLPause :: int where "DefaultTTLPause = 15 * minute"
definition DefaultTTLStore :: int where "DefaultTTLStore = 2 * hour"
definition DefaultTTLPrune :: int where "DefaultTTLPrune = 7 * 24 * hour"

definition ApplyLeaseDefaults :: "LeaseRequest \<Rightarrow> LeaseRequest" where
  "ApplyLeaseDefaults lr =
     (let a = (if lr_Profile lr = [] then lr\<lparr>lr_Profile := ''demo''\<rparr> else lr);
          b = (if lr_TTLPause a = [] then a\<lparr>lr_TTLPause := duration_string DefaultTTLPause\<rparr> else a);
          c = (if lr_TTLStore b = [] then b\<lparr>lr_TTLStore := duration_string DefaultTTLStore\<rparr> else b)
      in if lr_TTLPrune c = [] then c\<lparr>lr_TTLPrune := duration_string DefaultTTLPrune\<rparr> else c)"

lemmas [router_defs] = HTTPEngine_Available_def HTTPEngine_Lease_def HTTPEngine_Get_def HTTPEngine_Heartbeat_def
  HTTPEngine_Exec_def HTTPEngine_Destroy_def HTTPEngine_SetNetwork_def send_def info_result_def

section \<open>The contract of an engine\<close>

text \<open>
  What the handlers rely on: a lease without an error comes with a world, and the status of an
  \<open>Exec\<close> is one that may be written.
\<close>

locale engine =
  fixes E :: "'e Engine" and good :: "'e \<Rightarrow> bool"
  assumes lease_some: "good e \<Longrightarrow> en_Lease E lr e = (Inr i, e') \<Longrightarrow> i \<noteq> None"
    and exec_code: "good e \<Longrightarrow> en_Exec E w b e = (Inr (code, out), e') \<Longrightarrow> writable code"
    and available_good: "good e \<Longrightarrow> en_Available E e = (ok, e') \<Longrightarrow> good e'"
    and get_good: "good e \<Longrightarrow> en_Get E w e = (r, e') \<Longrightarrow> good e'"

interpretation unavailable: engine UnavailableEngine "\<lambda>e. True"
  by unfold_locales (simp_all add: UnavailableEngine_def)

lemma info_result_some: "info_result tp b = Inr i \<Longrightarrow> i \<noteq> None"
  by (cases "unmarshal_with info_of b") (auto simp: info_result_def)

interpretation http: engine "HTTPEngine_engine h" "\<lambda>e. sane_transport (snd h)" for h
proof
  fix e lr i e'
  assume "en_Lease (HTTPEngine_engine h) lr e = (Inr i, e')"
  then show "i \<noteq> None"
    by (auto simp: HTTPEngine_engine_def HTTPEngine_Lease_def dest: info_result_some split: prod.splits sent.splits if_splits)
next
  fix e w b code out e'
  assume "sane_transport (snd h)" and "en_Exec (HTTPEngine_engine h) w b e = (Inr (code, out), e')"
  then show "writable code"
    by (auto simp: HTTPEngine_engine_def HTTPEngine_Exec_def dest: send_writable
        split: prod.splits sent.splits if_splits)
qed

end
