(* ===== verification/Sticky.thy ===== *)
theory Sticky
  imports Prelude
begin

text \<open>
  \<open>router/sticky.go\<close>: the map from sessions to worlds, and the contract its users rely on. The two
  Go maps are kept inverse to each other by every operation, so a world serves one session and a
  session has one world. The mutex makes each operation one step.
\<close>

record StickyMap =
  byS :: "string \<rightharpoonup> string"
  byW :: "string \<rightharpoonup> string"

definition NewStickyMap :: StickyMap where
  "NewStickyMap = \<lparr>byS = Map.empty, byW = Map.empty\<rparr>"

definition Sticky_Get :: "string \<Rightarrow> StickyMap \<Rightarrow> string option" where
  "Sticky_Get session m = byS m session"

definition Bind :: "string \<Rightarrow> string \<Rightarrow> StickyMap \<Rightarrow> StickyMap" where
  "Bind session world m =
     (if session = [] \<or> world = [] then m
      else
        let m1 = (case byS m session of Some old \<Rightarrow> if old \<noteq> world then m\<lparr>byW := (byW m)(old := None)\<rparr> else m
                  | None \<Rightarrow> m);
            m2 = (case byW m1 world of Some prev \<Rightarrow> if prev \<noteq> session then m1\<lparr>byS := (byS m1)(prev := None)\<rparr> else m1
                  | None \<Rightarrow> m1)
        in m2\<lparr>byS := (byS m2)(session \<mapsto> world), byW := (byW m2)(world \<mapsto> session)\<rparr>)"

definition UnbindWorld :: "string \<Rightarrow> StickyMap \<Rightarrow> StickyMap" where
  "UnbindWorld world m = (case byW m world of None \<Rightarrow> m
     | Some sess \<Rightarrow> m\<lparr>byS := (byS m)(sess := None), byW := (byW m)(world := None)\<rparr>)"

definition UnbindSession :: "string \<Rightarrow> StickyMap \<Rightarrow> StickyMap" where
  "UnbindSession session m = (case byS m session of None \<Rightarrow> m
     | Some world \<Rightarrow> m\<lparr>byS := (byS m)(session := None), byW := (byW m)(world := None)\<rparr>)"

definition sticky_inv :: "StickyMap \<Rightarrow> bool" where
  "sticky_inv m \<longleftrightarrow> (\<forall>s w. byS m s = Some w \<longleftrightarrow> byW m w = Some s)
     \<and> (\<forall>s w. byS m s = Some w \<longrightarrow> s \<noteq> [] \<and> w \<noteq> [])"

section \<open>The contract\<close>

text \<open>
  A binding of sessions to worlds as its clients see it: through \<open>get\<close> alone. The laws give the
  result of \<open>get\<close> after every operation.
\<close>

datatype sticky_op = OpBind string string | OpUnbindWorld string | OpUnbindSession string

locale session_binding =
  fixes inv :: "'m \<Rightarrow> bool" and start :: 'm
    and get :: "string \<Rightarrow> 'm \<Rightarrow> string option"
    and bind :: "string \<Rightarrow> string \<Rightarrow> 'm \<Rightarrow> 'm"
    and unbind_world :: "string \<Rightarrow> 'm \<Rightarrow> 'm"
    and unbind_session :: "string \<Rightarrow> 'm \<Rightarrow> 'm"
  assumes inv_start: "inv start" and get_start: "get s start = None"
    and inv_bind: "inv m \<Longrightarrow> inv (bind s w m)"
    and inv_unbind_world: "inv m \<Longrightarrow> inv (unbind_world w m)"
    and inv_unbind_session: "inv m \<Longrightarrow> inv (unbind_session s m)"
    and get_bind: "inv m \<Longrightarrow> s \<noteq> [] \<Longrightarrow> w \<noteq> [] \<Longrightarrow>
      get t (bind s w m) = (if t = s then Some w else if get t m = Some w then None else get t m)"
    and bind_trivial: "s = [] \<or> w = [] \<Longrightarrow> bind s w m = m"
    and get_unbind_world: "inv m \<Longrightarrow> get t (unbind_world w m) = (if get t m = Some w then None else get t m)"
    and get_unbind_session: "inv m \<Longrightarrow> get t (unbind_session s m) = (if t = s then None else get t m)"
    and one_session: "inv m \<Longrightarrow> get s m = Some w \<Longrightarrow> get t m = Some w \<Longrightarrow> s = t"
begin

primrec apply_op :: "sticky_op \<Rightarrow> 'm \<Rightarrow> 'm" where
  "apply_op (OpBind s w) m = bind s w m"
| "apply_op (OpUnbindWorld w) m = unbind_world w m"
| "apply_op (OpUnbindSession s) m = unbind_session s m"

lemma inv_apply: "inv m \<Longrightarrow> inv (apply_op c m)"
  by (cases c) (simp_all add: inv_bind inv_unbind_world inv_unbind_session)

lemma inv_run: "inv m \<Longrightarrow> inv (fold apply_op cs m)"
  by (induction cs arbitrary: m) (simp_all add: inv_apply)

text \<open>After any run from the start no two sessions share a world.\<close>

lemma run_exclusive:
  "get s (fold apply_op cs start) = Some w \<Longrightarrow> get t (fold apply_op cs start) = Some w \<Longrightarrow> s = t"
  using one_session [OF inv_run [OF inv_start]] by blast

text \<open>A binding lasts until its session or its world is named again.\<close>

lemma binding_stable:
  assumes "inv m" and "get s m = Some w"
    and "\<forall>c\<in>set cs. case c of OpBind s' w' \<Rightarrow> s' \<noteq> s \<and> w' \<noteq> w | OpUnbindWorld w' \<Rightarrow> w' \<noteq> w
      | OpUnbindSession s' \<Rightarrow> s' \<noteq> s"
  shows "get s (fold apply_op cs m) = Some w"
  using assms
proof (induction cs arbitrary: m)
  case (Cons c cs)
  have "get s (apply_op c m) = Some w"
  proof (cases c)
    case (OpBind s' w')
    with Cons.prems show ?thesis by (cases "s' = [] \<or> w' = []") (auto simp: bind_trivial get_bind)
  qed (use Cons.prems in \<open>auto simp: get_unbind_world get_unbind_session\<close>)
  with Cons inv_apply show ?case by simp
qed simp

end

section \<open>The map keeps the contract\<close>

lemma sticky_invD:
  assumes "sticky_inv m"
  shows "byS m s = Some w \<longleftrightarrow> byW m w = Some s" and "byS m s = Some w \<Longrightarrow> s \<noteq> [] \<and> w \<noteq> []"
  using assms by (simp_all add: sticky_inv_def)

lemma sticky_unique: "sticky_inv m \<Longrightarrow> byW m v = Some s \<Longrightarrow> byW m w = Some s \<Longrightarrow> v = w"
  using sticky_invD(1) [of m] by (metis option.inject)

lemma sticky_none: "sticky_inv m \<Longrightarrow> byS m s = None \<Longrightarrow> byW m v \<noteq> Some s"
  using sticky_invD(1) [of m s v] by auto

lemma Bind_maps:
  assumes inv: "sticky_inv m" and ne: "s \<noteq> []" "w \<noteq> []"
  shows "byS (Bind s w m) t = (if t = s then Some w else if byS m t = Some w then None else byS m t)"
    and "byW (Bind s w m) v = (if v = w then Some s else if byW m v = Some s then None else byW m v)"
  using ne sticky_invD(1) [OF inv] sticky_unique [OF inv] sticky_none [OF inv]
  by (auto simp: Bind_def Let_def split: option.splits if_splits)

lemma sticky_inv_Bind: "sticky_inv m \<Longrightarrow> sticky_inv (Bind s w m)"
proof (cases "s = [] \<or> w = []")
  case False
  assume inv: "sticky_inv m"
  from False Bind_maps [OF inv, of s w] sticky_invD [OF inv] sticky_unique [OF inv] show ?thesis
    by (auto simp: sticky_inv_def split: if_splits)
qed (auto simp: Bind_def)

interpretation sticky: session_binding sticky_inv NewStickyMap Sticky_Get Bind UnbindWorld UnbindSession
proof
  show "sticky_inv NewStickyMap" and "Sticky_Get s NewStickyMap = None" for s
    by (simp_all add: sticky_inv_def NewStickyMap_def Sticky_Get_def)
next
  fix m s w assume "sticky_inv m" then show "sticky_inv (Bind s w m)" by (rule sticky_inv_Bind)
next
  fix m w assume inv: "sticky_inv m"
  then show "sticky_inv (UnbindWorld w m)"
    using sticky_invD [OF inv] sticky_unique [OF inv] by (auto simp: sticky_inv_def UnbindWorld_def split: option.splits)
  show "Sticky_Get t (UnbindWorld w m) = (if Sticky_Get t m = Some w then None else Sticky_Get t m)" for t
    using sticky_invD [OF inv] sticky_unique [OF inv] by (auto simp: Sticky_Get_def UnbindWorld_def split: option.splits)
next
  fix m s assume inv: "sticky_inv m"
  then show "sticky_inv (UnbindSession s m)"
    using sticky_invD [OF inv] sticky_unique [OF inv] by (auto simp: sticky_inv_def UnbindSession_def split: option.splits)
  show "Sticky_Get t (UnbindSession s m) = (if t = s then None else Sticky_Get t m)" for t
    by (auto simp: Sticky_Get_def UnbindSession_def split: option.splits)
next
  fix m and s w t :: string assume "sticky_inv m" "s \<noteq> []" "w \<noteq> []"
  then show "Sticky_Get t (Bind s w m) = (if t = s then Some w else if Sticky_Get t m = Some w then None else Sticky_Get t m)"
    by (simp add: Sticky_Get_def Bind_maps(1))
next
  fix s w :: string and m assume "s = [] \<or> w = []"
  then show "Bind s w m = m" by (auto simp: Bind_def)
next
  fix m s w t assume "sticky_inv m" "Sticky_Get s m = Some w" "Sticky_Get t m = Some w"
  then show "s = t" using sticky_invD [of m] by (simp add: Sticky_Get_def)
qed

end
