(* ===== verification/RouterServer.thy ===== *)
theory RouterServer
  imports RouterEngine Sticky
begin

text \<open>
  \<open>router/server.go\<close>: the agent-facing HTTP interface. A handler runs against the engine's state
  \<open>'e\<close> and the sticky map; \<open>None\<close> in place of a response is a panic, which \<open>net/http\<close> turns into a
  dropped connection.
\<close>

record 'e RouterServer =
  rs_Engine :: "'e Engine"
  rs_DeskURL :: string
  rs_desk :: "'e transport"

text \<open>\<open>NewServer\<close>; the engine is never nil here, its default is \<open>UnavailableEngine\<close>.\<close>

definition NewServer :: "'e Engine option \<Rightarrow> string \<Rightarrow> 'e transport \<Rightarrow> 'e RouterServer" where
  "NewServer eng deskURL tp = \<lparr>rs_Engine = (case eng of None \<Rightarrow> UnavailableEngine | Some E \<Rightarrow> E),
     rs_DeskURL = trim_right (CHR ''/'') deskURL, rs_desk = tp\<rparr>"

type_synonym 'e rt_state = "StickyMap \<times> 'e"

section \<open>Handlers\<close>

definition rt_handleHealth :: "'e RouterServer \<Rightarrow> 'e rt_state \<Rightarrow> Response option \<times> 'e rt_state" where
  "rt_handleHealth s st =
     (let (ok, e) = en_Available (rs_Engine s) (snd st) in
      (Some (writeJSON 200 (Some (JObj [(''engine'', jbool ok), (''ok'', JTrue), (''service'', jstr ''router'')]))),
       fst st, e))"

text \<open>The answer to an engine's error: 503 when it is unavailable, else the code of the handler.\<close>

definition engine_failure :: "nat \<Rightarrow> engine_error \<Rightarrow> Response" where
  "engine_failure code err = (case err of ErrEngineUnavailable \<Rightarrow> httpError 503 ''world engine unavailable''
     | EngineError m \<Rightarrow> httpError code m)"

definition lease_session :: "Request \<Rightarrow> LeaseRequest \<Rightarrow> string" where
  "lease_session r lr = (let h = hr_header r ''X-Session-Id'' in if h = [] then lr_SessionID lr else h)"

text \<open>The part of \<open>handleLease\<close> after the sticky lookup.\<close>

definition lease_new :: "'e RouterServer \<Rightarrow> LeaseRequest \<Rightarrow> string \<Rightarrow> 'e rt_state \<Rightarrow> Response option \<times> 'e rt_state" where
  "lease_new s lr session st =
     (let (m, e) = st; (ok, e1) = en_Available (rs_Engine s) e in
      if \<not> ok then (Some (httpError 503 ''world engine unavailable''), m, e1)
      else case en_Lease (rs_Engine s) (lr\<lparr>lr_SessionID := session\<rparr>) e1 of
        (Inl err, e2) \<Rightarrow> (Some (engine_failure 502 err), m, e2)
      | (Inr None, e2) \<Rightarrow> (if session = [] then (Some (writeJSON 201 (Some JNull)), m, e2) else (None, m, e2))
      | (Inr (Some info), e2) \<Rightarrow>
          if session = [] then (Some (writeJSON 201 (Some (info_tree info))), m, e2)
          else (Some (writeJSON 201 (Some (info_tree (info\<lparr>wi_SessionID := session\<rparr>)))), Bind session (wi_ID info) m, e2))"

definition rt_handleLease :: "'e RouterServer \<Rightarrow> Request \<Rightarrow> 'e rt_state \<Rightarrow> Response option \<times> 'e rt_state" where
  "rt_handleLease s r st =
     (let (m, e) = st; b = request_json r; ms = body_members b; q = lease_of (snd ms) in
      if b \<noteq> BodyEOF \<and> \<not> (fst ms \<and> fst q) then (Some (httpError 400 ''invalid json''), st)
      else
        let lr = ApplyLeaseDefaults (snd q); session = lease_session r lr in
        if session = [] then lease_new s lr session st
        else case Sticky_Get session m of None \<Rightarrow> lease_new s lr session st
          | Some wid \<Rightarrow>
              (case en_Get (rs_Engine s) wid e of
                 (Inr (Some info), e1) \<Rightarrow> (Some (writeJSON 200 (Some (info_tree (info\<lparr>wi_SessionID := session\<rparr>)))), m, e1)
               | (x, e1) \<Rightarrow> lease_new s lr session (UnbindSession session m, e1)))"

definition info_ptr_tree :: "WorldInfo option \<Rightarrow> jv" where
  "info_ptr_tree p = (case p of None \<Rightarrow> JNull | Some i \<Rightarrow> info_tree i)"

definition rt_handleGet :: "'e RouterServer \<Rightarrow> string \<Rightarrow> 'e rt_state \<Rightarrow> Response option \<times> 'e rt_state" where
  "rt_handleGet s i st =
     (case en_Get (rs_Engine s) i (snd st) of
        (Inl err, e) \<Rightarrow> (Some (engine_failure 404 err), fst st, e)
      | (Inr info, e) \<Rightarrow> (Some (writeJSON 200 (Some (info_ptr_tree info))), fst st, e))"

definition rt_handleHeartbeat :: "'e RouterServer \<Rightarrow> string \<Rightarrow> 'e rt_state \<Rightarrow> Response option \<times> 'e rt_state" where
  "rt_handleHeartbeat s i st =
     (case en_Heartbeat (rs_Engine s) i (snd st) of
        (Some err, e) \<Rightarrow> (Some (engine_failure 502 err), fst st, e)
      | (None, e) \<Rightarrow> (Some (writeJSON 200 (Some (JObj [(''id'', jstr i), (''ok'', JTrue)]))), fst st, e))"

text \<open>\<open>WriteHeader\<close> panics on a code outside 100 to 999.\<close>

definition write_raw :: "nat \<Rightarrow> string \<Rightarrow> Response option" where
  "write_raw code b = (if writable code then Some \<lparr>rs_code = code, rs_body = b\<rparr> else None)"

definition rt_handleExec :: "'e RouterServer \<Rightarrow> Request \<Rightarrow> string \<Rightarrow> 'e rt_state \<Rightarrow> Response option \<times> 'e rt_state" where
  "rt_handleExec s r i st =
     (if hr_broken r then (Some (httpError 400 ''read body''), st)
      else case en_Exec (rs_Engine s) i (hr_body r) (snd st) of
        (Inl err, e) \<Rightarrow> (Some (engine_failure 502 err), fst st, e)
      | (Inr (code, resp), e) \<Rightarrow> (write_raw code resp, fst st, e))"

definition phase_of :: "Request \<Rightarrow> string" where
  "phase_of r = snd (field_str ''phase'' [] (snd (body_members (request_json r))))"

text \<open>The \<open>switch\<close> on the phase: \<open>None\<close> is the refused one.\<close>

definition norm_phase :: "string \<Rightarrow> string option" where
  "norm_phase p = (if p = ''dark'' \<or> p = [] then Some ''dark'' else if p = ''proxy'' then Some ''proxy'' else None)"

definition egress_proxy :: "environ \<Rightarrow> string" where
  "egress_proxy env = (let p = trim_space (env ''BACKLOT_EGRESS_PROXY'') in if p = [] then ''http://proxy:3128'' else p)"

definition rt_handleNetwork :: "environ \<Rightarrow> 'e RouterServer \<Rightarrow> Request \<Rightarrow> string \<Rightarrow> 'e rt_state \<Rightarrow> Response option \<times> 'e rt_state" where
  "rt_handleNetwork env s r i st =
     (case norm_phase (phase_of r) of None \<Rightarrow> (Some (httpError 400 ''phase must be dark or proxy''), st)
      | Some phase \<Rightarrow>
          (case en_SetNetwork (rs_Engine s) i phase (snd st) of
             (Inl err, e) \<Rightarrow>
               (Some (if err \<noteq> ErrEngineUnavailable \<and> contains (engine_error_text err) ''not found''
                      then httpError 404 (engine_error_text err) else engine_failure 502 err), fst st, e)
           | (Inr info, e) \<Rightarrow>
               (let proxy = (if phase = ''proxy'' then [(''proxy'', jstr (egress_proxy env))] else []) in
                (Some (writeJSON 200 (Some (JObj (case info of
                    None \<Rightarrow> [(''id'', jstr i), (''network'', jstr phase)] @ proxy
                  | Some w \<Rightarrow> [(''id'', jstr (wi_ID w)), (''network'', jstr (wi_Network w))] @ proxy
                              @ [(''state'', jstr (wi_State w))])))), fst st, e))))"

definition rt_handleDelete :: "'e RouterServer \<Rightarrow> string \<Rightarrow> 'e rt_state \<Rightarrow> Response option \<times> 'e rt_state" where
  "rt_handleDelete s i st =
     (case en_Destroy (rs_Engine s) i (snd st) of
        (Some err, e) \<Rightarrow> (Some (engine_failure 502 err), fst st, e)
      | (None, e) \<Rightarrow> (Some (writeJSON 200 (Some (JObj [(''destroyed'', JTrue), (''id'', jstr i), (''ok'', JTrue)]))),
                     UnbindWorld i (fst st), e))"

definition rt_handleEvents :: "'e RouterServer \<Rightarrow> Request \<Rightarrow> string \<Rightarrow> 'e rt_state \<Rightarrow> Response option \<times> 'e rt_state" where
  "rt_handleEvents s r i st =
     (if rs_DeskURL s = [] then (Some (httpError 503 ''desk unavailable''), st)
      else
        let c = hr_query r ''cursor'';
            url = rs_DeskURL s @ ''/v1/events?world_id='' @ i @ (if c = [] then [] else ''&cursor='' @ c)
        in case send (rs_desk s) ''GET'' url [] (snd st) of
             (BadRequest m, e) \<Rightarrow> (Some (httpError 500 m), fst st, e)
           | (NoReply m, e) \<Rightarrow> (Some (httpError 502 ''desk proxy failed''), fst st, e)
           | (Reply p, e) \<Rightarrow> (write_raw (hp_code p) (hp_body p), fst st, e))"

definition rt_handleSnapshot :: Response where
  "rt_handleSnapshot = httpError 501 ''snapshot/restore is M4''"

section \<open>Routing\<close>

datatype rt_handler = RHealth | RLease | RGet | RHeartbeat | RExec | RNetwork | RDelete | REvents | RSnapshot

definition rt_routes :: "(string \<times> seg list \<times> rt_handler) list" where
  "rt_routes =
    [(''GET'', [Lit ''health''], RHealth),
     (''POST'', [Lit ''v1'', Lit ''worlds''], RLease),
     (''GET'', [Lit ''v1'', Lit ''worlds'', Wild], RGet),
     (''POST'', [Lit ''v1'', Lit ''worlds'', Wild, Lit ''heartbeat''], RHeartbeat),
     (''POST'', [Lit ''v1'', Lit ''worlds'', Wild, Lit ''exec''], RExec),
     (''PUT'', [Lit ''v1'', Lit ''worlds'', Wild, Lit ''network''], RNetwork),
     (''DELETE'', [Lit ''v1'', Lit ''worlds'', Wild], RDelete),
     (''GET'', [Lit ''v1'', Lit ''worlds'', Wild, Lit ''events''], REvents),
     (''POST'', [Lit ''v1'', Lit ''worlds'', Wild, Lit ''snapshot''], RSnapshot),
     (''POST'', [Lit ''v1'', Lit ''worlds'', Wild, Lit ''restore''], RSnapshot)]"

definition rt_serve :: "environ \<Rightarrow> 'e RouterServer \<Rightarrow> Request \<Rightarrow> 'e rt_state \<Rightarrow> Response option \<times> 'e rt_state" where
  "rt_serve env s r st =
     (case dispatch rt_routes r of
        Serve h vs \<Rightarrow>
          (let i = (case vs of v # _ \<Rightarrow> v | [] \<Rightarrow> []) in
           case h of RHealth \<Rightarrow> rt_handleHealth s st
           | RLease \<Rightarrow> rt_handleLease s r st
           | RGet \<Rightarrow> rt_handleGet s i st
           | RHeartbeat \<Rightarrow> rt_handleHeartbeat s i st
           | RExec \<Rightarrow> rt_handleExec s r i st
           | RNetwork \<Rightarrow> rt_handleNetwork env s r i st
           | RDelete \<Rightarrow> rt_handleDelete s i st
           | REvents \<Rightarrow> rt_handleEvents s r i st
           | RSnapshot \<Rightarrow> (Some rt_handleSnapshot, st))
      | x \<Rightarrow> (Some (mux_error x), st))"

lemmas [router_defs] = rt_handleHealth_def rt_handleLease_def lease_new_def rt_handleGet_def rt_handleHeartbeat_def
  rt_handleExec_def rt_handleNetwork_def rt_handleDelete_def rt_handleEvents_def

end
