(* ===== verification/RouterTheorems.thy ===== *)
theory RouterTheorems
  imports RouterServer
begin

text \<open>
  Properties of the router: its handlers keep the sticky map an exclusive binding, never panic on a
  sane engine, and answer 503 without one; a session keeps its world.
\<close>

section \<open>The sticky map under every request\<close>

lemma lease_new_sticky:
  "lease_new s lr session (m, e) = (resp, m', e') \<Longrightarrow> m' = m \<or> (\<exists>i. session \<noteq> [] \<and> m' = Bind session i m)"
  by (auto simp: lease_new_def split: prod.splits sum.splits option.splits if_splits)

lemma handleLease_sticky:
  assumes "rt_handleLease s r (m, e) = (resp, m', e')"
  shows "m' = m \<or> (\<exists>t i. t \<noteq> [] \<and> m' = Bind t i m) \<or> (\<exists>t. m' = UnbindSession t m) \<or> (\<exists>t i. m' = Bind t i (UnbindSession t m))"
  using assms
  by (auto simp: rt_handleLease_def Let_def split: prod.splits sum.splits option.splits if_splits
      dest!: lease_new_sticky)

lemma rt_serve_sticky:
  assumes "rt_serve env s r (m, e) = (resp, m', e')"
  shows "m' = m \<or> (\<exists>t i. t \<noteq> [] \<and> m' = Bind t i m) \<or> (\<exists>t. m' = UnbindSession t m) \<or> (\<exists>t i. m' = Bind t i (UnbindSession t m))
    \<or> (\<exists>w. m' = UnbindWorld w m)"
proof (cases "\<exists>vs. dispatch rt_routes r = Serve RLease vs")
  case True
  then show ?thesis using assms handleLease_sticky [of s r m e resp m' e'] by (auto simp: rt_serve_def)
next
  case False
  with assms show ?thesis
    by (auto simp: rt_serve_def rt_handleHealth_def rt_handleGet_def rt_handleHeartbeat_def rt_handleExec_def
        rt_handleNetwork_def rt_handleDelete_def rt_handleEvents_def Let_def
        split: dispatch.splits rt_handler.splits prod.splits sum.splits option.splits if_splits sent.splits)
qed

lemma rt_serve_inv: "sticky_inv m \<Longrightarrow> rt_serve env s r (m, e) = (resp, m', e') \<Longrightarrow> sticky_inv m'"
  using rt_serve_sticky [of env s r m e resp m' e']
  by (auto intro: sticky.inv_bind sticky.inv_unbind_session sticky.inv_unbind_world)

text \<open>The state after a list of requests, one after the other.\<close>

fun rt_run :: "environ \<Rightarrow> 'e RouterServer \<Rightarrow> Request list \<Rightarrow> 'e rt_state \<Rightarrow> 'e rt_state" where
  "rt_run env s [] st = st"
| "rt_run env s (r # rs) st = rt_run env s rs (snd (rt_serve env s r st))"

lemma rt_run_inv: "sticky_inv (fst st) \<Longrightarrow> sticky_inv (fst (rt_run env s rs st))"
proof (induction rs arbitrary: st)
  case (Cons r rs)
  obtain resp m' e' where "rt_serve env s r st = (resp, m', e')" by (cases "rt_serve env s r st") auto
  with Cons rt_serve_inv [of "fst st" env s r "snd st" resp m' e'] show ?case by simp
qed simp

text \<open>
  C4: after any sequence of requests, with any engine, no two sessions are bound to one world.
\<close>

theorem sessions_never_share_world:
  assumes "Sticky_Get t (fst (rt_run env s rs (NewStickyMap, e))) = Some w"
    and "Sticky_Get u (fst (rt_run env s rs (NewStickyMap, e))) = Some w"
  shows "t = u"
proof -
  have "sticky_inv (fst (rt_run env s rs (NewStickyMap, e)))"
    by (rule rt_run_inv) (simp add: sticky.inv_start)
  from sticky.one_session [OF this assms] show ?thesis .
qed

section \<open>Concrete inputs\<close>

text \<open>An engine that leases numbered worlds, a lease request without a body and with a session header.\<close>

definition demo_info :: "string \<Rightarrow> WorldInfo" where
  "demo_info i = \<lparr>wi_ID = i, wi_Profile = ''demo'', wi_State = ''running'', wi_TTLPause = ''15m0s'', wi_TTLStore = ''2h0m0s'',
     wi_TTLPrune = ''168h0m0s'', wi_Network = ''dark'', wi_Engine = ''fc'', wi_SessionID = []\<rparr>"

definition demo_engine :: "nat Engine" where
  "demo_engine = \<lparr>en_Available = (\<lambda>n. (True, n)),
     en_Lease = (\<lambda>lr n. (Inr (Some (demo_info (CHR ''w'' # show_nat n))), Suc n)),
     en_Get = (\<lambda>i n. (Inr (Some (demo_info i)), n)), en_Heartbeat = (\<lambda>i n. (None, n)),
     en_Exec = (\<lambda>i b n. (Inr (200, b), n)), en_Destroy = (\<lambda>i n. (None, n)),
     en_SetNetwork = (\<lambda>i p n. (Inr (Some ((demo_info i)\<lparr>wi_Network := p\<rparr>)), n))\<rparr>"

definition demo_transport :: "'e transport" where
  "demo_transport = \<lparr>tp_do = (\<lambda>c e. (Inr \<lparr>hp_code = 200, hp_status = ''200 OK'', hp_body = ''{}''\<rparr>, e)),
     tp_url = (\<lambda>u. None), tp_json = (\<lambda>b. ''invalid'')\<rparr>"

definition demo_router :: "nat RouterServer" where
  "demo_router = NewServer (Some demo_engine) ''http://desk:8090/'' demo_transport"

definition demo_lease :: "string \<Rightarrow> Request" where
  "demo_lease session = \<lparr>hr_method = ''POST'', hr_path = [''v1'', ''worlds''], hr_query = (\<lambda>k. []),
     hr_header = (\<lambda>k. if k = ''X-Session-Id'' then session else []), hr_body = [], hr_broken = False\<rparr>"

lemma demo_lease_json: "request_json (demo_lease session) = BodyEOF"
  by (simp add: request_json_def demo_lease_def decode_body_def skip_ws_def)

lemma demo_lease_dispatch: "dispatch rt_routes (demo_lease session) = Serve RLease []"
  by (simp add: dispatch_def rt_routes_def demo_lease_def match_method_def)

lemma demo_lease_session: "lease_session (demo_lease session) lr = (if session = [] then lr_SessionID lr else session)"
  by (simp add: lease_session_def demo_lease_def Let_def)

definition demo_bound :: StickyMap where
  "demo_bound = Bind ''s1'' ''w0'' NewStickyMap"

lemma demo_bound_get: "Sticky_Get ''s1'' demo_bound = Some ''w0''"
  unfolding demo_bound_def by (simp add: sticky.get_bind sticky.inv_start)

lemma demo_lease_run: "fst (rt_run env demo_router [demo_lease ''s1''] (NewStickyMap, 0)) = demo_bound"
  by (simp add: rt_serve_def demo_lease_dispatch rt_handleLease_def demo_lease_json demo_lease_session sticky.get_start
      lease_new_def demo_router_def NewServer_def demo_engine_def demo_bound_def demo_info_def Let_def)

theorem sessions_never_share_world_witness:
  "Sticky_Get ''s1'' (fst (rt_run (\<lambda>k. []) demo_router [demo_lease ''s1''] (NewStickyMap, 0))) = Some ''w0'' \<and> ''s1'' = ''s1''"
  using sessions_never_share_world [of "''s1''" "\<lambda>k. []" demo_router "[demo_lease ''s1'']" 0 "''w0''" "''s1''"]
  by (simp add: demo_lease_run demo_bound_get del: rt_run.simps)

section \<open>A session keeps its world\<close>

text \<open>A lease body the decoder accepts, or none at all.\<close>

definition lease_body_ok :: "Request \<Rightarrow> bool" where
  "lease_body_ok r \<longleftrightarrow> request_json r = BodyEOF \<or>
     fst (body_members (request_json r)) \<and> fst (lease_of (snd (body_members (request_json r))))"

definition lease_request :: "Request \<Rightarrow> LeaseRequest" where
  "lease_request r = ApplyLeaseDefaults (snd (lease_of (snd (body_members (request_json r)))))"

lemma handleLease_unfold:
  "lease_body_ok r \<Longrightarrow> rt_handleLease s r (m, e) =
     (let session = lease_session r (lease_request r) in
      if session = [] then lease_new s (lease_request r) session (m, e)
      else case Sticky_Get session m of None \<Rightarrow> lease_new s (lease_request r) session (m, e)
        | Some wid \<Rightarrow>
            (case en_Get (rs_Engine s) wid e of
               (Inr (Some info), e1) \<Rightarrow> (Some (writeJSON 200 (Some (info_tree (info\<lparr>wi_SessionID := session\<rparr>)))), m, e1)
             | (x, e1) \<Rightarrow> lease_new s (lease_request r) session (UnbindSession session m, e1)))"
proof -
  assume "lease_body_ok r"
  then have *: "(request_json r \<noteq> BodyEOF \<and> \<not> (fst (body_members (request_json r))
      \<and> fst (lease_of (snd (body_members (request_json r)))))) = False"
    by (auto simp: lease_body_ok_def)
  show ?thesis unfolding rt_handleLease_def lease_request_def Let_def prod.case * if_False by (rule refl)
qed

text \<open>
  C24: a session keeps its world. While the engine still knows the world a session is bound to,
  every further lease of the session is answered 200 with that world; the engine is asked for
  nothing else, so no second world is started, and the binding stays.
\<close>

theorem lease_returns_bound_world:
  assumes "lease_body_ok r" and "lease_session r (lease_request r) = session" and "session \<noteq> []"
    and "Sticky_Get session m = Some wid" and "en_Get (rs_Engine s) wid e = (Inr (Some info), e1)"
  shows "rt_handleLease s r (m, e) =
    (Some (writeJSON 200 (Some (info_tree (info\<lparr>wi_SessionID := session\<rparr>)))), m, e1)"
  using assms by (simp add: handleLease_unfold)

theorem lease_returns_bound_world_witness:
  "rt_handleLease demo_router (demo_lease ''s1'') (demo_bound, 1) =
    (Some (writeJSON 200 (Some (info_tree ((demo_info ''w0'')\<lparr>wi_SessionID := ''s1''\<rparr>)))), demo_bound, 1)"
  by (rule lease_returns_bound_world [OF _ _ _ demo_bound_get])
    (simp_all add: lease_body_ok_def demo_lease_json demo_lease_session demo_router_def NewServer_def demo_engine_def)

text \<open>
  a new lease binds. When a session with no binding gets a world with a non-empty identifier,
  the answer is 201, the session is bound to exactly that world, a session that had the world loses
  it, and no other session changes.
\<close>

theorem lease_binds_session:
  assumes "sticky_inv m" and "lease_body_ok r" and "lease_session r (lease_request r) = session" and "session \<noteq> []"
    and "Sticky_Get session m = None" and "en_Available (rs_Engine s) e = (True, e1)"
    and "en_Lease (rs_Engine s) ((lease_request r)\<lparr>lr_SessionID := session\<rparr>) e1 = (Inr (Some info), e2)" and "wi_ID info \<noteq> []"
  shows "\<exists>m'. rt_handleLease s r (m, e) =
      (Some (writeJSON 201 (Some (info_tree (info\<lparr>wi_SessionID := session\<rparr>)))), m', e2)
    \<and> (\<forall>t. Sticky_Get t m' = (if t = session then Some (wi_ID info)
         else if Sticky_Get t m = Some (wi_ID info) then None else Sticky_Get t m))"
  using assms by (simp add: handleLease_unfold lease_new_def sticky.get_bind)

theorem lease_binds_session_witness:
  "\<exists>m'. rt_handleLease demo_router (demo_lease ''s1'') (NewStickyMap, 0) =
      (Some (writeJSON 201 (Some (info_tree ((demo_info ''w0'')\<lparr>wi_SessionID := ''s1''\<rparr>)))), m', 1)
    \<and> (\<forall>t. Sticky_Get t m' = (if t = ''s1'' then Some (wi_ID (demo_info ''w0''))
         else if Sticky_Get t NewStickyMap = Some (wi_ID (demo_info ''w0'')) then None else Sticky_Get t NewStickyMap))"
  by (rule lease_binds_session [OF sticky.inv_start, where ?e1.0 = 0])
    (simp_all add: lease_body_ok_def demo_lease_json demo_lease_session demo_router_def NewServer_def
      demo_engine_def sticky.get_start demo_info_def)

section \<open>No panic, no success without an engine\<close>

context engine
begin

lemma lease_new_no_panic:
  assumes "rs_Engine s = E" and "good e" and "lease_new s lr session (m, e) = (resp, st')"
  shows "resp \<noteq> None"
proof -
  obtain ok e1 where ok: "en_Available E e = (ok, e1)" by (cases "en_Available E e")
  obtain res e2 where res: "en_Lease E (lr\<lparr>lr_SessionID := session\<rparr>) e1 = (res, e2)"
    by (cases "en_Lease E (lr\<lparr>lr_SessionID := session\<rparr>) e1")
  have "res \<noteq> Inr None" using lease_some [OF available_good [OF assms(2) ok]] res by blast
  with assms ok res show ?thesis
    by (cases res) (auto simp: lease_new_def split: option.splits if_splits)
qed

lemma handleLease_no_panic:
  assumes "rs_Engine s = E" and "good e" and "rt_handleLease s r (m, e) = (resp, st')"
  shows "resp \<noteq> None"
proof -
  obtain wid where wid: "Sticky_Get (lease_session r (lease_request r)) m = wid" by simp
  have "resp \<noteq> None" if "lease_body_ok r"
  proof (cases "lease_session r (lease_request r) = [] \<or> wid = None")
    case True
    with that wid assms lease_new_no_panic [OF assms(1,2)] show ?thesis by (auto simp: handleLease_unfold Let_def split: if_splits)
  next
    case False
    then obtain w where w: "wid = Some w" by auto
    obtain res e1 where res: "en_Get E w e = (res, e1)" by (cases "en_Get E w e")
    note later = lease_new_no_panic [OF assms(1) get_good [OF assms(2) res]]
    from False that w wid res assms show ?thesis
      by (cases res) (auto simp: handleLease_unfold Let_def dest!: later split: option.splits)
  qed
  moreover have "resp \<noteq> None" if "\<not> lease_body_ok r"
    using that assms(3) by (auto simp: rt_handleLease_def lease_body_ok_def Let_def)
  ultimately show ?thesis by blast
qed

lemma serve_no_panic:
  assumes "rs_Engine s = E" and "good e" and "sane_transport (rs_desk s)" and "rt_serve env s r (m, e) = (resp, st')"
  shows "resp \<noteq> None"
proof (cases "\<exists>vs. dispatch rt_routes r = Serve RLease vs")
  case True
  then show ?thesis using assms handleLease_no_panic [of s e r m resp st'] by (auto simp: rt_serve_def)
next
  case False
  with assms exec_code [OF assms(2)] show ?thesis
    by (auto simp: rt_serve_def rt_handleHealth_def rt_handleGet_def rt_handleHeartbeat_def rt_handleExec_def
        rt_handleNetwork_def rt_handleDelete_def rt_handleEvents_def Let_def write_raw_def dest: send_writable
        split: dispatch.splits rt_handler.splits prod.splits sum.splits option.splits if_splits sent.splits)
qed

end

text \<open>
  C34: the router never panics in a handler: over the HTTP engine, with any transport whose replies
  carry a status between 100 and 999 (or that gives no reply), every request gets a response.
\<close>

theorem router_never_panics:
  assumes "sane_transport (snd h)" and "sane_transport tp"
  shows "fst (rt_serve env (NewServer (Some (HTTPEngine_engine h)) deskURL tp) r (m, e)) \<noteq> None"
proof -
  let ?s = "NewServer (Some (HTTPEngine_engine h)) deskURL tp"
  obtain resp st' where "rt_serve env ?s r (m, e) = (resp, st')" by (cases "rt_serve env ?s r (m, e)")
  with http.serve_no_panic [OF _ _ _ this] assms show ?thesis by (simp add: NewServer_def)
qed

theorem router_never_panics_witness:
  "fst (rt_serve (\<lambda>k. []) (NewServer (Some (HTTPEngine_engine (''http://lot'', demo_transport))) [] demo_transport)
     (demo_lease ''s1'') (NewStickyMap, 0 :: nat)) \<noteq> None"
  by (rule router_never_panics) (simp_all add: sane_transport_def demo_transport_def writable_def)

text \<open>
  Without an engine nothing succeeds. With \<open>UnavailableEngine\<close>, every request for a world (lease,
  get, heartbeat, exec, network, delete) is answered 503, or 400 when its body is refused; no
  session gets bound.
\<close>

theorem unavailable_engine_503:
  assumes "dispatch rt_routes r = Serve hnd vs" and "hnd \<in> {RLease, RGet, RHeartbeat, RExec, RNetwork, RDelete}"
    and "rt_serve env (NewServer None deskURL tp) r (NewStickyMap, e) = (resp, m', e')"
  shows "\<exists>x. resp = Some x \<and> rs_code x \<in> {400, 503} \<and> m' = NewStickyMap \<and> e' = e"
  using assms
  by (auto simp: rt_serve_def NewServer_def UnavailableEngine_def rt_handleLease_def lease_new_def rt_handleGet_def
      rt_handleHeartbeat_def rt_handleExec_def rt_handleNetwork_def rt_handleDelete_def engine_failure_def Let_def
      sticky.get_start split: rt_handler.splits option.splits if_splits)

theorem unavailable_engine_503_witness:
  "\<exists>x. Some (httpError 503 ''world engine unavailable'') = Some x \<and> rs_code x \<in> {400, 503}
     \<and> NewStickyMap = NewStickyMap \<and> (0 :: nat) = 0"
  by (rule unavailable_engine_503 [OF demo_lease_dispatch [of "''s1''"], where env = "\<lambda>k. []" and deskURL = "[]" and tp = demo_transport])
    (simp_all add: rt_serve_def demo_lease_dispatch rt_handleLease_def demo_lease_json demo_lease_session lease_new_def NewServer_def
      UnavailableEngine_def sticky.get_start Let_def)

section \<open>Releasing a world\<close>

text \<open>
  A destroyed world is unbound. After a delete that the engine accepts the answer is 200, no
  session is bound to the world, and every session bound to another world keeps it; when the engine
  refuses, the map is as before.
\<close>

theorem delete_unbinds_world:
  assumes "sticky_inv m" and "en_Destroy (rs_Engine s) w e = (res, e')"
  shows "\<exists>x m'. rt_handleDelete s w (m, e) = (Some x, m', e')
    \<and> (if res = None then rs_code x = 200 \<and> (\<forall>t. Sticky_Get t m' = (if Sticky_Get t m = Some w then None else Sticky_Get t m))
       else rs_code x \<in> {502, 503} \<and> m' = m)"
  using assms
  by (cases res; cases "the res") (simp_all add: rt_handleDelete_def sticky.get_unbind_world engine_failure_def)

theorem delete_unbinds_world_witness:
  "\<exists>x m'. rt_handleDelete demo_router ''w0'' (demo_bound, 1) = (Some x, m', 1) \<and> rs_code x = 200 \<and> Sticky_Get ''s1'' m' = None"
proof -
  have "sticky_inv demo_bound" by (simp add: demo_bound_def sticky.inv_bind sticky.inv_start)
  from delete_unbinds_world [OF this, of demo_router "''w0''" 1 None 1]
  show ?thesis using demo_bound_get by (auto simp: demo_router_def NewServer_def demo_engine_def)
qed

text \<open>
  a passing failure of the engine costs a session its world. When the engine cannot answer for the
  bound world at the moment of a lease, the binding is dropped although nothing destroyed the world,
  and the request itself is answered 503 or by a new world.
\<close>

theorem engine_outage_drops_binding:
  assumes "sticky_inv m" and "lease_body_ok r" and "lease_session r (lease_request r) = session" and "session \<noteq> []"
    and "Sticky_Get session m = Some wid" and "en_Get (rs_Engine s) wid e = (Inl ErrEngineUnavailable, e1)"
    and "en_Available (rs_Engine s) e1 = (False, e2)"
  shows "\<exists>m'. rt_handleLease s r (m, e) = (Some (httpError 503 ''world engine unavailable''), m', e2)
    \<and> Sticky_Get session m' = None"
  using assms by (simp add: handleLease_unfold lease_new_def sticky.get_unbind_session)

definition demo_down :: "nat RouterServer" where
  "demo_down = demo_router\<lparr>rs_Engine := UnavailableEngine\<rparr>"

theorem engine_outage_drops_binding_witness:
  "\<exists>m'. rt_handleLease demo_down (demo_lease ''s1'') (demo_bound, 1) = (Some (httpError 503 ''world engine unavailable''), m', 1)
    \<and> Sticky_Get ''s1'' m' = None"
proof (rule engine_outage_drops_binding [OF _ _ _ _ demo_bound_get])
  show "sticky_inv demo_bound" by (simp add: demo_bound_def sticky.inv_bind sticky.inv_start)
qed (simp_all add: lease_body_ok_def demo_lease_json demo_lease_session demo_down_def UnavailableEngine_def)

section \<open>What the engine's records look like on the wire\<close>

definition utf8_info :: "WorldInfo \<Rightarrow> bool" where
  "utf8_info i \<longleftrightarrow> valid_utf8 (wi_ID i) \<and> valid_utf8 (wi_Profile i) \<and> valid_utf8 (wi_State i) \<and> valid_utf8 (wi_TTLPause i)
     \<and> valid_utf8 (wi_TTLStore i) \<and> valid_utf8 (wi_TTLPrune i) \<and> valid_utf8 (wi_Network i) \<and> valid_utf8 (wi_Engine i)
     \<and> valid_utf8 (wi_SessionID i)"


end
