(* ===== verification/WorldVM.thy ===== *)
theory WorldVM
  imports HttpModel Paths "HOL-Library.Multiset"
begin

text \<open>
  \<open>runtime/world/world.go\<close>: starting, using and stopping one Firecracker world on the host. What a
  world holds on the host is a multiset of resources (listener, process, mount); the results of system
  calls are an argument, so that every early return is a branch.
\<close>

section \<open>Data\<close>

record StartOpts =
  so_ID :: string
  so_WorkDir :: string
  so_Kernel :: string
  so_Rootfs :: string
  so_Firecracker :: string
  so_Jailer :: string
  so_WaitKVM :: string
  so_GuestCID :: u32
  so_BareExec :: bool

text \<open>\<open>w_cmd\<close> is the process of the VMM, \<open>w_eventLn\<close> the path the event listener is on.\<close>

record World =
  w_ID :: string
  w_EventsPath :: string
  w_JailRoot :: string
  w_UDS :: string
  w_APISock :: string
  w_GuestCID :: u32
  w_Engine :: string
  w_cmd :: "nat option"
  w_eventLn :: "string option"
  w_kvmOverlay :: string

definition ExecPort :: nat where "ExecPort = 8080"
definition EventPort :: nat where "EventPort = 5252"

datatype resource = Listener string | Process nat | Mount string

type_synonym host = "resource multiset"

section \<open>The environment of a start\<close>

text \<open>
  \<open>se_err op p\<close> is the error of a system call on a path, if it fails, \<open>se_walk\<close> what \<open>filepath.Walk\<close>
  visits below a root, each with the error of the visit. \<open>se_kvm\<close> are the answers of
  \<open>os.Stat\<close> on the jailed KVM node until the deadline (\<open>None\<close> once it is there), \<open>se_health\<close> those of
  the health requests until the deadline.
\<close>

datatype sys_op = SMkdirAll | SOpenAppend | SOpen | SOpenTrunc | SCopyTo | SWriteFile | SListen | SCreate | SChmod | SChown | SExec
  | SStat | SMount

record start_env =
  se_euid :: int
  se_uid :: int
  se_gid :: int
  se_getenv :: environ
  se_evalsym :: "string \<Rightarrow> string option"
  se_err :: "sys_op \<Rightarrow> string \<Rightarrow> string option"
  se_walk :: "string \<Rightarrow> (string \<times> string option) list"
  se_pid :: nat
  se_kvm :: "string option list"
  se_health :: "(string + nat) list"

text \<open>Calls in sequence: the first that fails ends it.\<close>

fun first_error :: "string option list \<Rightarrow> string option" where
  "first_error [] = None"
| "first_error (Some e # es) = Some e"
| "first_error (None # es) = first_error es"

definition copyFile :: "start_env \<Rightarrow> string \<Rightarrow> string \<Rightarrow> string option" where
  "copyFile en src dst = first_error [se_err en SOpen src, se_err en SOpenTrunc dst, se_err en SCopyTo dst]"

definition chownTree :: "start_env \<Rightarrow> string \<Rightarrow> string option" where
  "chownTree en root = first_error (map (\<lambda>(p, e). case e of Some m \<Rightarrow> Some m | None \<Rightarrow> se_err en SChown p) (se_walk en root))"

definition resolveWaitKVM :: "start_env \<Rightarrow> string \<Rightarrow> (string, string) result" where
  "resolveWaitKVM en explicit =
     (let w = (if explicit = [] then se_getenv en ''BACKLOT_FC_WAITKVM'' else explicit) in
      if w = [] then Inl ''WaitKVM required for jailer (set StartOpts.WaitKVM or BACKLOT_FC_WAITKVM)''
      else let w' = (case se_evalsym en w of Some r \<Rightarrow> r | None \<Rightarrow> w) in
        case se_err en SStat w' of Some e \<Rightarrow> Inl (''WaitKVM '' @ w' @ '': '' @ e) | None \<Rightarrow> Inr w')"

text \<open>\<open>lib\<close> is the text of an error of \<open>strconv.Atoi\<close>.\<close>

definition drop_gid :: "(string \<Rightarrow> string) \<Rightarrow> int \<Rightarrow> int \<Rightarrow> environ \<Rightarrow> (string, int) result" where
  "drop_gid lib uid gid getenv =
     (if getenv ''SUDO_GID'' \<noteq> [] then
        (case atoi (getenv ''SUDO_GID'') of None \<Rightarrow> Inl (''SUDO_GID: '' @ lib (getenv ''SUDO_GID'')) | Some n \<Rightarrow> Inr n)
      else if getenv ''PKEXEC_GID'' \<noteq> [] then
        (case atoi (getenv ''PKEXEC_GID'') of None \<Rightarrow> Inl (''PKEXEC_GID: '' @ lib (getenv ''PKEXEC_GID'')) | Some n \<Rightarrow> Inr n)
      else Inr (if gid = 0 \<and> uid \<noteq> 0 then uid else gid))"

definition drop_uid :: "(string \<Rightarrow> string) \<Rightarrow> int \<Rightarrow> environ \<Rightarrow> (string, int) result" where
  "drop_uid lib uid getenv =
     (if getenv ''SUDO_UID'' \<noteq> [] then
        (case atoi (getenv ''SUDO_UID'') of None \<Rightarrow> Inl (''SUDO_UID: '' @ lib (getenv ''SUDO_UID'')) | Some n \<Rightarrow> Inr n)
      else if getenv ''PKEXEC_UID'' \<noteq> [] then
        (case atoi (getenv ''PKEXEC_UID'') of None \<Rightarrow> Inl (''PKEXEC_UID: '' @ lib (getenv ''PKEXEC_UID'')) | Some n \<Rightarrow> Inr n)
      else Inr uid)"

definition dropIDs :: "(string \<Rightarrow> string) \<Rightarrow> int \<Rightarrow> int \<Rightarrow> environ \<Rightarrow> (string, int \<times> int) result" where
  "dropIDs lib uid gid getenv =
     (if uid \<noteq> 0 then Inr (uid, gid)
      else case drop_uid lib uid getenv of Inl e \<Rightarrow> Inl e
        | Inr u \<Rightarrow> (case drop_gid lib u gid getenv of Inl e \<Rightarrow> Inl e
          | Inr g \<Rightarrow>
              if u = 0 then Inl ''privileged start with uid 0 cannot open KVM; invoke via sudo or pkexec so SUDO_UID/PKEXEC_UID is set''
              else Inr (u, g)))"

section \<open>The configuration of the VMM\<close>

definition defaultBootArgs :: string where
  "defaultBootArgs = ''console=ttyS0 reboot=k panic=1 pci=off nomodules random.trust_cpu=on init=/sbin/init root=/dev/vda rw''"

text \<open>The keys of a Go map are encoded in order.\<close>

definition fcConfig_tree :: "bool \<Rightarrow> u32 \<Rightarrow> jv" where
  "fcConfig_tree bareExec guestCID =
     (let bootArgs = defaultBootArgs @ (if bareExec then '' backlot.bare_exec=1'' else []) in
      JObj [(''boot-source'', JObj [(''boot_args'', jstr bootArgs), (''kernel_image_path'', jstr ''vmlinux'')]),
        (''drives'', JArr [JObj [(''drive_id'', jstr ''rootfs''), (''is_read_only'', JFalse), (''is_root_device'', JTrue),
           (''path_on_host'', jstr ''rootfs.ext4'')]]),
        (''machine-config'', JObj [(''mem_size_mib'', jnat 512), (''smt'', JFalse), (''vcpu_count'', jnat 2)]),
        (''vsock'', JObj [(''guest_cid'', jnat (unat guestCID)), (''uds_path'', jstr ''vsock.sock'')])])"

section \<open>Waiting\<close>

fun overlay_polls :: "string \<Rightarrow> (string option) \<Rightarrow> string \<Rightarrow> string option list \<Rightarrow> string option" where
  "overlay_polls target mnt lst [] = Some (''overlayHostKvm: '' @ target @ '' never appeared: '' @ lst)"
| "overlay_polls target mnt lst (Some e # ps) = overlay_polls target mnt e ps"
| "overlay_polls target mnt lst (None # ps) =
     (case mnt of Some e \<Rightarrow> Some (''bind /dev/kvm over '' @ target @ '': '' @ e) | None \<Rightarrow> None)"

text \<open>\<open>overlayHostKvm\<close>: \<open>None\<close> when the mount is in place.\<close>

definition overlayHostKvm :: "start_env \<Rightarrow> string \<Rightarrow> string option" where
  "overlayHostKvm en target = overlay_polls target (se_err en SMount target) ''<nil>'' (se_kvm en)"

fun health_polls :: "string \<Rightarrow> (string + nat) list \<Rightarrow> string option" where
  "health_polls lst [] = Some (''health timeout: '' @ lst)"
| "health_polls lst (Inl e # ps) = health_polls e ps"
| "health_polls lst (Inr code # ps) = (if code = 200 then None else health_polls (''health '' @ show_nat code) ps)"

definition waitHealth :: "start_env \<Rightarrow> string option" where
  "waitHealth en = health_polls ''%!w(<nil>)'' (se_health en)"

section \<open>Stopping\<close>

definition footprint :: "World \<Rightarrow> host" where
  "footprint w = (case w_cmd w of None \<Rightarrow> {#} | Some p \<Rightarrow> {#Process p#})
     + (case w_eventLn w of None \<Rightarrow> {#} | Some p \<Rightarrow> {#Listener p#})
     + (if w_kvmOverlay w = [] then {#} else {#Mount (w_kvmOverlay w)#})"

text \<open>
  \<open>Stop\<close>: the process is signalled and waited for, or killed after three seconds, so it is gone in
  both cases; then the listener is closed and the overlay detached. Closing and detaching what this
  process set up itself is taken to succeed (the code only logs a failure).
\<close>

definition unmountKvmOverlay :: "string \<Rightarrow> host \<Rightarrow> host" where
  "unmountKvmOverlay target h = (if target = [] then h else h - {#Mount target#})"

definition World_Stop :: "World \<Rightarrow> host \<Rightarrow> host" where
  "World_Stop w h =
     (let h1 = (case w_cmd w of None \<Rightarrow> h | Some p \<Rightarrow> h - {#Process p#});
          h2 = (case w_eventLn w of None \<Rightarrow> h1 | Some p \<Rightarrow> h1 - {#Listener p#})
      in unmountKvmOverlay (w_kvmOverlay w) h2)"

definition CmdPid :: "World \<Rightarrow> nat" where
  "CmdPid w = (case w_cmd w of Some p \<Rightarrow> p | None \<Rightarrow> 0)"

section \<open>Starting\<close>

definition jailer_args :: "StartOpts \<Rightarrow> string \<Rightarrow> string \<Rightarrow> int \<Rightarrow> int \<Rightarrow> string list" where
  "jailer_args o' waitKVM chrootBase uid gid =
     [so_Jailer o', ''--id'', so_ID o', ''--exec-file'', waitKVM, ''--uid'', show_int uid, ''--gid'', show_int gid,
      ''--chroot-base-dir'', chrootBase, ''--cgroup-version'', ''2'', ''--parent-cgroup'', ''backlot-m2'', ''--'',
      ''--api-sock'', ''/run/firecracker.socket'', ''--config-file'', ''config.json'']"

definition prefix_err :: "string \<Rightarrow> string option \<Rightarrow> string option" where
  "prefix_err p e = map_option (\<lambda>m. p @ m) e"

text \<open>
  \<open>startVMM\<close>: the process started, the arguments it was started with and the engine's name.
\<close>

definition startVMM :: "(string \<Rightarrow> string) \<Rightarrow> start_env \<Rightarrow> StartOpts \<Rightarrow> string \<Rightarrow> string
    \<Rightarrow> (string, nat \<times> string list \<times> string) result" where
  "startVMM lib en o' chrootBase jailRoot =
     (case se_err en SCreate (path_join [so_WorkDir o', ''firecracker.log'']) of Some e \<Rightarrow> Inl e
      | None \<Rightarrow>
        if se_euid en = 0 then
          (case resolveWaitKVM en (so_WaitKVM o') of Inl e \<Rightarrow> Inl e
           | Inr waitKVM \<Rightarrow> (case dropIDs lib (se_uid en) (se_gid en) (se_getenv en) of Inl e \<Rightarrow> Inl e
             | Inr (uid, gid) \<Rightarrow>
                 (let realFC = path_join [jailRoot, ''firecracker.real''];
                      waitDst = path_join [jailRoot, path_base waitKVM] in
                  case first_error [prefix_err ''copy firecracker.real: '' (copyFile en (so_Firecracker o') realFC), se_err en SChmod realFC,
                      prefix_err ''copy fc-waitkvm: '' (copyFile en waitKVM waitDst), se_err en SChmod waitDst,
                      chownTree en jailRoot, se_err en SExec (so_Jailer o')] of
                    Some e \<Rightarrow> Inl e
                  | None \<Rightarrow> Inr (se_pid en, jailer_args o' waitKVM chrootBase uid gid, ''jailer''))))
        else (case se_err en SExec (so_Firecracker o') of Some e \<Rightarrow> Inl e
          | None \<Rightarrow> Inr (se_pid en, [so_Firecracker o', ''--api-sock'', ''run/firecracker.socket'', ''--config-file'', ''config.json''],
                        ''firecracker'')))"

text \<open>The options as \<open>Start\<close> goes on with them and the name of the jail's folder.\<close>

definition start_folder :: "start_env \<Rightarrow> StartOpts \<Rightarrow> (string, StartOpts \<times> string) result" where
  "start_folder en o' =
     (if se_euid en = 0 then
        (case resolveWaitKVM en (so_WaitKVM o') of Inl e \<Rightarrow> Inl e
         | Inr w \<Rightarrow> Inr (o'\<lparr>so_WaitKVM := w\<rparr>, path_base w))
      else Inr (o', ''firecracker''))"

definition effective_cid :: "u32 \<Rightarrow> u32" where
  "effective_cid c = (if c = 0 then 3 else c)"

definition event_sock :: "string \<Rightarrow> string" where
  "event_sock jailRoot = path_join [jailRoot, ''vsock.sock''] @ ''_'' @ show_nat EventPort"

text \<open>What \<open>Start\<close> does before it holds any resource: the first error, if any.\<close>

definition prepare_jail :: "start_env \<Rightarrow> StartOpts \<Rightarrow> string \<Rightarrow> string option" where
  "prepare_jail en o' jailRoot =
     first_error [se_err en SMkdirAll jailRoot, copyFile en (so_Kernel o') (path_join [jailRoot, ''vmlinux'']),
       copyFile en (so_Rootfs o') (path_join [jailRoot, ''rootfs.ext4'']),
       if effective_cid (so_GuestCID o') < 3
         then Some (''guest CID must be >= 3, got '' @ show_nat (unat (effective_cid (so_GuestCID o')))) else None,
       se_err en SWriteFile (path_join [jailRoot, ''config.json'']), se_err en SMkdirAll (path_join [jailRoot, ''run'']),
       prefix_err ''listen guest events: ''
         (se_err en SListen (event_sock jailRoot))]"

text \<open>The part of \<open>Start\<close> from the VMM on, for the world that has its listener.\<close>

definition launch :: "(string \<Rightarrow> string) \<Rightarrow> start_env \<Rightarrow> StartOpts \<Rightarrow> string \<Rightarrow> string \<Rightarrow> World \<Rightarrow> host
    \<Rightarrow> (string, World) result \<times> host" where
  "launch lib en o' chrootBase jailRoot w h =
     (case startVMM lib en o' chrootBase jailRoot of
        Inl e \<Rightarrow> (Inl e, h - (case w_eventLn w of None \<Rightarrow> {#} | Some p \<Rightarrow> {#Listener p#}))
      | Inr (pid, args, eng) \<Rightarrow>
          (let w1 = w\<lparr>w_cmd := Some pid, w_Engine := eng\<rparr>; h1 = h + {#Process pid#};
               kvmTarget = path_join [jailRoot, ''dev'', ''kvm''] in
           if eng = ''jailer'' then
             (case overlayHostKvm en kvmTarget of Some e \<Rightarrow> (Inl e, World_Stop w1 h1)
              | None \<Rightarrow>
                  (let w2 = w1\<lparr>w_kvmOverlay := kvmTarget\<rparr>; h2 = h1 + {#Mount kvmTarget#} in
                   case waitHealth en of Some e \<Rightarrow> (Inl e, World_Stop w2 h2) | None \<Rightarrow> (Inr w2, h2)))
           else (case waitHealth en of Some e \<Rightarrow> (Inl e, World_Stop w1 h1) | None \<Rightarrow> (Inr w1, h1))))"

definition new_world :: "StartOpts \<Rightarrow> string \<Rightarrow> string \<Rightarrow> World" where
  "new_world o' events jailRoot =
     \<lparr>w_ID = so_ID o', w_EventsPath = events, w_JailRoot = jailRoot, w_UDS = path_join [jailRoot, ''vsock.sock''],
      w_APISock = path_join [jailRoot, ''run'', ''firecracker.socket''], w_GuestCID = effective_cid (so_GuestCID o'),
      w_Engine = [], w_cmd = None, w_eventLn = Some (event_sock jailRoot), w_kvmOverlay = []\<rparr>"

definition World_Start :: "(string \<Rightarrow> string) \<Rightarrow> start_env \<Rightarrow> StartOpts \<Rightarrow> host \<Rightarrow> (string, World) result \<times> host" where
  "World_Start lib en opts h =
     (let events = path_join [so_WorkDir opts, ''events.jsonl''];
          chrootBase = path_join [so_WorkDir opts, ''jails''] in
      case first_error [se_err en SMkdirAll (so_WorkDir opts), se_err en SOpenAppend events] of Some e \<Rightarrow> (Inl e, h)
      | None \<Rightarrow> (case start_folder en opts of Inl e \<Rightarrow> (Inl e, h)
        | Inr (o', folder) \<Rightarrow>
            (let jailRoot = path_join [chrootBase, folder, so_ID o', ''root''] in
             case prepare_jail en o' jailRoot of Some e \<Rightarrow> (Inl e, h)
             | None \<Rightarrow> launch lib en o' chrootBase jailRoot (new_world o' events jailRoot)
                        (h + {#Listener (event_sock jailRoot)#}))))"

lemmas [world_defs] = World_Start_def launch_def startVMM_def prepare_jail_def

end
