(* ===== verification/WorldHost.thy ===== *)
theory WorldHost
  imports WorldVM
begin

text \<open>
  The contract of starting and stopping worlds: a start that fails leaves the host as it was, one
  that succeeds adds exactly the footprint of the world it returns, and a stop takes exactly that
  footprint away. Whoever keeps the worlds it started can then account for every resource.
\<close>

locale vm_host =
  fixes start :: "'env \<Rightarrow> 'o \<Rightarrow> 'r multiset \<Rightarrow> ('err, 'w) result \<times> 'r multiset"
    and stop :: "'w \<Rightarrow> 'r multiset \<Rightarrow> 'r multiset"
    and foot :: "'w \<Rightarrow> 'r multiset"
  assumes start_error: "start en opts h = (Inl e, h') \<Longrightarrow> h' = h"
    and start_ok: "start en opts h = (Inr w, h') \<Longrightarrow> h' = h + foot w"
    and stop_foot: "stop w (h + foot w) = h"
begin

text \<open>The host holds what it held at the beginning and the footprints of the worlds kept.\<close>

definition held :: "'r multiset \<Rightarrow> 'w multiset \<Rightarrow> 'r multiset \<Rightarrow> bool" where
  "held base ws h \<longleftrightarrow> h = base + (\<Sum>w\<in>#ws. foot w)"

lemma held_start_error: "held base ws h \<Longrightarrow> start en opts h = (Inl e, h') \<Longrightarrow> held base ws h'"
  using start_error by blast

lemma held_start: "held base ws h \<Longrightarrow> start en opts h = (Inr w, h') \<Longrightarrow> held base (add_mset w ws) h'"
  using start_ok [of en opts h w h'] by (simp add: held_def ac_simps)

lemma held_stop: "held base (add_mset w ws) h \<Longrightarrow> held base ws (stop w h)"
  using stop_foot [of w "base + (\<Sum>w\<in>#ws. foot w)"] by (simp add: held_def ac_simps)

lemma held_stop_member: "held base ws h \<Longrightarrow> w \<in># ws \<Longrightarrow> held base (ws - {#w#}) (stop w h)"
  using held_stop [of base w "ws - {#w#}" h] by simp

lemma held_stop_all: "held base (mset ws + rest) h \<Longrightarrow> held base rest (fold stop ws h)"
  by (induction ws arbitrary: h) (simp_all add: held_stop)

lemma held_empty: "held base {#} h \<longleftrightarrow> h = base"
  by (simp add: held_def)

end

lemma World_Stop_footprint: "World_Stop w (h + footprint w) = h"
  by (simp add: World_Stop_def unmountKvmOverlay_def footprint_def Let_def ac_simps split: option.split)

lemma startVMM_engine: "startVMM lib en o' c j = Inr (pid, args, eng) \<Longrightarrow> eng = ''jailer'' \<or> eng = ''firecracker''"
  by (auto simp: startVMM_def Let_def split: option.splits sum.splits if_splits)

lemma path_join_kvm: "path_join [j, ''dev'', ''kvm''] \<noteq> []"
  by (rule path_join_plain_nonempty) (simp_all add: plain_elem_def)

lemma launch_host:
  assumes w: "w_cmd w = None" "w_eventLn w = Some ln" "w_kvmOverlay w = []"
    and l: "launch lib en o' c j w (add_mset (Listener ln) h) = (res, h')"
  shows "case res of Inl e \<Rightarrow> h' = h | Inr w' \<Rightarrow> h' = h + footprint w'"
proof (cases "startVMM lib en o' c j")
  case (Inl e)
  with w l show ?thesis by (auto simp: launch_def)
next
  case (Inr x)
  obtain pid args eng where x: "x = (pid, args, eng)" by (cases x)
  show ?thesis
    using l w Inr x
    by (auto simp: launch_def Let_def footprint_def World_Stop_def unmountKvmOverlay_def path_join_kvm add_mset_commute
        split: option.splits if_splits)
qed

lemma new_world_simps [simp]:
  "w_cmd (new_world o' ev j) = None" "w_eventLn (new_world o' ev j) = Some (event_sock j)"
  "w_kvmOverlay (new_world o' ev j) = []" "w_ID (new_world o' ev j) = so_ID o'"
  "w_GuestCID (new_world o' ev j) = effective_cid (so_GuestCID o')" "w_JailRoot (new_world o' ev j) = j"
  by (simp_all add: new_world_def)

lemma launch_new:
  "launch lib en o' c j (new_world p ev k) (add_mset (Listener (event_sock k)) h) = (Inl e, h') \<Longrightarrow> h' = h"
  "launch lib en o' c j (new_world p ev k) (add_mset (Listener (event_sock k)) h) = (Inr w, h') \<Longrightarrow> h' = h + footprint w"
  using launch_host [of "new_world p ev k" "event_sock k" lib en o' c j h "Inl e" h']
    launch_host [of "new_world p ev k" "event_sock k" lib en o' c j h "Inr w" h'] by simp_all

lemma World_Start_host:
  "World_Start lib en opts h = (Inl e, h') \<Longrightarrow> h' = h"
  "World_Start lib en opts h = (Inr w, h') \<Longrightarrow> h' = h + footprint w"
  by (auto simp: World_Start_def Let_def dest: launch_new split: option.splits sum.splits)

interpretation host: vm_host "World_Start lib" World_Stop footprint for lib
  by unfold_locales (rule World_Start_host World_Stop_footprint, assumption?)+

end
