(* ===== verification/WorldExec.thy ===== *)
theory WorldExec
  imports WorldVM
begin

text \<open>
  \<open>runtime/world/world.go\<close>, the calls into a running world: the event stream of the guest, commands,
  and the pause and resume requests to the VMM. The HTTP clients (over vsock and over the API
  socket) are transports.
\<close>

section \<open>The event stream\<close>

text \<open>The limit of the scanner on the stream.\<close>

definition eventLine :: nat where
  "eventLine = 1024 * 1024"

text \<open>
  \<open>drainEvents\<close>: the lines of a connection appended to the events file. \<open>wr\<close> is how many writes
  succeed before one fails, leaving \<open>part\<close> of its bytes; \<open>None\<close> when none fails. \<open>op\<close> is the error of
  opening the file.
\<close>

fun append_events :: "(nat \<times> nat) option \<Rightarrow> string list \<Rightarrow> string \<Rightarrow> string" where
  "append_events wr [] f = f"
| "append_events wr (l # ls) f =
     (if l = [] then append_events wr ls f
      else case wr of None \<Rightarrow> append_events wr ls (f @ l @ [nl])
        | Some (0, part) \<Rightarrow> f @ take part (l @ [nl])
        | Some (Suc n, part) \<Rightarrow> append_events (Some (n, part)) ls (f @ l @ [nl]))"

definition drainEvents :: "string option \<Rightarrow> (nat \<times> nat) option \<Rightarrow> string \<Rightarrow> string \<Rightarrow> string" where
  "drainEvents op wr conn f = (case op of Some e \<Rightarrow> f | None \<Rightarrow> append_events wr (fst (scan_lines eventLine conn)) f)"

text \<open>Lines that fit are all recorded, in order and unchanged.\<close>

lemma append_events_all: "append_events None ls f = f @ concat (map (\<lambda>l. if l = [] then [] else l @ [nl]) ls)"
  by (induction ls arbitrary: f) auto

section \<open>Commands\<close>

record ExecResult =
  xr_ExitCode :: int
  xr_Stdout :: string
  xr_Stderr :: string

definition execURL :: "string \<Rightarrow> bool \<Rightarrow> string" where
  "execURL worldID bareExec = (if bareExec then ''http://vsock/v1/internal/bare-exec''
     else ''http://vsock/v1/worlds/'' @ worldID @ ''/exec'')"

definition execBody_tree :: "string list \<Rightarrow> int \<Rightarrow> jv" where
  "execBody_tree argv timeoutSec = JObj [(''argv'', JArr (map jstr argv)), (''timeout'', jint timeoutSec)]"

definition execBody :: "string list \<Rightarrow> int \<Rightarrow> string" where
  "execBody argv timeoutSec = render (execBody_tree argv timeoutSec)"

definition result_of :: "members \<Rightarrow> bool \<times> ExecResult" where
  "result_of ms = (let c = field_int ''exit_code'' 0 ms; so = field_str ''stdout'' [] ms; se = field_str ''stderr'' [] ms
     in (fst c \<and> fst so \<and> fst se, \<lparr>xr_ExitCode = snd c, xr_Stdout = snd so, xr_Stderr = snd se\<rparr>))"

definition doExec :: "'e transport \<Rightarrow> string \<Rightarrow> string list \<Rightarrow> int \<Rightarrow> 'e \<Rightarrow> (string, ExecResult) result \<times> 'e" where
  "doExec tp url argv timeoutSec e =
     (case send tp ''POST'' url (execBody argv timeoutSec) e of
        (BadRequest m, e') \<Rightarrow> (Inl m, e')
      | (NoReply m, e') \<Rightarrow> (Inl m, e')
      | (Reply r, e') \<Rightarrow>
          (if hp_code r \<noteq> 200 then Inl (''exec http '' @ show_nat (hp_code r) @ '': '' @ hp_body r)
           else case unmarshal_with result_of (hp_body r) of None \<Rightarrow> Inl (tp_json tp (hp_body r)) | Some x \<Rightarrow> Inr x, e'))"

definition World_Exec :: "'e transport \<Rightarrow> World \<Rightarrow> string list \<Rightarrow> int \<Rightarrow> 'e \<Rightarrow> (string, ExecResult) result \<times> 'e" where
  "World_Exec tp w argv t e = doExec tp (execURL (w_ID w) False) argv t e"

definition World_BareExec :: "'e transport \<Rightarrow> World \<Rightarrow> string list \<Rightarrow> int \<Rightarrow> 'e \<Rightarrow> (string, ExecResult) result \<times> 'e" where
  "World_BareExec tp w argv t e = doExec tp (execURL (w_ID w) True) argv t e"

section \<open>Pausing\<close>

definition fcAPI :: "'e transport \<Rightarrow> World \<Rightarrow> string \<Rightarrow> string \<Rightarrow> 'e \<Rightarrow> string option \<times> 'e" where
  "fcAPI tp w m path e =
     (if w_APISock w = [] then (Some ''world: no firecracker api socket'', e)
      else case send tp m (''http://localhost'' @ path) [] e of
        (BadRequest msg, e') \<Rightarrow> (Some msg, e')
      | (NoReply msg, e') \<Rightarrow> (Some (''firecracker '' @ m @ '' '' @ path @ '': '' @ msg), e')
      | (Reply r, e') \<Rightarrow>
          (if 300 \<le> hp_code r then Some (''firecracker '' @ m @ '' '' @ path @ '': '' @ hp_status r @ '' '' @ hp_body r)
           else None, e'))"

definition World_Pause :: "'e transport \<Rightarrow> World \<Rightarrow> 'e \<Rightarrow> string option \<times> 'e" where
  "World_Pause tp w e = fcAPI tp w ''PUT'' ''/pause'' e"

definition World_Resume :: "'e transport \<Rightarrow> World \<Rightarrow> 'e \<Rightarrow> string option \<times> 'e" where
  "World_Resume tp w e = fcAPI tp w ''PUT'' ''/resume'' e"

section \<open>The configuration file\<close>

text \<open>\<open>json.MarshalIndent\<close> with two spaces.\<close>

definition newline_indent :: "nat \<Rightarrow> string" where
  "newline_indent n = nl # replicate (2 * n) (CHR '' '')"

fun indent_elems :: "string \<Rightarrow> string list \<Rightarrow> string" where
  "indent_elems sep [] = []"
| "indent_elems sep [x] = sep @ x"
| "indent_elems sep (x # xs) = sep @ x @ '','' @ indent_elems sep xs"

fun render_indent :: "nat \<Rightarrow> jv \<Rightarrow> string" where
  "render_indent n (JArr vs) = (if vs = [] then ''[]'' else
     ''['' @ indent_elems (newline_indent (Suc n)) (map (render_indent (Suc n)) vs) @ newline_indent n @ '']'')"
| "render_indent n (JObj ms) = (if ms = [] then ''{}'' else
     ''{'' @ indent_elems (newline_indent (Suc n)) (map (\<lambda>(k, v). str_lit k @ '': '' @ render_indent (Suc n) v) ms)
       @ newline_indent n @ ''}'')"
| "render_indent n v = render v"

definition fcConfigJSON :: "bool \<Rightarrow> u32 \<Rightarrow> string" where
  "fcConfigJSON bareExec guestCID = render_indent 0 (fcConfig_tree bareExec guestCID)"

lemmas [world_defs] = doExec_def fcAPI_def World_Exec_def World_Pause_def World_Resume_def

end
