(* ===== verification/BossState.thy ===== *)
theory BossState
  imports WorldHost WorldExec GoTime
begin

text \<open>
  \<open>lot/boss.go\<close> and \<open>lot/pause.go\<close>: the state of lot-boss, its configuration, and what it does to one
  slot. The map of worlds is an association list with distinct keys; Go's iteration order over it is
  an argument where it can be observed. The texts of errors are the errors.
\<close>

section \<open>Configuration\<close>

definition DefaultMaxWorlds :: int where "DefaultMaxWorlds = 3"
definition DefaultWarmPool :: int where "DefaultWarmPool = 0"

record Config =
  cf_MaxWorlds :: int
  cf_WarmPool :: int
  cf_RequireKVM :: bool
  cf_KVMPath :: string
  cf_WorkDir :: string
  cf_Kernel :: string
  cf_Rootfs :: string
  cf_Firecracker :: string
  cf_Jailer :: string
  cf_WaitKVM :: string
  cf_DeskURL :: string
  cf_RequireJailer :: bool

definition default_config :: "environ \<Rightarrow> Config \<Rightarrow> Config" where
  "default_config env c0 =
     (let c1 = (if cf_MaxWorlds c0 \<le> 0 then c0\<lparr>cf_MaxWorlds := DefaultMaxWorlds\<rparr> else c0);
          c2 = (if cf_WarmPool c1 < 0 then c1\<lparr>cf_WarmPool := DefaultWarmPool\<rparr> else c1);
          c3 = (if cf_WarmPool c2 > 1 then c2\<lparr>cf_WarmPool := 1\<rparr> else c2);
          c4 = (if cf_KVMPath c3 = [] then c3\<lparr>cf_KVMPath := ''/dev/kvm''\<rparr> else c3);
          c5 = (if cf_Firecracker c4 = []
                then c4\<lparr>cf_Firecracker := env_or env ''FIRECRACKER_BIN'' ''/usr/local/firecracker/v1.15.1/firecracker''\<rparr> else c4);
          c6 = (if cf_Jailer c5 = []
                then c5\<lparr>cf_Jailer := env_or env ''JAILER_BIN'' ''/usr/local/firecracker/v1.15.1/jailer''\<rparr> else c5)
      in if cf_WaitKVM c6 = [] then c6\<lparr>cf_WaitKVM := env ''BACKLOT_FC_WAITKVM''\<rparr> else c6)"

section \<open>Worlds and slots\<close>

record BossWorld =
  bw_ID :: string
  bw_Profile :: string
  bw_State :: string
  bw_TTLPause :: string
  bw_TTLStore :: string
  bw_TTLPrune :: string
  bw_Network :: string
  bw_Engine :: string
  bw_GuestCID :: u32
  bw_UDS :: string
  bw_JailRoot :: string

definition boss_world_tree :: "BossWorld \<Rightarrow> jv" where
  "boss_world_tree w = JObj ([(''id'', jstr (bw_ID w)), (''profile'', jstr (bw_Profile w)), (''state'', jstr (bw_State w)),
      (''ttl_pause'', jstr (bw_TTLPause w)), (''ttl_store'', jstr (bw_TTLStore w)), (''ttl_prune'', jstr (bw_TTLPrune w)),
      (''network'', jstr (bw_Network w))]
     @ omit_str ''engine'' (bw_Engine w)
     @ (if bw_GuestCID w = 0 then [] else [(''guest_cid'', jnat (unat (bw_GuestCID w)))])
     @ omit_str ''vsock_uds'' (bw_UDS w) @ omit_str ''jail_root'' (bw_JailRoot w))"

text \<open>Times are nanoseconds; \<open>sl_w\<close> is the world the slot shepherds.\<close>

record slot =
  sl_info :: BossWorld
  sl_w :: World
  sl_lastActive :: int
  sl_ttlPause :: int
  sl_paused :: bool

text \<open>\<open>bs_fwd\<close> are the worlds whose event forwarder is running (its context is not cancelled).\<close>

record Boss =
  bs_cfg :: Config
  bs_worlds :: "(string \<times> slot) list"
  bs_nextCID :: u32
  bs_stopping :: bool
  bs_fwd :: "string multiset"

definition NewBossConfig :: "environ \<Rightarrow> Config \<Rightarrow> Boss" where
  "NewBossConfig env cfg = \<lparr>bs_cfg = default_config env cfg, bs_worlds = [], bs_nextCID = 3, bs_stopping = False, bs_fwd = {#}\<rparr>"

definition NewBoss :: "environ \<Rightarrow> int \<Rightarrow> int \<Rightarrow> bool \<Rightarrow> Boss" where
  "NewBoss env mx warm requireKVM = NewBossConfig env
     \<lparr>cf_MaxWorlds = mx, cf_WarmPool = warm, cf_RequireKVM = requireKVM, cf_KVMPath = ''/dev/kvm'', cf_WorkDir = [],
      cf_Kernel = [], cf_Rootfs = [], cf_Firecracker = [], cf_Jailer = [], cf_WaitKVM = [], cf_DeskURL = [],
      cf_RequireJailer = False\<rparr>"

text \<open>The map operations: lookup, assignment and \<open>delete\<close>.\<close>

fun slot_delete :: "string \<Rightarrow> (string \<times> slot) list \<Rightarrow> (string \<times> slot) list" where
  "slot_delete k [] = []"
| "slot_delete k (x # xs) = (if fst x = k then slot_delete k xs else x # slot_delete k xs)"

fun slot_update :: "string \<Rightarrow> slot \<Rightarrow> (string \<times> slot) list \<Rightarrow> (string \<times> slot) list" where
  "slot_update k v [] = [(k, v)]"
| "slot_update k v (x # xs) = (if fst x = k then (k, v) # xs else x # slot_update k v xs)"

section \<open>Readiness\<close>

record boss_os =
  bo_open :: "string \<Rightarrow> bool"
  bo_stat :: "string \<Rightarrow> bool"
  bo_euid :: int

definition kvmOK :: "boss_os \<Rightarrow> Boss \<Rightarrow> bool" where
  "kvmOK os b = (if \<not> cf_RequireKVM (bs_cfg b) then True else bo_open os (cf_KVMPath (bs_cfg b)))"

definition artifactsOK :: "boss_os \<Rightarrow> Boss \<Rightarrow> bool" where
  "artifactsOK os b =
     (let c = bs_cfg b in
      if \<not> list_all (\<lambda>p. p \<noteq> [] \<and> bo_stat os p) [cf_Kernel c, cf_Rootfs c, cf_Firecracker c, cf_Jailer c] then False
      else if cf_RequireJailer c \<and> (cf_WaitKVM c = [] \<or> \<not> bo_stat os (cf_WaitKVM c)) then False
      else cf_WorkDir c \<noteq> [])"

definition EngineReady :: "boss_os \<Rightarrow> Boss \<Rightarrow> bool" where
  "EngineReady os b =
     (if \<not> kvmOK os b \<or> \<not> artifactsOK os b then False
      else if cf_RequireJailer (bs_cfg b) \<and> bo_euid os \<noteq> 0 then False else True)"

section \<open>Pausing a slot\<close>

text \<open>\<open>Time.Sub\<close> saturates at the range of a duration.\<close>

definition time_sub :: "int \<Rightarrow> int \<Rightarrow> int" where
  "time_sub a b = max (- (2 ^ 63)) (min (2 ^ 63 - 1) (a - b))"

definition parseTTLPause :: "(nat \<Rightarrow> nat \<Rightarrow> nat \<Rightarrow> nat) \<Rightarrow> string \<Rightarrow> int" where
  "parseTTLPause fmul s = (case parse_duration fmul s of None \<Rightarrow> 15 * minute | Some d \<Rightarrow> if d \<le> 0 then 15 * minute else d)"

text \<open>\<open>fc\<close> is the API client of the slot's VMM.\<close>

definition considerPause :: "'e transport \<Rightarrow> int \<Rightarrow> slot \<Rightarrow> 'e \<Rightarrow> slot \<times> 'e" where
  "considerPause fc now s e =
     (if sl_paused s \<or> sl_ttlPause s \<le> 0 then (s, e)
      else if time_sub now (sl_lastActive s) < sl_ttlPause s then (s, e)
      else case World_Pause fc (sl_w s) e of
        (Some err, e') \<Rightarrow> (s, e')
      | (None, e') \<Rightarrow> (s\<lparr>sl_paused := True, sl_info := (sl_info s)\<lparr>bw_State := ''paused''\<rparr>\<rparr>, e'))"

definition onActivity :: "'e transport \<Rightarrow> int \<Rightarrow> slot \<Rightarrow> 'e \<Rightarrow> slot \<times> 'e" where
  "onActivity fc now s e =
     (let active = s\<lparr>sl_paused := False, sl_info := (sl_info s)\<lparr>bw_State := ''running''\<rparr>, sl_lastActive := now\<rparr> in
      if sl_paused s then
        (case World_Resume fc (sl_w s) e of (Some err, e') \<Rightarrow> (s, e') | (None, e') \<Rightarrow> (active, e'))
      else (active, e))"

text \<open>
  One tick of \<open>pauseLoop\<close>; \<open>None\<close> when the loop ends. \<open>order\<close> is the order in which the range over the
  map meets its keys.
\<close>

fun pause_slots :: "(World \<Rightarrow> 'e transport) \<Rightarrow> int \<Rightarrow> string list \<Rightarrow> (string \<times> slot) list \<Rightarrow> 'e \<Rightarrow> (string \<times> slot) list \<times> 'e" where
  "pause_slots fc now [] ws e = (ws, e)"
| "pause_slots fc now (k # ks) ws e =
     (case map_of ws k of None \<Rightarrow> pause_slots fc now ks ws e
      | Some s \<Rightarrow> (let (s', e1) = considerPause (fc (sl_w s)) now s e in pause_slots fc now ks (slot_update k s' ws) e1))"

definition pause_tick :: "(string list \<Rightarrow> string list) \<Rightarrow> (World \<Rightarrow> 'e transport) \<Rightarrow> int \<Rightarrow> Boss \<Rightarrow> 'e \<Rightarrow> (Boss \<times> 'e) option" where
  "pause_tick order fc now b e =
     (if bs_stopping b then None
      else let (ws, e') = pause_slots fc now (order (map fst (bs_worlds b))) (bs_worlds b) e in Some (b\<lparr>bs_worlds := ws\<rparr>, e'))"

section \<open>Invariants\<close>

text \<open>A slot's state text says whether it is paused.\<close>

definition slot_ok :: "string \<times> slot \<Rightarrow> bool" where
  "slot_ok x \<longleftrightarrow> bw_ID (sl_info (snd x)) = fst x
     \<and> bw_State (sl_info (snd x)) = (if sl_paused (snd x) then ''paused'' else ''running'')
     \<and> bw_Network (sl_info (snd x)) \<in> {''dark'', ''proxy''} \<and> 0 < sl_ttlPause (snd x)"

lemma considerPause_ok: "slot_ok (k, s) \<Longrightarrow> considerPause fc now s e = (s', e') \<Longrightarrow> slot_ok (k, s')"
  by (auto simp: considerPause_def slot_ok_def split: prod.splits option.splits if_splits)

lemma onActivity_ok: "slot_ok (k, s) \<Longrightarrow> onActivity fc now s e = (s', e') \<Longrightarrow> slot_ok (k, s')"
  by (auto simp: onActivity_def slot_ok_def Let_def split: prod.splits option.splits if_splits)

lemma considerPause_world: "considerPause fc now s e = (s', e') \<Longrightarrow> sl_w s' = sl_w s"
  by (auto simp: considerPause_def split: prod.splits option.splits if_splits)

lemma onActivity_world: "onActivity fc now s e = (s', e') \<Longrightarrow> sl_w s' = sl_w s"
  by (auto simp: onActivity_def Let_def split: prod.splits option.splits if_splits)

section \<open>The map of worlds\<close>

lemma slot_delete_keys: "map fst (slot_delete k xs) = filter (\<lambda>i. i \<noteq> k) (map fst xs)"
  by (induction xs) auto

lemma slot_delete_id: "k \<notin> fst ` set xs \<Longrightarrow> slot_delete k xs = xs"
  by (induction xs) auto

lemma slot_update_fresh: "k \<notin> fst ` set xs \<Longrightarrow> slot_update k v xs = xs @ [(k, v)]"
  by (induction xs) auto

lemma slot_update_keys: "map fst (slot_update k v xs) = (if k \<in> fst ` set xs then map fst xs else map fst xs @ [k])"
  by (induction xs) auto

lemma slot_update_in: "x \<in> set (slot_update k v xs) \<Longrightarrow> x = (k, v) \<or> x \<in> set xs"
  by (induction xs) (auto split: if_splits)

lemma slot_delete_in: "x \<in> set (slot_delete k xs) \<Longrightarrow> x \<in> set xs"
  by (induction xs) (auto split: if_splits)

lemma map_of_slot_update [simp]: "map_of (slot_update k v xs) = (map_of xs)(k \<mapsto> v)"
  by (induction xs) auto

lemma map_of_slot_delete [simp]: "map_of (slot_delete k xs) = (map_of xs)(k := None)"
  by (induction xs) auto

text \<open>The worlds the slots shepherd, and what an update and a removal do to them.\<close>

definition shepherded :: "(string \<times> slot) list \<Rightarrow> World multiset" where
  "shepherded xs = mset (map (\<lambda>x. sl_w (snd x)) xs)"

lemma shepherded_simps [simp]:
  "shepherded [] = {#}" "shepherded (x # xs) = add_mset (sl_w (snd x)) (shepherded xs)"
  "shepherded (xs @ ys) = shepherded xs + shepherded ys"
  by (simp_all add: shepherded_def)

text \<open>What changing one slot keeps: the worlds under their keys, and the slots' invariant.\<close>

definition worlds_ok :: "(string \<times> slot) list \<Rightarrow> bool" where
  "worlds_ok ws \<longleftrightarrow> distinct (map fst ws) \<and> list_all slot_ok ws"

definition kept :: "(string \<times> slot) list \<Rightarrow> (string \<times> World) list" where
  "kept ws = map (\<lambda>x. (fst x, sl_w (snd x))) ws"

definition same_worlds :: "(string \<times> slot) list \<Rightarrow> (string \<times> slot) list \<Rightarrow> bool" where
  "same_worlds ws ws' \<longleftrightarrow> kept ws' = kept ws \<and> worlds_ok ws'"

lemma kept_simps [simp]: "kept [] = []" "kept (x # xs) = (fst x, sl_w (snd x)) # kept xs" "kept (xs @ ys) = kept xs @ kept ys"
  by (simp_all add: kept_def)

lemma kept_keys: "map fst (kept ws) = map fst ws"
  by (simp add: kept_def)

lemma kept_shepherded: "shepherded ws = image_mset snd (mset (kept ws))"
  by (simp add: kept_def shepherded_def multiset.map_comp comp_def)

lemma kept_length [simp]: "length (kept ws) = length ws"
  by (simp add: kept_def)

lemma worlds_ok_slot: "worlds_ok ws \<Longrightarrow> map_of ws k = Some s \<Longrightarrow> slot_ok (k, s)"
  by (auto simp: worlds_ok_def list_all_iff dest: map_of_SomeD)

lemma same_worlds_refl [simp]: "same_worlds ws ws = worlds_ok ws"
  by (simp add: same_worlds_def)

lemma same_worlds_trans: "same_worlds ws ws' \<Longrightarrow> same_worlds ws' ws'' \<Longrightarrow> same_worlds ws ws''"
  by (simp add: same_worlds_def)

lemma same_worldsD: "same_worlds ws ws' \<Longrightarrow> worlds_ok ws' \<and> kept ws' = kept ws \<and> length ws' = length ws"
  by (metis kept_length same_worlds_def)

lemma slot_update_kept: "map_of ws k = Some s \<Longrightarrow> sl_w s' = sl_w s \<Longrightarrow> kept (slot_update k s' ws) = kept ws"
  by (induction ws) (auto split: if_splits)

lemma worlds_ok_update: "worlds_ok ws \<Longrightarrow> slot_ok (k, s) \<Longrightarrow> worlds_ok (slot_update k s ws)"
  by (auto simp: worlds_ok_def list_all_iff slot_update_keys dest: slot_update_in)

lemma worlds_ok_delete: "worlds_ok ws \<Longrightarrow> worlds_ok (slot_delete k ws)"
  by (auto simp: worlds_ok_def list_all_iff slot_delete_keys dest: slot_delete_in)

lemma slot_update_same:
  "worlds_ok ws \<Longrightarrow> map_of ws k = Some s \<Longrightarrow> slot_ok (k, s') \<Longrightarrow> sl_w s' = sl_w s \<Longrightarrow> same_worlds ws (slot_update k s' ws)"
  by (simp add: same_worlds_def slot_update_kept worlds_ok_update)

lemma kept_delete:
  "distinct (map fst ws) \<Longrightarrow> map_of ws k = Some s \<Longrightarrow> mset (kept ws) = add_mset (k, sl_w s) (mset (kept (slot_delete k ws)))"
proof (induction ws)
  case (Cons x ws)
  obtain j t where x: "x = (j, t)" by (cases x)
  show ?case
  proof (cases "j = k")
    case True
    with Cons.prems x have "k \<notin> fst ` set ws" by force
    with Cons.prems x True show ?thesis by (simp add: slot_delete_id)
  next
    case False
    with Cons x show ?thesis by auto
  qed
qed simp

lemma slot_delete_length: "distinct (map fst ws) \<Longrightarrow> map_of ws k = Some s \<Longrightarrow> length ws = Suc (length (slot_delete k ws))"
  using kept_delete [of ws k s] by (metis kept_length size_add_mset size_mset)

lemma pause_slots_same:
  "worlds_ok ws \<Longrightarrow> pause_slots fc now ks ws e = (ws', e') \<Longrightarrow> same_worlds ws ws'"
proof (induction ks arbitrary: ws e)
  case (Cons k ks)
  show ?case
  proof (cases "map_of ws k")
    case (Some s)
    obtain s1 e1 where p: "considerPause (fc (sl_w s)) now s e = (s1, e1)" by fastforce
    have "same_worlds ws (slot_update k s1 ws)"
      using Cons.prems(1) Some considerPause_ok [OF worlds_ok_slot p] considerPause_world [OF p]
      by (blast intro: slot_update_same)
    with Cons Some p show ?thesis by (auto intro: same_worlds_trans dest: same_worldsD)
  qed (use Cons in simp)
qed simp

end
