(* ===== verification/JsonAny.thy ===== *)
theory JsonAny
  imports JsonFields
begin

text \<open>
  Decoding into \<open>map[string]any\<close> and encoding the values again. A number becomes a \<open>float64\<close> and is
  printed again: \<open>fnum\<close> maps the spelling read to the spelling written, \<open>None\<close> when it is out of range
  (the decoder's error). An object keeps the last of equal keys; the encoder writes keys in the order
  of their bytes.
\<close>

text \<open>Whether every number of a tree is in range.\<close>

fun any_ok :: "(string \<Rightarrow> string option) \<Rightarrow> jv \<Rightarrow> bool" where
  "any_ok fnum (JNum t) = (fnum t \<noteq> None)"
| "any_ok fnum (JArr vs) = list_all (any_ok fnum) vs"
| "any_ok fnum (JObj ms) = list_all (\<lambda>(k, v). any_ok fnum v) ms"
| "any_ok fnum v = True"

text \<open>The members of a Go map: keys decoded, the last of equal ones kept.\<close>

definition go_map :: "members \<Rightarrow> string \<rightharpoonup> jv" where
  "go_map ms = map_of (rev (map (\<lambda>(k, v). (unquote k, v)) ms))"

text \<open>Byte-wise order of keys.\<close>

fun bytes_less :: "string \<Rightarrow> string \<Rightarrow> bool" where
  "bytes_less [] [] = False"
| "bytes_less [] (d # ds) = True"
| "bytes_less (c # cs) [] = False"
| "bytes_less (c # cs) (d # ds) = (byte c < byte d \<or> c = d \<and> bytes_less cs ds)"

fun insert_member :: "string \<times> jv \<Rightarrow> (string \<times> jv) list \<Rightarrow> (string \<times> jv) list" where
  "insert_member m [] = [m]"
| "insert_member m (x # xs) =
     (if fst m = fst x then m # xs
      else if bytes_less (fst m) (fst x) then m # x # xs else x # insert_member m xs)"

text \<open>The tree an \<open>any\<close> value is encoded to.\<close>

fun any_tree :: "(string \<Rightarrow> string option) \<Rightarrow> jv \<Rightarrow> jv" where
  "any_tree fnum (JNum t) = JNum (case fnum t of None \<Rightarrow> t | Some u \<Rightarrow> u)"
| "any_tree fnum (JStr raw) = jstr (unquote raw)"
| "any_tree fnum (JArr vs) = JArr (map (any_tree fnum) vs)"
| "any_tree fnum (JObj ms) = JObj (map (\<lambda>(k, v). (quote k, v))
     (foldl (\<lambda>acc m. insert_member m acc) [] (map (\<lambda>(k, v). (unquote k, any_tree fnum v)) ms)))"
| "any_tree fnum v = v"

definition unmarshal_map :: "(string \<Rightarrow> string option) \<Rightarrow> string \<Rightarrow> (string \<rightharpoonup> jv) option" where
  "unmarshal_map fnum s = (case parse_text s of
       Some (JObj ms) \<Rightarrow> if any_ok fnum (JObj ms) then Some (go_map ms) else None
     | Some JNull \<Rightarrow> Some Map.empty
     | _ \<Rightarrow> None)"

text \<open>A missing key is the nil value, which encodes as \<open>null\<close> and is no string.\<close>

definition any_get :: "(string \<rightharpoonup> jv) \<Rightarrow> string \<Rightarrow> jv" where
  "any_get m k = (case m k of None \<Rightarrow> JNull | Some v \<Rightarrow> v)"

definition as_string :: "jv \<Rightarrow> string" where
  "as_string v = (case v of JStr raw \<Rightarrow> unquote raw | _ \<Rightarrow> [])"

definition any_render :: "(string \<Rightarrow> string option) \<Rightarrow> jv \<Rightarrow> string" where
  "any_render fnum v = render (any_tree fnum v)"

end
