(* ===== verification/BossOps.thy ===== *)
theory BossOps
  imports BossState JsonAny
begin

text \<open>
  The operations of lot-boss: leases, the other calls on a world, the event forwarder and the HTTP
  handlers. An operation that drops the lock on the way is cut at those points, so that the parts can
  be interleaved with other operations; here the parts are also put together, for one caller.
\<close>

text \<open>The clients an operation may use, and the state they act on is \<open>'e\<close>.\<close>

record 'e boss_net =
  bn_fc :: "World \<Rightarrow> 'e transport"
  bn_vsock :: "World \<Rightarrow> 'e transport"
  bn_desk :: "'e transport"

section \<open>Reporting to the desk\<close>

text \<open>
  \<open>commitDeskRaw\<close>: the body is the encoding of a map, in the order of its keys; a payload that does
  not encode makes the body empty. What the desk answers is logged and forgotten.
\<close>

definition desk_body :: "string \<Rightarrow> string \<Rightarrow> string \<Rightarrow> string \<Rightarrow> string" where
  "desk_body worldID kind payload utc =
     (case raw_tree payload of None \<Rightarrow> []
      | Some v \<Rightarrow> render (JObj ([(''kind'', jstr kind), (''payload'', v)]
          @ (if utc = [] then [] else [(''utc'', jstr utc)]) @ [(''world_id'', jstr worldID)])))"

definition commitDeskRaw :: "'e transport \<Rightarrow> Config \<Rightarrow> string \<Rightarrow> string \<Rightarrow> string \<Rightarrow> string \<Rightarrow> 'e \<Rightarrow> string option \<times> 'e" where
  "commitDeskRaw tp cfg worldID kind payload utc e =
     (if cf_DeskURL cfg = [] then (None, e)
      else case send tp ''POST'' (trim_right (CHR ''/'') (cf_DeskURL cfg) @ ''/v1/events'') (desk_body worldID kind payload utc) e of
        (BadRequest m, e') \<Rightarrow> (Some m, e')
      | (NoReply m, e') \<Rightarrow> (Some m, e')
      | (Reply r, e') \<Rightarrow> (None, e'))"

definition commitDesk :: "'e transport \<Rightarrow> Config \<Rightarrow> string \<Rightarrow> string \<Rightarrow> jv \<Rightarrow> 'e \<Rightarrow> string option \<times> 'e" where
  "commitDesk tp cfg worldID kind payload e = commitDeskRaw tp cfg worldID kind (render payload) [] e"

section \<open>Leases\<close>

record leaseBody =
  lb_Profile :: string
  lb_TTLPause :: string
  lb_TTLStore :: string
  lb_TTLPrune :: string

text \<open>\<open>newWorldID\<close> from the answer of \<open>rand.Read\<close>.\<close>

definition newWorldID :: "(string, string) result \<Rightarrow> (string, string) result" where
  "newWorldID rnd = (case rnd of Inl e \<Rightarrow> Inl e | Inr bytes \<Rightarrow> Inr (CHR ''w'' # hex_encode bytes))"

definition cap_error :: "Boss \<Rightarrow> string" where
  "cap_error b = ''cap reached: live='' @ show_nat (length (bs_worlds b)) @ '' max='' @ show_int (cf_MaxWorlds (bs_cfg b))"

definition at_cap :: "Boss \<Rightarrow> bool" where
  "at_cap b \<longleftrightarrow> cf_MaxWorlds (bs_cfg b) \<le> int (length (bs_worlds b))"

text \<open>The first locked part: the checks, the identifier and the CID.\<close>

definition lease_begin :: "(string, string) result \<Rightarrow> Boss \<Rightarrow> (string, string \<times> u32) result \<times> Boss" where
  "lease_begin rnd b =
     (if bs_stopping b then (Inl ''lot-boss stopping'', b)
      else if at_cap b then (Inl (cap_error b), b)
      else case newWorldID rnd of Inl e \<Rightarrow> (Inl e, b)
        | Inr i \<Rightarrow> (Inr (i, bs_nextCID b), b\<lparr>bs_nextCID := bs_nextCID b + 1\<rparr>))"

definition lease_opts :: "Config \<Rightarrow> string \<Rightarrow> u32 \<Rightarrow> StartOpts" where
  "lease_opts c i cid = \<lparr>so_ID = i, so_WorkDir = path_join [cf_WorkDir c, i], so_Kernel = cf_Kernel c, so_Rootfs = cf_Rootfs c,
     so_Firecracker = cf_Firecracker c, so_Jailer = cf_Jailer c, so_WaitKVM = cf_WaitKVM c, so_GuestCID = cid, so_BareExec = False\<rparr>"

definition lease_info :: "leaseBody \<Rightarrow> string \<Rightarrow> World \<Rightarrow> BossWorld" where
  "lease_info body i w = \<lparr>bw_ID = i, bw_Profile = lb_Profile body, bw_State = ''running'', bw_TTLPause = lb_TTLPause body,
     bw_TTLStore = lb_TTLStore body, bw_TTLPrune = lb_TTLPrune body, bw_Network = ''dark'', bw_Engine = w_Engine w,
     bw_GuestCID = w_GuestCID w, bw_UDS = w_UDS w, bw_JailRoot = w_JailRoot w\<rparr>"

text \<open>The forwarder is started before the lock is taken again.\<close>

definition lease_forward :: "string \<Rightarrow> Boss \<Rightarrow> Boss" where
  "lease_forward i b = b\<lparr>bs_fwd := add_mset i (bs_fwd b)\<rparr>"

text \<open>The second locked part: the cap once more, then the slot and the report.\<close>

definition lease_finish :: "(nat \<Rightarrow> nat \<Rightarrow> nat \<Rightarrow> nat) \<Rightarrow> 'e boss_net \<Rightarrow> int \<Rightarrow> leaseBody \<Rightarrow> string \<Rightarrow> World
    \<Rightarrow> Boss \<times> host \<times> 'e \<Rightarrow> (string, BossWorld) result \<times> Boss \<times> host \<times> 'e" where
  "lease_finish fmul net now body i w st =
     (let (b, h, e) = st; info = lease_info body i w in
      if at_cap b then (Inl (cap_error b), b\<lparr>bs_fwd := bs_fwd b - {#i#}\<rparr>, World_Stop w h, e)
      else
        let s = \<lparr>sl_info = info, sl_w = w, sl_lastActive = now, sl_ttlPause = parseTTLPause fmul (lb_TTLPause body), sl_paused = False\<rparr>;
            payload = JObj [(''engine'', jstr (w_Engine w)), (''guest_cid'', jnat (unat (w_GuestCID w))),
                            (''jail_root'', jstr (w_JailRoot w))];
            (err, e') = commitDesk (bn_desk net) (bs_cfg b) i ''world_start'' payload e
        in (Inr info, b\<lparr>bs_worlds := slot_update i s (bs_worlds b)\<rparr>, h, e'))"

text \<open>\<open>Lease\<close> for a caller nobody interrupts.\<close>

definition Lease :: "(string \<Rightarrow> string) \<Rightarrow> (nat \<Rightarrow> nat \<Rightarrow> nat \<Rightarrow> nat) \<Rightarrow> 'e boss_net \<Rightarrow> start_env \<Rightarrow> (string, string) result
    \<Rightarrow> int \<Rightarrow> leaseBody \<Rightarrow> Boss \<times> host \<times> 'e \<Rightarrow> (string, BossWorld) result \<times> Boss \<times> host \<times> 'e" where
  "Lease lib fmul net en rnd now body st =
     (let (b, h, e) = st in
      case lease_begin rnd b of (Inl err, b1) \<Rightarrow> (Inl err, b1, h, e)
      | (Inr (i, cid), b1) \<Rightarrow>
          (case World_Start lib en (lease_opts (bs_cfg b1) i cid) h of
             (Inl err, h1) \<Rightarrow> (Inl (''start world: '' @ err), b1, h1, e)
           | (Inr w, h1) \<Rightarrow> lease_finish fmul net now body i w (lease_forward i b1, h1, e)))"

section \<open>Calls on a world\<close>

definition SetNetwork :: "'e boss_net \<Rightarrow> int \<Rightarrow> string \<Rightarrow> string \<Rightarrow> Boss \<times> 'e \<Rightarrow> (string, BossWorld) result \<times> Boss \<times> 'e" where
  "SetNetwork net now i phase st =
     (let (b, e) = st in
      case (if phase = ''dark'' \<or> phase = [] then Some ''dark'' else if phase = ''proxy'' then Some ''proxy'' else None) of
        None \<Rightarrow> (Inl ''phase must be dark or proxy'', b, e)
      | Some p \<Rightarrow>
          (case map_of (bs_worlds b) i of None \<Rightarrow> (Inl ''world not found'', b, e)
           | Some s \<Rightarrow>
               (let (s', e') = onActivity (bn_fc net (sl_w s)) now (s\<lparr>sl_info := (sl_info s)\<lparr>bw_Network := p\<rparr>\<rparr>) e in
                (Inr (sl_info s'), b\<lparr>bs_worlds := slot_update i s' (bs_worlds b)\<rparr>, e'))))"

text \<open>The state part of \<open>handleHeartbeat\<close> and of \<open>Exec\<close>: the slot is told of activity.\<close>

definition touch :: "'e boss_net \<Rightarrow> int \<Rightarrow> string \<Rightarrow> Boss \<times> 'e \<Rightarrow> slot option \<times> Boss \<times> 'e" where
  "touch net now i st =
     (let (b, e) = st in
      case map_of (bs_worlds b) i of None \<Rightarrow> (None, b, e)
      | Some s \<Rightarrow> (let (s', e') = onActivity (bn_fc net (sl_w s)) now s e in
                  (Some s', b\<lparr>bs_worlds := slot_update i s' (bs_worlds b)\<rparr>, e')))"

definition execReq_of :: "members \<Rightarrow> bool \<times> (string list \<times> int)" where
  "execReq_of ms = (let a = field_strs ''argv'' [] ms; t = field_int ''timeout'' 0 ms in (fst a \<and> fst t, (snd a, snd t)))"

definition result_tree :: "ExecResult \<Rightarrow> jv" where
  "result_tree x = JObj [(''exit_code'', jint (xr_ExitCode x)), (''stdout'', jstr (xr_Stdout x)), (''stderr'', jstr (xr_Stderr x))]"

definition mustJSON :: "jv \<Rightarrow> string" where
  "mustJSON v = render v"

definition Boss_Exec :: "'e boss_net \<Rightarrow> int \<Rightarrow> string \<Rightarrow> string \<Rightarrow> Boss \<times> 'e \<Rightarrow> (string, nat \<times> string) result \<times> Boss \<times> 'e" where
  "Boss_Exec net now i body st =
     (case touch net now i st of (None, st1) \<Rightarrow> (Inl ''world not found'', st1)
      | (Some s, b1, e1) \<Rightarrow>
          (case unmarshal_with execReq_of body of
             None \<Rightarrow> (Inr (400, mustJSON (JObj [(''error'', jstr ''invalid json'')])), b1, e1)
           | Some (argv, timeout) \<Rightarrow>
               if argv = [] then (Inr (400, mustJSON (JObj [(''error'', jstr ''argv required'')])), b1, e1)
               else (let t = (if timeout \<le> 0 then 30 else timeout);
                         (res, e2) = World_Exec (bn_vsock net (sl_w s)) (sl_w s) argv t e1 in
                     (case res of Inl err \<Rightarrow> Inl err | Inr x \<Rightarrow> Inr (200, render (result_tree x)), b1, e2))))"

text \<open>\<open>Destroy\<close>: the locked removal, and the rest on the slot taken out.\<close>

definition destroy_begin :: "string \<Rightarrow> Boss \<Rightarrow> slot option \<times> Boss" where
  "destroy_begin i b = (case map_of (bs_worlds b) i of None \<Rightarrow> (None, b)
     | Some s \<Rightarrow> (Some s, b\<lparr>bs_worlds := slot_delete i (bs_worlds b)\<rparr>))"

definition destroy_finish :: "'e boss_net \<Rightarrow> string \<Rightarrow> slot \<Rightarrow> Boss \<times> host \<times> 'e \<Rightarrow> Boss \<times> host \<times> 'e" where
  "destroy_finish net i s st =
     (let (b, h, e) = st;
          payload = JObj [(''jail_root'', jstr (w_JailRoot (sl_w s))), (''pid'', jnat (CmdPid (sl_w s)))];
          (err, e') = commitDesk (bn_desk net) (bs_cfg b) i ''world_stop'' payload e
      in (b\<lparr>bs_fwd := bs_fwd b - {#i#}\<rparr>, World_Stop (sl_w s) h, e'))"

definition Destroy :: "'e boss_net \<Rightarrow> string \<Rightarrow> Boss \<times> host \<times> 'e \<Rightarrow> string option \<times> Boss \<times> host \<times> 'e" where
  "Destroy net i st =
     (let (b, h, e) = st in
      case destroy_begin i b of (None, b1) \<Rightarrow> (Some ''world not found'', b1, h, e)
      | (Some s, b1) \<Rightarrow> (None, destroy_finish net i s (b1, h, e)))"

text \<open>\<open>StopAll\<close>: \<open>order\<close> is the order in which the range over the map meets its keys.\<close>

definition stop_begin :: "(string list \<Rightarrow> string list) \<Rightarrow> Boss \<Rightarrow> string list \<times> Boss" where
  "stop_begin order b = (order (map fst (bs_worlds b)), b\<lparr>bs_stopping := True\<rparr>)"

definition StopAll :: "(string list \<Rightarrow> string list) \<Rightarrow> 'e boss_net \<Rightarrow> Boss \<times> host \<times> 'e \<Rightarrow> Boss \<times> host \<times> 'e" where
  "StopAll order net st =
     (let (b, h, e) = st; (ids, b1) = stop_begin order b in fold (\<lambda>i st. snd (Destroy net i st)) ids (b1, h, e))"

definition LiveIDs :: "(string list \<Rightarrow> string list) \<Rightarrow> Boss \<Rightarrow> string list" where
  "LiveIDs order b = order (map fst (bs_worlds b))"

definition SlotMeta :: "string \<Rightarrow> Boss \<Rightarrow> (string \<times> nat \<times> u32 \<times> string) option" where
  "SlotMeta i b = (case map_of (bs_worlds b) i of None \<Rightarrow> None
     | Some s \<Rightarrow> Some (w_JailRoot (sl_w s), CmdPid (sl_w s), w_GuestCID (sl_w s), w_Engine (sl_w s)))"

definition CapString :: "Boss \<Rightarrow> string" where
  "CapString b = ''max_worlds='' @ show_int (cf_MaxWorlds (bs_cfg b)) @ '' warm_pool='' @ show_int (cf_WarmPool (bs_cfg b))"

section \<open>The event forwarder\<close>

text \<open>
  The lines of the events file above an offset that are complete, and the offset after them. A file
  that shrank is read from the start.
\<close>

definition complete_part :: "string \<Rightarrow> string" where
  "complete_part d = rev (dropWhile (\<lambda>c. c \<noteq> nl) (rev d))"

definition drain_lines :: "nat \<Rightarrow> string \<Rightarrow> string list \<times> nat" where
  "drain_lines offset f =
     (let off = (if length f < offset then 0 else offset); d = complete_part (drop off f)
      in (if d = [] then [] else split_on nl d, off + length d))"

text \<open>The event on a line, if there is one: its kind, its payload encoded again and its time.\<close>

definition line_event :: "(string \<Rightarrow> string option) \<Rightarrow> string \<Rightarrow> (string \<times> string \<times> string) option" where
  "line_event fnum l0 =
     (let l = trim_space l0 in
      if l = [] then None
      else case unmarshal_map fnum l of None \<Rightarrow> None
        | Some m \<Rightarrow>
            (let kind = as_string (any_get m ''kind'') in
             if kind = [] then None
             else Some (kind, any_render fnum (any_get m ''payload''), as_string (any_get m ''utc''))))"

text \<open>
  What the file system answers: the file cannot be opened or examined, it has a size but cannot be
  read, or its contents.
\<close>

datatype events_read = NoFile | BadRead nat | FileText string

definition drainEventsFile :: "(string \<Rightarrow> string option) \<Rightarrow> 'e transport \<Rightarrow> Config \<Rightarrow> string \<Rightarrow> events_read \<Rightarrow> nat \<Rightarrow> 'e \<Rightarrow> nat \<times> 'e" where
  "drainEventsFile fnum tp cfg worldID f offset e =
     (case f of NoFile \<Rightarrow> (offset, e)
      | BadRead n \<Rightarrow> (if n < offset then 0 else offset, e)
      | FileText txt \<Rightarrow>
          (let (ls, offset') = drain_lines offset txt in
           (offset', fold (\<lambda>l e. case line_event fnum l of None \<Rightarrow> e
             | Some (kind, payload, utc) \<Rightarrow> snd (commitDeskRaw tp cfg worldID kind payload utc e)) ls e)))"

lemmas [lot_defs] = lease_begin_def lease_finish_def Lease_def SetNetwork_def touch_def Boss_Exec_def Destroy_def
  destroy_begin_def destroy_finish_def StopAll_def stop_begin_def

end
