(* ===== verification/BossServer.thy ===== *)
theory BossServer
  imports BossOps
begin

text \<open>
  The HTTP interface of lot-boss (\<open>Handler\<close> and the handlers of \<open>lot/boss.go\<close>), each request served
  without interruption. What a request may meet outside (the clock, random bytes, the system calls of
  a start) is its environment.
\<close>

record 'e boss_env =
  bv_lib :: "string \<Rightarrow> string"
  bv_fmul :: "nat \<Rightarrow> nat \<Rightarrow> nat \<Rightarrow> nat"
  bv_net :: "'e boss_net"
  bv_os :: boss_os
  bv_start :: start_env
  bv_rnd :: "(string, string) result"
  bv_now :: int
  bv_order :: "BossWorld list \<Rightarrow> BossWorld list"

type_synonym 'e boss_state = "Boss \<times> host \<times> 'e"

definition boss_handleHealth :: "'e boss_env \<Rightarrow> 'e boss_state \<Rightarrow> Response" where
  "boss_handleHealth v st =
     (let b = fst st in
      writeJSON 200 (Some (JObj [(''engine_ready'', jbool (EngineReady (bv_os v) b)), (''euid'', jint (bo_euid (bv_os v))),
        (''max_worlds'', jint (cf_MaxWorlds (bs_cfg b))), (''ok'', JTrue), (''phase'', jnat 3), (''service'', jstr ''lot-boss''),
        (''warm_pool'', jint (cf_WarmPool (bs_cfg b)))])))"

definition boss_handleList :: "'e boss_env \<Rightarrow> 'e boss_state \<Rightarrow> Response" where
  "boss_handleList v st =
     (let b = fst st; out = bv_order v (map (\<lambda>x. sl_info (snd x)) (bs_worlds b)) in
      writeJSON 200 (Some (JObj [(''cap'', jint (cf_MaxWorlds (bs_cfg b))), (''live'', jnat (length out)),
        (''worlds'', JArr (map boss_world_tree out))])))"

definition leaseBody_of :: "members \<Rightarrow> leaseBody" where
  "leaseBody_of ms = \<lparr>lb_Profile = snd (field_str ''profile'' [] ms), lb_TTLPause = snd (field_str ''ttl_pause'' [] ms),
     lb_TTLStore = snd (field_str ''ttl_store'' [] ms), lb_TTLPrune = snd (field_str ''ttl_prune'' [] ms)\<rparr>"

definition lease_defaults :: "leaseBody \<Rightarrow> leaseBody" where
  "lease_defaults l0 =
     (let l1 = (if lb_Profile l0 = [] then l0\<lparr>lb_Profile := ''demo''\<rparr> else l0);
          l2 = (if lb_TTLPause l1 = [] then l1\<lparr>lb_TTLPause := duration_string (15 * minute)\<rparr> else l1);
          l3 = (if lb_TTLStore l2 = [] then l2\<lparr>lb_TTLStore := duration_string (2 * hour)\<rparr> else l2)
      in if lb_TTLPrune l3 = [] then l3\<lparr>lb_TTLPrune := duration_string (7 * 24 * hour)\<rparr> else l3)"

definition boss_handleLease :: "'e boss_env \<Rightarrow> Request \<Rightarrow> 'e boss_state \<Rightarrow> Response \<times> 'e boss_state" where
  "boss_handleLease v r st =
     (if \<not> EngineReady (bv_os v) (fst st) then (httpError 503 ''world engine unavailable'', st)
      else
        let body = lease_defaults (leaseBody_of (snd (body_members (request_json r)))) in
        case Lease (bv_lib v) (bv_fmul v) (bv_net v) (bv_start v) (bv_rnd v) (bv_now v) body st of
          (Inl err, st') \<Rightarrow> (if contains err ''cap'' then httpError 503 err else httpError 502 err, st')
        | (Inr info, st') \<Rightarrow> (writeJSON 201 (Some (boss_world_tree info)), st'))"

definition boss_handleGet :: "string \<Rightarrow> 'e boss_state \<Rightarrow> Response" where
  "boss_handleGet i st = (case map_of (bs_worlds (fst st)) i of None \<Rightarrow> httpError 404 ''world not found''
     | Some s \<Rightarrow> writeJSON 200 (Some (boss_world_tree (sl_info s))))"

definition boss_handleHeartbeat :: "'e boss_env \<Rightarrow> string \<Rightarrow> 'e boss_state \<Rightarrow> Response \<times> 'e boss_state" where
  "boss_handleHeartbeat v i st =
     (let (b, h, e) = st in
      case touch (bv_net v) (bv_now v) i (b, e) of
        (None, b1, e1) \<Rightarrow> (httpError 404 ''world not found'', b1, h, e1)
      | (Some s, b1, e1) \<Rightarrow> (writeJSON 200 (Some (JObj [(''ok'', JTrue), (''state'', jstr (bw_State (sl_info s)))])), b1, h, e1))"

definition boss_handleNetwork :: "'e boss_env \<Rightarrow> Request \<Rightarrow> string \<Rightarrow> 'e boss_state \<Rightarrow> Response \<times> 'e boss_state" where
  "boss_handleNetwork v r i st =
     (let (b, h, e) = st; phase = snd (field_str ''phase'' [] (snd (body_members (request_json r)))) in
      case SetNetwork (bv_net v) (bv_now v) i phase (b, e) of
        (Inl err, b1, e1) \<Rightarrow>
          (if err = ''world not found'' then httpError 404 err
           else if err = ''phase must be dark or proxy'' then httpError 400 err else httpError 502 err, b1, h, e1)
      | (Inr info, b1, e1) \<Rightarrow> (writeJSON 200 (Some (boss_world_tree info)), b1, h, e1))"

definition boss_handleExec :: "'e boss_env \<Rightarrow> Request \<Rightarrow> string \<Rightarrow> 'e boss_state \<Rightarrow> Response \<times> 'e boss_state" where
  "boss_handleExec v r i st =
     (let (b, h, e) = st in
      if hr_broken r then (httpError 400 ''read body'', st)
      else case Boss_Exec (bv_net v) (bv_now v) i (hr_body r) (b, e) of
        (Inl err, b1, e1) \<Rightarrow> (if contains err ''not found'' then httpError 404 err else httpError 502 err, b1, h, e1)
      | (Inr (code, resp), b1, e1) \<Rightarrow> (\<lparr>rs_code = code, rs_body = resp\<rparr>, b1, h, e1))"

definition boss_handleDestroy :: "'e boss_env \<Rightarrow> string \<Rightarrow> 'e boss_state \<Rightarrow> Response \<times> 'e boss_state" where
  "boss_handleDestroy v i st =
     (case Destroy (bv_net v) i st of
        (Some err, st') \<Rightarrow> (httpError 404 err, st')
      | (None, st') \<Rightarrow> (writeJSON 200 (Some (JObj [(''destroyed'', JTrue), (''id'', jstr i), (''ok'', JTrue)])), st'))"

datatype boss_handler = BHealth | BLease | BGet | BHeartbeat | BNetwork | BExec | BDestroy | BList

definition boss_routes :: "(string \<times> seg list \<times> boss_handler) list" where
  "boss_routes =
    [(''GET'', [Lit ''health''], BHealth),
     (''POST'', [Lit ''v1'', Lit ''worlds''], BLease),
     (''GET'', [Lit ''v1'', Lit ''worlds'', Wild], BGet),
     (''POST'', [Lit ''v1'', Lit ''worlds'', Wild, Lit ''heartbeat''], BHeartbeat),
     (''PUT'', [Lit ''v1'', Lit ''worlds'', Wild, Lit ''network''], BNetwork),
     (''POST'', [Lit ''v1'', Lit ''worlds'', Wild, Lit ''exec''], BExec),
     (''DELETE'', [Lit ''v1'', Lit ''worlds'', Wild], BDestroy),
     (''GET'', [Lit ''v1'', Lit ''worlds''], BList)]"

definition boss_serve :: "'e boss_env \<Rightarrow> Request \<Rightarrow> 'e boss_state \<Rightarrow> Response \<times> 'e boss_state" where
  "boss_serve v r st =
     (case dispatch boss_routes r of
        Serve hnd vs \<Rightarrow>
          (let i = (case vs of x # _ \<Rightarrow> x | [] \<Rightarrow> []) in
           case hnd of BHealth \<Rightarrow> (boss_handleHealth v st, st)
           | BLease \<Rightarrow> boss_handleLease v r st
           | BGet \<Rightarrow> (boss_handleGet i st, st)
           | BHeartbeat \<Rightarrow> boss_handleHeartbeat v i st
           | BNetwork \<Rightarrow> boss_handleNetwork v r i st
           | BExec \<Rightarrow> boss_handleExec v r i st
           | BDestroy \<Rightarrow> boss_handleDestroy v i st
           | BList \<Rightarrow> (boss_handleList v st, st))
      | x \<Rightarrow> (mux_error x, st))"

lemmas [lot_defs] = boss_handleLease_def boss_handleHeartbeat_def boss_handleNetwork_def boss_handleExec_def boss_handleDestroy_def

end
