(* ===== verification/BossSteps.thy ===== *)
theory BossSteps
  imports BossServer
begin

text \<open>
  lot-boss under concurrency. Every part of an operation that runs under the lock, and every part that
  runs outside it, is a step; steps of different callers interleave freely. The state keeps what is on
  the way between two steps, and the identifiers and CIDs issued so far.
\<close>

section \<open>The steps\<close>

text \<open>
  \<open>lt_starting\<close>: leases that were admitted and are inside \<open>world.Start\<close>. \<open>lt_started\<close>: worlds that run and
  are not in the map yet. \<open>lt_dying\<close>: slots taken out of the map whose world is still to be stopped.
\<close>

record 'e lot =
  lt_boss :: Boss
  lt_host :: host
  lt_env :: 'e
  lt_starting :: "(string \<times> u32) multiset"
  lt_started :: "(string \<times> World) multiset"
  lt_dying :: "(string \<times> World) multiset"
  lt_issued :: "(string \<times> u32) list"

inductive lot_step :: "(string \<Rightarrow> string) \<Rightarrow> (nat \<Rightarrow> nat \<Rightarrow> nat \<Rightarrow> nat) \<Rightarrow> 'e lot \<Rightarrow> 'e lot \<Rightarrow> bool" for lib fmul where
  admit: "lease_begin rnd (lt_boss s) = (Inr (i, cid), b') \<Longrightarrow>
    lot_step lib fmul s (s\<lparr>lt_boss := b', lt_starting := add_mset (i, cid) (lt_starting s),
      lt_issued := lt_issued s @ [(i, effective_cid cid)]\<rparr>)"
| start: "(i, cid) \<in># lt_starting s \<Longrightarrow>
    World_Start lib en (lease_opts (bs_cfg (lt_boss s)) i cid) (lt_host s) = (Inr w, h') \<Longrightarrow>
    lot_step lib fmul s (s\<lparr>lt_boss := lease_forward i (lt_boss s), lt_host := h',
      lt_starting := lt_starting s - {#(i, cid)#}, lt_started := add_mset (i, w) (lt_started s)\<rparr>)"
| start_fails: "(i, cid) \<in># lt_starting s \<Longrightarrow>
    World_Start lib en (lease_opts (bs_cfg (lt_boss s)) i cid) (lt_host s) = (Inl err, h') \<Longrightarrow>
    lot_step lib fmul s (s\<lparr>lt_host := h', lt_starting := lt_starting s - {#(i, cid)#}\<rparr>)"
| finish: "(i, w) \<in># lt_started s \<Longrightarrow>
    lease_finish fmul net now body i w (lt_boss s, lt_host s, lt_env s) = (res, b', h', e') \<Longrightarrow>
    lot_step lib fmul s (s\<lparr>lt_boss := b', lt_host := h', lt_env := e', lt_started := lt_started s - {#(i, w)#}\<rparr>)"
| remove: "destroy_begin i (lt_boss s) = (Some sl, b') \<Longrightarrow>
    lot_step lib fmul s (s\<lparr>lt_boss := b', lt_dying := add_mset (i, sl_w sl) (lt_dying s)\<rparr>)"
| destroy: "(i, sl_w sl) \<in># lt_dying s \<Longrightarrow>
    destroy_finish net i sl (lt_boss s, lt_host s, lt_env s) = (b', h', e') \<Longrightarrow>
    lot_step lib fmul s (s\<lparr>lt_boss := b', lt_host := h', lt_env := e', lt_dying := lt_dying s - {#(i, sl_w sl)#}\<rparr>)"
| activity: "touch net now i (lt_boss s, lt_env s) = (r, b', e') \<Longrightarrow>
    lot_step lib fmul s (s\<lparr>lt_boss := b', lt_env := e'\<rparr>)"
| network: "SetNetwork net now i phase (lt_boss s, lt_env s) = (res, b', e') \<Longrightarrow>
    lot_step lib fmul s (s\<lparr>lt_boss := b', lt_env := e'\<rparr>)"
| tick: "pause_tick order fc now (lt_boss s) (lt_env s) = Some (b', e') \<Longrightarrow>
    lot_step lib fmul s (s\<lparr>lt_boss := b', lt_env := e'\<rparr>)"
| stopping: "stop_begin order (lt_boss s) = (ids, b') \<Longrightarrow> lot_step lib fmul s (s\<lparr>lt_boss := b'\<rparr>)"
| outside: "lot_step lib fmul s (s\<lparr>lt_env := e'\<rparr>)"

definition lot_init :: "environ \<Rightarrow> Config \<Rightarrow> host \<Rightarrow> 'e \<Rightarrow> 'e lot" where
  "lot_init env cfg h e = \<lparr>lt_boss = NewBossConfig env cfg, lt_host = h, lt_env = e, lt_starting = {#}, lt_started = {#},
     lt_dying = {#}, lt_issued = []\<rparr>"

abbreviation lot_run :: "(string \<Rightarrow> string) \<Rightarrow> (nat \<Rightarrow> nat \<Rightarrow> nat \<Rightarrow> nat) \<Rightarrow> 'e lot \<Rightarrow> 'e lot \<Rightarrow> bool" where
  "lot_run lib fmul \<equiv> (lot_step lib fmul)\<^sup>*\<^sup>*"

section \<open>What each part does\<close>

text \<open>A change that leaves the worlds under their keys and everything but the slots' bookkeeping.\<close>

definition calm :: "Boss \<Rightarrow> Boss \<Rightarrow> bool" where
  "calm b b' \<longleftrightarrow> same_worlds (bs_worlds b) (bs_worlds b') \<and> bs_cfg b' = bs_cfg b \<and> bs_nextCID b' = bs_nextCID b"

lemma touch_calm: "worlds_ok (bs_worlds b) \<Longrightarrow> touch net now i (b, e) = (r, b', e') \<Longrightarrow> calm b b'"
  by (auto simp: touch_def calm_def Let_def intro!: slot_update_same
      dest: onActivity_world onActivity_ok [OF worlds_ok_slot] split: option.splits prod.splits)

lemma slot_ok_network: "slot_ok (k, s) \<Longrightarrow> p \<in> {''dark'', ''proxy''} \<Longrightarrow> slot_ok (k, s\<lparr>sl_info := (sl_info s)\<lparr>bw_Network := p\<rparr>\<rparr>)"
  by (simp add: slot_ok_def)

lemma SetNetwork_known:
  assumes "worlds_ok (bs_worlds b)" "map_of (bs_worlds b) i = Some s" "p \<in> {''dark'', ''proxy''}"
    and "onActivity fc now (s\<lparr>sl_info := (sl_info s)\<lparr>bw_Network := p\<rparr>\<rparr>) e = (s', e')"
  shows "same_worlds (bs_worlds b) (slot_update i s' (bs_worlds b))"
  using assms(1,2) onActivity_ok [OF slot_ok_network [OF worlds_ok_slot] assms(4)] assms(3) onActivity_world [OF assms(4)]
  by (auto intro: slot_update_same)

lemma SetNetwork_calm: "worlds_ok (bs_worlds b) \<Longrightarrow> SetNetwork net now i phase (b, e) = (r, b', e') \<Longrightarrow> calm b b'"
  by (auto simp: SetNetwork_def calm_def Let_def intro: SetNetwork_known split: option.splits prod.splits if_splits)

lemma pause_tick_calm: "worlds_ok (bs_worlds b) \<Longrightarrow> pause_tick order fc now b e = Some (b', e') \<Longrightarrow> calm b b'"
  by (auto simp: pause_tick_def calm_def Let_def dest: pause_slots_same split: if_splits prod.splits)

lemma lease_begin_Inr:
  "lease_begin rnd b = (Inr (i, cid), b') \<Longrightarrow>
     \<not> bs_stopping b \<and> \<not> at_cap b \<and> cid = bs_nextCID b \<and> b' = b\<lparr>bs_nextCID := bs_nextCID b + 1\<rparr>"
  by (auto simp: lease_begin_def split: if_splits sum.splits)

lemma parseTTLPause_pos: "0 < parseTTLPause fmul s"
  by (auto simp: parseTTLPause_def minute_def second_def split: option.splits)

lemma lease_finish_cases:
  assumes "lease_finish fmul net now body i w (b, h, e) = (res, b', h', e')"
  obtains (full) "at_cap b" "res = Inl (cap_error b)" "b' = b\<lparr>bs_fwd := bs_fwd b - {#i#}\<rparr>" "h' = World_Stop w h" "e' = e"
  | (entered) s where "\<not> at_cap b" "res = Inr (lease_info body i w)" "b' = b\<lparr>bs_worlds := slot_update i s (bs_worlds b)\<rparr>" "h' = h"
      "sl_w s = w" "slot_ok (i, s)" "sl_info s = lease_info body i w"
proof (cases "at_cap b")
  case True
  with assms show thesis by (intro full) (auto simp: lease_finish_def)
next
  case False
  show thesis
    by (rule entered [OF False,
          where s = "\<lparr>sl_info = lease_info body i w, sl_w = w, sl_lastActive = now, sl_ttlPause = parseTTLPause fmul (lb_TTLPause body), sl_paused = False\<rparr>"])
      (use assms False in \<open>auto simp: lease_finish_def Let_def slot_ok_def lease_info_def parseTTLPause_pos split: prod.splits\<close>)
qed

lemma destroy_begin_Some:
  "destroy_begin i b = (Some s, b') \<Longrightarrow> map_of (bs_worlds b) i = Some s \<and> b' = b\<lparr>bs_worlds := slot_delete i (bs_worlds b)\<rparr>"
  by (auto simp: destroy_begin_def split: option.splits)

lemma destroy_finish_eq:
  "destroy_finish net i s (b, h, e) = (b', h', e') \<Longrightarrow> b' = b\<lparr>bs_fwd := bs_fwd b - {#i#}\<rparr> \<and> h' = World_Stop (sl_w s) h"
  by (auto simp: destroy_finish_def Let_def split: prod.splits)

lemma launch_world:
  "launch lib en o' c j w h = (Inr w', h') \<Longrightarrow> w_ID w' = w_ID w \<and> w_GuestCID w' = w_GuestCID w \<and> w_JailRoot w' = w_JailRoot w"
  by (auto simp: launch_def Let_def split: sum.splits prod.splits option.splits if_splits)

lemma World_Start_cid: "World_Start lib en opts h = (Inr w, h') \<Longrightarrow> w_ID w = so_ID opts \<and> w_GuestCID w = effective_cid (so_GuestCID opts)"
  by (auto simp: World_Start_def start_folder_def Let_def dest!: launch_world split: option.splits sum.splits if_splits)

lemma lease_opts_simps [simp]: "so_ID (lease_opts c i cid) = i" "so_GuestCID (lease_opts c i cid) = cid" "so_BareExec (lease_opts c i cid) = False"
  by (simp_all add: lease_opts_def)

end
