(* ===== verification/BossInv.thy ===== *)
theory BossInv
  imports BossSteps
begin

text \<open>
  The invariant of lot-boss over all interleavings: the cap, the consistency of the slots, the
  identifiers and CIDs of everything alive among those issued, and the accounting of the host's
  resources.
\<close>

section \<open>The invariant\<close>

definition alive :: "'e lot \<Rightarrow> (string \<times> World) multiset" where
  "alive s = mset (kept (bs_worlds (lt_boss s))) + lt_started s + lt_dying s"

definition names :: "'e lot \<Rightarrow> (string \<times> u32) multiset" where
  "names s = image_mset (\<lambda>x. (fst x, w_GuestCID (snd x))) (alive s) + image_mset (\<lambda>x. (fst x, effective_cid (snd x))) (lt_starting s)"

definition boss_ok :: "Boss \<Rightarrow> bool" where
  "boss_ok b \<longleftrightarrow> worlds_ok (bs_worlds b) \<and> 0 < cf_MaxWorlds (bs_cfg b) \<and> int (length (bs_worlds b)) \<le> cf_MaxWorlds (bs_cfg b)"

definition cids_ok :: "'e lot \<Rightarrow> bool" where
  "cids_ok s \<longleftrightarrow> bs_nextCID (lt_boss s) = 3 + of_nat (length (lt_issued s))
     \<and> map snd (lt_issued s) = map (\<lambda>k. effective_cid (3 + of_nat k)) [0..<length (lt_issued s)]"

definition accounted :: "host \<Rightarrow> 'e lot \<Rightarrow> bool" where
  "accounted base s \<longleftrightarrow> (distinct (map fst (lt_issued s)) \<longrightarrow> host.held base (image_mset snd (alive s)) (lt_host s))"

definition lot_inv :: "host \<Rightarrow> 'e lot \<Rightarrow> bool" where
  "lot_inv base s \<longleftrightarrow> boss_ok (lt_boss s) \<and> names s \<subseteq># mset (lt_issued s) \<and> cids_ok s \<and> accounted base s"

section \<open>Changes to the map\<close>

lemma kept_update_subset: "mset (kept (slot_update i s ws)) \<subseteq># add_mset (i, sl_w s) (mset (kept ws))"
proof (induction ws)
  case (Cons x ws)
  show ?case
  proof (cases "fst x = i")
    case False
    with Cons show ?thesis by (simp add: add_mset_commute [of "(i, sl_w s)"])
  qed simp
qed simp

lemma slot_update_length: "length (slot_update i s ws) \<le> Suc (length ws)"
  by (induction ws) auto

lemma not_at_cap: "\<not> at_cap b \<Longrightarrow> boss_ok b \<Longrightarrow> slot_ok (i, s) \<Longrightarrow> boss_ok (b\<lparr>bs_worlds := slot_update i s (bs_worlds b)\<rparr>)"
  using slot_update_length [of i s "bs_worlds b"] by (auto simp: boss_ok_def at_cap_def worlds_ok_update)

lemma boss_ok_delete: "boss_ok b \<Longrightarrow> map_of (bs_worlds b) i = Some s \<Longrightarrow> boss_ok (b\<lparr>bs_worlds := slot_delete i (bs_worlds b)\<rparr>)"
  using slot_delete_length [of "bs_worlds b" i s] worlds_ok_delete [of "bs_worlds b" i] by (simp add: boss_ok_def worlds_ok_def)

lemma boss_ok_calm: "boss_ok b \<Longrightarrow> calm b b' \<Longrightarrow> boss_ok b'"
  by (auto simp: boss_ok_def calm_def dest!: same_worldsD)

lemma distinct_fst_fresh:
  assumes "add_mset (i, c) A \<subseteq># mset xs" "distinct (map fst xs)"
  shows "i \<notin> fst ` set_mset A"
proof
  assume "i \<in> fst ` set_mset A"
  then have "2 \<le> count (image_mset fst (add_mset (i, c) A)) i" by simp
  also have "\<dots> \<le> count (image_mset fst (mset xs)) i"
    using image_mset_subseteq_mono [OF assms(1), of fst] mset_subset_eq_count by metis
  also have "\<dots> \<le> 1" using assms(2) distinct_count_atmost_1 [of "map fst xs"] by simp
  finally show False by simp
qed

section \<open>Every step keeps it\<close>

lemma inv_init: "lot_inv h (lot_init env cfg h e)"
proof -
  have "0 < cf_MaxWorlds (default_config env cfg)"
    by (simp add: default_config_def Let_def DefaultMaxWorlds_def)
  then show ?thesis
    by (simp add: lot_inv_def lot_init_def NewBossConfig_def boss_ok_def worlds_ok_def names_def alive_def cids_ok_def accounted_def
        host.held_empty)
qed

text \<open>Steps that change only the slots' bookkeeping.\<close>

lemma inv_calm:
  assumes "lot_inv base s" "calm (lt_boss s) b'"
  shows "lot_inv base (s\<lparr>lt_boss := b', lt_env := e'\<rparr>)"
proof -
  have "kept (bs_worlds b') = kept (bs_worlds (lt_boss s))" using assms(2) by (simp add: calm_def same_worlds_def)
  then show ?thesis
    using assms boss_ok_calm [OF _ assms(2)]
    by (simp add: lot_inv_def names_def alive_def cids_ok_def accounted_def calm_def)
qed

lemma inv_admit:
  assumes "lot_inv base s" "lease_begin rnd (lt_boss s) = (Inr (i, cid), b')"
  shows "lot_inv base (s\<lparr>lt_boss := b', lt_starting := add_mset (i, cid) (lt_starting s), lt_issued := lt_issued s @ [(i, effective_cid cid)]\<rparr>)"
proof -
  from lease_begin_Inr [OF assms(2)] have b': "cid = bs_nextCID (lt_boss s)" "b' = (lt_boss s)\<lparr>bs_nextCID := bs_nextCID (lt_boss s) + 1\<rparr>"
    by blast+
  show ?thesis using assms(1) unfolding b'
    by (auto simp: lot_inv_def boss_ok_def names_def alive_def cids_ok_def accounted_def ac_simps)
qed

lemma starting_names:
  assumes "(i, cid) \<in># lt_starting s"
  shows "names s = add_mset (i, effective_cid cid) (names (s\<lparr>lt_starting := lt_starting s - {#(i, cid)#}\<rparr>))"
  using multi_member_split [OF assms] by (auto simp: names_def alive_def)

lemma inv_start_fails:
  assumes "lot_inv base s" "(i, cid) \<in># lt_starting s"
    and st: "World_Start lib en opts (lt_host s) = (Inl err, h')"
  shows "lot_inv base (s\<lparr>lt_host := h', lt_starting := lt_starting s - {#(i, cid)#}\<rparr>)"
proof -
  have h': "h' = lt_host s" using World_Start_host(1) [OF st] .
  have "names (s\<lparr>lt_host := h', lt_starting := lt_starting s - {#(i, cid)#}\<rparr>) \<subseteq># names s"
    using starting_names [OF assms(2)] by (simp add: names_def alive_def)
  then show ?thesis using assms(1) subset_mset.trans
    by (auto simp: lot_inv_def cids_ok_def accounted_def alive_def h')
qed

lemma inv_start:
  assumes "lot_inv base s" "(i, cid) \<in># lt_starting s"
    and st: "World_Start lib en (lease_opts c i cid) (lt_host s) = (Inr w, h')"
  shows "lot_inv base (s\<lparr>lt_boss := lease_forward i (lt_boss s), lt_host := h', lt_starting := lt_starting s - {#(i, cid)#},
    lt_started := add_mset (i, w) (lt_started s)\<rparr>)"
    (is "lot_inv base ?s")
proof -
  have a: "alive ?s = add_mset (i, w) (alive s)" by (simp add: alive_def lease_forward_def)
  moreover have "w_GuestCID w = effective_cid cid" using World_Start_cid [OF st] by simp
  ultimately have "names ?s = names s"
    using starting_names [OF assms(2)] by (simp add: names_def) (simp add: alive_def)
  moreover have "accounted base ?s"
    using assms(1) host.held_start [OF _ st] by (auto simp: lot_inv_def accounted_def a)
  ultimately show ?thesis using assms(1) by (simp add: lot_inv_def cids_ok_def boss_ok_def lease_forward_def)
qed

text \<open>A world that is stopped: it leaves the host and the names.\<close>

lemma inv_stop:
  assumes "lot_inv base s" "alive s = add_mset (i, w) (alive s')"
    and "lt_boss s' = (lt_boss s)\<lparr>bs_fwd := f\<rparr>" "lt_host s' = World_Stop w (lt_host s)" "lt_issued s' = lt_issued s" "lt_starting s' = lt_starting s"
  shows "lot_inv base s'"
proof -
  have "names s' \<subseteq># names s" by (simp add: names_def assms)
  moreover have "accounted base s'"
    using assms host.held_stop [of base w "image_mset snd (alive s')" "lt_host s"] by (auto simp: lot_inv_def accounted_def)
  ultimately show ?thesis
    using assms(1) subset_mset.trans by (auto simp: lot_inv_def cids_ok_def boss_ok_def assms(3,5))
qed

lemma inv_remove:
  assumes "lot_inv base s" "destroy_begin i (lt_boss s) = (Some sl, b')"
  shows "lot_inv base (s\<lparr>lt_boss := b', lt_dying := add_mset (i, sl_w sl) (lt_dying s)\<rparr>)" (is "lot_inv base ?s")
proof -
  from destroy_begin_Some [OF assms(2)] have m: "map_of (bs_worlds (lt_boss s)) i = Some sl"
    and b': "b' = (lt_boss s)\<lparr>bs_worlds := slot_delete i (bs_worlds (lt_boss s))\<rparr>" by blast+
  have "distinct (map fst (bs_worlds (lt_boss s)))" using assms(1) by (simp add: lot_inv_def boss_ok_def worlds_ok_def)
  then have "alive ?s = alive s" using kept_delete [OF _ m] by (simp add: alive_def b')
  moreover have "boss_ok b'" using assms(1) boss_ok_delete [OF _ m] by (simp add: lot_inv_def b')
  ultimately show ?thesis using assms(1) by (simp add: lot_inv_def names_def cids_ok_def accounted_def b')
qed

lemma started_names:
  assumes "(i, w) \<in># lt_started s"
  shows "alive s = add_mset (i, w) (alive (s\<lparr>lt_started := lt_started s - {#(i, w)#}\<rparr>))"
  using multi_member_split [OF assms] by (auto simp: alive_def)

lemma inv_enter:
  assumes inv: "lot_inv base s" and i: "(i, w) \<in># lt_started s" and "\<not> at_cap (lt_boss s)" and sl: "sl_w sl = w" "slot_ok (i, sl)"
  shows "lot_inv base (s\<lparr>lt_boss := (lt_boss s)\<lparr>bs_worlds := slot_update i sl (bs_worlds (lt_boss s))\<rparr>, lt_env := e',
    lt_started := lt_started s - {#(i, w)#}\<rparr>)" (is "lot_inv base ?s")
proof -
  obtain st where st: "lt_started s = add_mset (i, w) st" using multi_member_split [OF i] by blast
  have sub: "alive ?s \<subseteq># alive s"
    using kept_update_subset [of i sl "bs_worlds (lt_boss s)"] by (simp add: alive_def st sl subset_mset.add_mono)
  then have names: "names ?s \<subseteq># names s" by (simp add: names_def image_mset_subseteq_mono)
  have "accounted base ?s" unfolding accounted_def
  proof
    assume d: "distinct (map fst (lt_issued ?s))"
    have "add_mset (i, w_GuestCID w) (image_mset (\<lambda>x. (fst x, w_GuestCID (snd x))) (mset (kept (bs_worlds (lt_boss s))))) \<subseteq># names s"
      by (simp add: names_def alive_def st)
    also have "\<dots> \<subseteq># mset (lt_issued s)" using inv by (simp add: lot_inv_def)
    finally have fresh: "add_mset (i, w_GuestCID w) (image_mset (\<lambda>x. (fst x, w_GuestCID (snd x))) (mset (kept (bs_worlds (lt_boss s)))))
      \<subseteq># mset (lt_issued s)" .
    have "i \<notin> fst ` set (kept (bs_worlds (lt_boss s)))"
      using distinct_fst_fresh [OF fresh] d by (simp add: image_image)
    then have "i \<notin> fst ` set (bs_worlds (lt_boss s))" using kept_keys [of "bs_worlds (lt_boss s)"] by (metis list.set_map)
    then have "alive ?s = alive s" by (simp add: alive_def st sl slot_update_fresh)
    then show "host.held base (image_mset snd (alive ?s)) (lt_host ?s)" using inv d by (simp add: lot_inv_def accounted_def)
  qed
  with inv names assms(3) sl show ?thesis
    by (auto simp: lot_inv_def cids_ok_def not_at_cap intro: subset_mset.trans)
qed

lemma inv_finish:
  assumes inv: "lot_inv base s" and i: "(i, w) \<in># lt_started s"
    and f: "lease_finish fmul net now body i w (lt_boss s, lt_host s, lt_env s) = (res, b', h', e')"
  shows "lot_inv base (s\<lparr>lt_boss := b', lt_host := h', lt_env := e', lt_started := lt_started s - {#(i, w)#}\<rparr>)"
  using f
proof (cases rule: lease_finish_cases)
  case full
  show ?thesis
    by (rule inv_stop [OF inv, where i = i and w = w]) (use full started_names [OF i] in \<open>simp_all add: alive_def\<close>)
next
  case (entered sl)
  from inv_enter [OF inv i this(1,5,6), of e'] show ?thesis by (simp add: entered)
qed

lemma inv_destroy:
  assumes inv: "lot_inv base s" and i: "(i, sl_w sl) \<in># lt_dying s"
    and f: "destroy_finish net i sl (lt_boss s, lt_host s, lt_env s) = (b', h', e')"
  shows "lot_inv base (s\<lparr>lt_boss := b', lt_host := h', lt_env := e', lt_dying := lt_dying s - {#(i, sl_w sl)#}\<rparr>)"
  by (rule inv_stop [OF inv, where i = i and w = "sl_w sl"])
    (use destroy_finish_eq [OF f] multi_member_split [OF i] in \<open>auto simp: alive_def\<close>)

lemma inv_worlds: "lot_inv base s \<Longrightarrow> worlds_ok (bs_worlds (lt_boss s))"
  by (simp add: lot_inv_def boss_ok_def)

lemma step_inv: "lot_step lib fmul s s' \<Longrightarrow> lot_inv base s \<Longrightarrow> lot_inv base s'"
proof (induction rule: lot_step.induct)
  case (stopping order s ids b')
  then show ?case
    by (auto simp: stop_begin_def lot_inv_def boss_ok_def names_def alive_def cids_ok_def accounted_def)
next
  case (outside s e')
  then show ?case by (simp add: lot_inv_def names_def alive_def cids_ok_def accounted_def)
next
  case (activity net now i s r b' e')
  show ?case by (rule inv_calm [OF activity.prems touch_calm [OF inv_worlds [OF activity.prems] activity.hyps]])
next
  case (network net now i phase s res b' e')
  show ?case by (rule inv_calm [OF network.prems SetNetwork_calm [OF inv_worlds [OF network.prems] network.hyps]])
next
  case (tick order fc now s b' e')
  show ?case by (rule inv_calm [OF tick.prems pause_tick_calm [OF inv_worlds [OF tick.prems] tick.hyps]])
qed (rule inv_admit inv_start inv_start_fails inv_finish inv_remove inv_destroy; assumption)+

lemma run_inv: "lot_run lib fmul s s' \<Longrightarrow> lot_inv base s \<Longrightarrow> lot_inv base s'"
proof (induction rule: rtranclp_induct)
  case (step y z)
  from step_inv [OF step.hyps(2) step.IH [OF step.prems]] show ?case .
qed

lemma reachable_inv: "lot_run lib fmul (lot_init env cfg h e) s \<Longrightarrow> lot_inv h s"
  by (rule run_inv [OF _ inv_init])

end
