(* ===== verification/BossRefine.thy ===== *)
theory BossRefine
  imports BossInv
begin

text \<open>
  A request that nobody interrupts is a run of the step relation: every handler, and \<open>StopAll\<close>, is
  composed of the steps of \<open>BossSteps\<close>, and leaves nothing on the way.
\<close>

text \<open>A run that ends in the given state, with \<open>iss\<close> issued on the way and nothing new in flight.\<close>

abbreviation lot_state :: "'e lot \<Rightarrow> 'e boss_state" where
  "lot_state s \<equiv> (lt_boss s, lt_host s, lt_env s)"

definition runs_to :: "(string \<Rightarrow> string) \<Rightarrow> (nat \<Rightarrow> nat \<Rightarrow> nat \<Rightarrow> nat) \<Rightarrow> 'e lot \<Rightarrow> (string \<times> u32) list \<Rightarrow> 'e boss_state \<Rightarrow> bool" where
  "runs_to lib fmul s iss st \<longleftrightarrow> (\<exists>s'. lot_run lib fmul s s' \<and> lot_state s' = st \<and> lt_starting s' = lt_starting s
     \<and> lt_started s' = lt_started s \<and> lt_dying s' = lt_dying s \<and> lt_issued s' = lt_issued s @ iss)"

lemma runs_toI:
  "lot_run lib fmul s s' \<Longrightarrow> lot_state s' = st \<Longrightarrow> lt_starting s' = lt_starting s \<Longrightarrow> lt_started s' = lt_started s
    \<Longrightarrow> lt_dying s' = lt_dying s \<Longrightarrow> lt_issued s' = lt_issued s @ iss \<Longrightarrow> runs_to lib fmul s iss st"
  unfolding runs_to_def by blast

lemma run_steps:
  "lot_step lib fmul a b \<Longrightarrow> lot_run lib fmul a b"
  "lot_step lib fmul a b \<Longrightarrow> lot_step lib fmul b c \<Longrightarrow> lot_run lib fmul a c"
  "lot_step lib fmul a b \<Longrightarrow> lot_step lib fmul b c \<Longrightarrow> lot_step lib fmul c d \<Longrightarrow> lot_run lib fmul a d"
  by simp_all

lemma runs_to_refl: "runs_to lib fmul s [] (lot_state s)"
  by (rule runs_toI [of _ _ s s]) simp_all

lemma runs_to_trans:
  "runs_to lib fmul s iss st \<Longrightarrow> (\<And>s'. lot_state s' = st \<Longrightarrow> runs_to lib fmul s' jss st') \<Longrightarrow> runs_to lib fmul s (iss @ jss) st'"
  unfolding runs_to_def by (metis append.assoc rtranclp_trans)

text \<open>What an admitted lease is issued.\<close>

definition lease_issues :: "(string, string) result \<Rightarrow> Boss \<Rightarrow> (string \<times> u32) list" where
  "lease_issues rnd b = (case fst (lease_begin rnd b) of Inl e \<Rightarrow> [] | Inr x \<Rightarrow> [(fst x, effective_cid (snd x))])"

lemma Lease_runs:
  assumes "Lease lib fmul net en rnd now body (lot_state s) = (res, b', h', e')"
  shows "runs_to lib fmul s (lease_issues rnd (lt_boss s)) (b', h', e')"
proof (cases "lease_begin rnd (lt_boss s)")
  case (Pair r b1)
  show ?thesis
  proof (cases r)
    case (Inl err)
    then have "b1 = lt_boss s" using Pair by (auto simp: lease_begin_def split: if_splits sum.splits)
    then show ?thesis using assms Pair Inl runs_to_refl [of lib fmul s] by (simp add: Lease_def lease_issues_def)
  next
    case (Inr x)
    obtain i cid where x: "x = (i, cid)" by (cases x)
    let ?s1 = "s\<lparr>lt_boss := b1, lt_starting := add_mset (i, cid) (lt_starting s), lt_issued := lt_issued s @ [(i, effective_cid cid)]\<rparr>"
    have s1: "lot_step lib fmul s ?s1" using Pair Inr x by (intro lot_step.admit) simp
    obtain q h1 where st: "World_Start lib en (lease_opts (bs_cfg b1) i cid) (lt_host s) = (q, h1)" by fastforce
    show ?thesis
    proof (cases q)
      case (Inl err)
      let ?s2 = "?s1\<lparr>lt_host := h1, lt_starting := lt_starting ?s1 - {#(i, cid)#}\<rparr>"
      have "lot_step lib fmul ?s1 ?s2" by (rule lot_step.start_fails) (use st Inl in auto)
      then have "runs_to lib fmul s [(i, effective_cid cid)] (lot_state ?s2)"
        using s1 by (intro runs_toI [where s' = ?s2] run_steps(2)) simp_all
      then show ?thesis using assms Pair Inr x st Inl by (simp add: Lease_def lease_issues_def)
    next
      case (Inr w)
      let ?s2 = "?s1\<lparr>lt_boss := lease_forward i b1, lt_host := h1, lt_starting := lt_starting ?s1 - {#(i, cid)#},
        lt_started := add_mset (i, w) (lt_started ?s1)\<rparr>"
      have s2: "lot_step lib fmul ?s1 ?s2" using lot_step.start [of i cid ?s1 lib en w h1 fmul] st Inr by simp
      have f: "lease_finish fmul net now body i w (lt_boss ?s2, lt_host ?s2, lt_env ?s2) = (res, b', h', e')"
        using assms Pair \<open>r = Inr x\<close> x st Inr by (simp add: Lease_def)
      let ?s3 = "?s2\<lparr>lt_boss := b', lt_host := h', lt_env := e', lt_started := lt_started ?s2 - {#(i, w)#}\<rparr>"
      have "lot_step lib fmul ?s2 ?s3" by (rule lot_step.finish [OF _ f]) simp
      then have "runs_to lib fmul s [(i, effective_cid cid)] (lot_state ?s3)"
        using s1 s2 by (intro runs_toI [where s' = ?s3] run_steps(3)) simp_all
      then show ?thesis using Pair \<open>r = Inr x\<close> x by (simp add: lease_issues_def)
    qed
  qed
qed

lemma Destroy_runs:
  assumes "Destroy net i (lot_state s) = (res, b', h', e')"
  shows "runs_to lib fmul s [] (b', h', e')"
proof (cases "destroy_begin i (lt_boss s)")
  case (Pair r b1)
  show ?thesis
  proof (cases r)
    case None
    then have "b1 = lt_boss s" using Pair by (auto simp: destroy_begin_def split: option.splits)
    then show ?thesis using assms Pair None runs_to_refl [of lib fmul s] by (simp add: Destroy_def)
  next
    case (Some sl)
    let ?s1 = "s\<lparr>lt_boss := b1, lt_dying := add_mset (i, sl_w sl) (lt_dying s)\<rparr>"
    have s1: "lot_step lib fmul s ?s1" using Pair Some by (intro lot_step.remove) simp
    have f: "destroy_finish net i sl (lt_boss ?s1, lt_host ?s1, lt_env ?s1) = (b', h', e')"
      using assms Pair Some by (simp add: Destroy_def)
    let ?s2 = "?s1\<lparr>lt_boss := b', lt_host := h', lt_env := e', lt_dying := lt_dying ?s1 - {#(i, sl_w sl)#}\<rparr>"
    have "lot_step lib fmul ?s1 ?s2" by (rule lot_step.destroy [OF _ f]) simp
    then show ?thesis
      using s1 by (intro runs_toI [where s' = ?s2] run_steps(2)) simp_all
  qed
qed

lemma whole_runs:
  "Lease lib fmul net en rnd now body (lot_state s) = (res, st) \<Longrightarrow> \<exists>iss. runs_to lib fmul s iss st"
  "Destroy net i (lot_state s) = (r, st) \<Longrightarrow> \<exists>iss. runs_to lib fmul s iss st"
  by (cases st, use Lease_runs in metis) (cases st, use Destroy_runs in metis)

lemma step_runs:
  assumes "lot_step lib fmul s (s\<lparr>lt_boss := b', lt_env := e'\<rparr>)"
  shows "runs_to lib fmul s [] (b', lt_host s, e')"
  by (rule runs_toI [OF run_steps(1) [OF assms]]) simp_all

lemma outside_runs: "lot_state s = (b', h', e1) \<Longrightarrow> runs_to lib fmul s [] (b', h', e')"
  by (rule runs_toI [OF run_steps(1) [OF lot_step.outside [of lib fmul s e']]]) simp_all

lemma touch_runs: "touch net now i (lt_boss s, lt_env s) = (r, b', e') \<Longrightarrow> runs_to lib fmul s [] (b', lt_host s, e')"
  by (rule step_runs, rule lot_step.activity)

lemma SetNetwork_runs: "SetNetwork net now i p (lt_boss s, lt_env s) = (r, b', e') \<Longrightarrow> runs_to lib fmul s [] (b', lt_host s, e')"
  by (rule step_runs, rule lot_step.network)

lemma Boss_Exec_state:
  "Boss_Exec net now i body (b, e) = (r, b', e') \<Longrightarrow> \<exists>q e1. touch net now i (b, e) = (q, b', e1)"
  by (auto simp: Boss_Exec_def Let_def split: option.splits prod.splits if_splits)

lemma Boss_Exec_runs: "Boss_Exec net now i body (lt_boss s, lt_env s) = (r, b', e') \<Longrightarrow> runs_to lib fmul s [] (b', lt_host s, e')"
  using runs_to_trans [of lib fmul s "[]" _ "[]" "(b', lt_host s, e')", OF touch_runs outside_runs] Boss_Exec_state by fastforce

lemma handleLease_runs: "boss_handleLease v r (lot_state s) = (resp, st) \<Longrightarrow> \<exists>iss. runs_to (bv_lib v) (bv_fmul v) s iss st"
  by (auto simp: boss_handleLease_def Let_def intro: runs_to_refl dest: whole_runs split: if_splits sum.splits prod.splits)

lemma handleHeartbeat_runs: "boss_handleHeartbeat v i (lot_state s) = (resp, st) \<Longrightarrow> \<exists>iss. runs_to (bv_lib v) (bv_fmul v) s iss st"
  by (auto simp: boss_handleHeartbeat_def dest: touch_runs split: option.splits prod.splits)

lemma handleNetwork_runs: "boss_handleNetwork v r i (lot_state s) = (resp, st) \<Longrightarrow> \<exists>iss. runs_to (bv_lib v) (bv_fmul v) s iss st"
  by (auto simp: boss_handleNetwork_def Let_def dest: SetNetwork_runs split: sum.splits prod.splits)

lemma handleExec_runs: "boss_handleExec v r i (lot_state s) = (resp, st) \<Longrightarrow> \<exists>iss. runs_to (bv_lib v) (bv_fmul v) s iss st"
  by (auto simp: boss_handleExec_def intro: runs_to_refl dest: Boss_Exec_runs split: if_splits sum.splits prod.splits)

lemma handleDestroy_runs: "boss_handleDestroy v i (lot_state s) = (resp, st) \<Longrightarrow> \<exists>iss. runs_to (bv_lib v) (bv_fmul v) s iss st"
  by (auto simp: boss_handleDestroy_def dest: whole_runs split: option.splits prod.splits)

lemmas boss_handle_runs = handleLease_runs handleHeartbeat_runs handleNetwork_runs handleExec_runs handleDestroy_runs

lemma boss_serve_runs: "boss_serve v r (lot_state s) = (resp, st) \<Longrightarrow> \<exists>iss. runs_to (bv_lib v) (bv_fmul v) s iss st"
  by (auto simp: boss_serve_def Let_def intro: runs_to_refl boss_handle_runs split: dispatch.splits boss_handler.splits)

section \<open>Shutting down\<close>

abbreviation destroy_all :: "'e boss_net \<Rightarrow> string list \<Rightarrow> 'e boss_state \<Rightarrow> 'e boss_state" where
  "destroy_all net \<equiv> fold (\<lambda>i st. snd (Destroy net i st))"

lemma Destroy_boss:
  "bs_worlds (fst (snd (Destroy net i st))) = slot_delete i (bs_worlds (fst st))
    \<and> bs_stopping (fst (snd (Destroy net i st))) = bs_stopping (fst st)"
proof -
  obtain b h e where st: "st = (b, h, e)" by (cases st)
  show ?thesis
  proof (cases "map_of (bs_worlds b) i")
    case None
    then have "i \<notin> fst ` set (bs_worlds b)" by (simp add: map_of_eq_None_iff)
    with None st show ?thesis by (simp add: Destroy_def destroy_begin_def slot_delete_id)
  next
    case (Some sl)
    then have d: "destroy_begin i b = (Some sl, b\<lparr>bs_worlds := slot_delete i (bs_worlds b)\<rparr>)" by (simp add: destroy_begin_def)
    obtain b' h' e' where f: "destroy_finish net i sl (b\<lparr>bs_worlds := slot_delete i (bs_worlds b)\<rparr>, h, e) = (b', h', e')"
      by (rule prod_cases3)
    from destroy_finish_eq [OF f] d f st show ?thesis by (simp add: Destroy_def)
  qed
qed

lemma destroy_all_boss:
  "bs_worlds (fst (destroy_all net ids st)) = fold slot_delete ids (bs_worlds (fst st))
    \<and> bs_stopping (fst (destroy_all net ids st)) = bs_stopping (fst st)"
  by (induction ids arbitrary: st) (simp_all add: Destroy_boss)

lemma fold_slot_delete: "fst ` set (fold slot_delete ids ws) = fst ` set ws - set ids"
proof (induction ids arbitrary: ws)
  case (Cons i ids)
  have "fst ` set (slot_delete i ws) = fst ` set ws - {i}"
    using arg_cong [OF slot_delete_keys [of i ws], of set] by auto
  with Cons show ?case by auto
qed simp

lemma destroy_all_runs: "runs_to lib fmul s [] (destroy_all net ids (lot_state s))"
proof (induction ids arbitrary: s)
  case Nil
  show ?case by (simp add: runs_to_refl)
next
  case (Cons i ids)
  obtain r st where d: "Destroy net i (lot_state s) = (r, st)" by (rule prod.exhaust)
  have "runs_to lib fmul s [] st" using Destroy_runs [where s = s and net = net and i = i] d by (cases st) simp
  moreover have "runs_to lib fmul s' [] (destroy_all net ids st)" if "lot_state s' = st" for s'
    using Cons [of s'] that by simp
  ultimately have "runs_to lib fmul s ([] @ []) (destroy_all net ids st)" by (rule runs_to_trans)
  with d show ?case by simp
qed

lemma StopAll_runs:
  assumes "StopAll order net (lot_state s) = st"
  shows "runs_to lib fmul s [] st"
proof -
  let ?b = "(lt_boss s)\<lparr>bs_stopping := True\<rparr>"
  have "runs_to lib fmul s [] (?b, lt_host s, lt_env s)"
    by (rule runs_toI [OF run_steps(1) [OF lot_step.stopping [of order s _ ?b]]]) (simp_all add: stop_begin_def)
  then have "runs_to lib fmul s ([] @ []) (destroy_all net (order (map fst (bs_worlds (lt_boss s)))) (?b, lt_host s, lt_env s))"
    by (rule runs_to_trans) (metis destroy_all_runs)
  then show ?thesis using assms by (simp add: StopAll_def stop_begin_def)
qed

lemma StopAll_empty:
  assumes "StopAll order net (b, h, e) = (b', h', e')" "set (map fst (bs_worlds b)) \<subseteq> set (order (map fst (bs_worlds b)))"
  shows "bs_worlds b' = [] \<and> bs_stopping b'"
proof -
  have "destroy_all net (order (map fst (bs_worlds b))) (b\<lparr>bs_stopping := True\<rparr>, h, e) = (b', h', e')"
    using assms(1) by (simp add: StopAll_def stop_begin_def)
  then have "bs_worlds b' = fold slot_delete (order (map fst (bs_worlds b))) (bs_worlds b)" "bs_stopping b'"
    using destroy_all_boss [of net "order (map fst (bs_worlds b))" "(b\<lparr>bs_stopping := True\<rparr>, h, e)"] by simp_all
  moreover from this have "fst ` set (bs_worlds b') = {}" using fold_slot_delete assms(2) by auto
  ultimately show ?thesis by simp
qed

end
