(* ===== verification/BossTheorems.thy ===== *)
theory BossTheorems
  imports BossRefine
begin

text \<open>
  The properties of lot-boss: the cap, the slots, the CIDs and the host's resources under every
  interleaving of its callers, the effect of a shutdown, and the contracts of single requests.
\<close>

section \<open>Lemmas\<close>

lemma step_cfg: "lot_step lib fmul s s' \<Longrightarrow> bs_cfg (lt_boss s') = bs_cfg (lt_boss s)"
proof (induction rule: lot_step.induct)
  case (finish i w s net now body res b' h' e')
  from finish(2) show ?case by (cases rule: lease_finish_cases) simp_all
next
  case (destroy i sl s net b' h' e')
  then show ?case by (auto dest: destroy_finish_eq)
qed (auto simp: lease_forward_def touch_def SetNetwork_def pause_tick_def stop_begin_def Let_def
    dest!: lease_begin_Inr destroy_begin_Some split: option.splits prod.splits if_splits)

lemma run_cfg: "lot_run lib fmul s s' \<Longrightarrow> bs_cfg (lt_boss s') = bs_cfg (lt_boss s)"
  by (induction rule: rtranclp_induct) (simp_all add: step_cfg)

text \<open>A start on a host where nothing fails, without privileges.\<close>

definition plain_env :: "nat \<Rightarrow> start_env" where
  "plain_env pid = \<lparr>se_euid = 1000, se_uid = 1000, se_gid = 1000, se_getenv = (\<lambda>_. []), se_evalsym = (\<lambda>_. None), se_err = (\<lambda>_ _. None),
     se_walk = (\<lambda>_. []), se_pid = pid, se_kvm = [], se_health = [Inr 200]\<rparr>"

definition plain_jail :: "StartOpts \<Rightarrow> string" where
  "plain_jail opts = path_join [path_join [so_WorkDir opts, ''jails''], ''firecracker'', so_ID opts, ''root'']"

definition plain_world :: "nat \<Rightarrow> StartOpts \<Rightarrow> World" where
  "plain_world pid opts = (new_world opts (path_join [so_WorkDir opts, ''events.jsonl'']) (plain_jail opts))
     \<lparr>w_cmd := Some pid, w_Engine := ''firecracker''\<rparr>"

lemma plain_start:
  assumes "3 \<le> effective_cid (so_GuestCID opts)"
  shows "World_Start lib (plain_env pid) opts h = (Inr (plain_world pid opts), h + footprint (plain_world pid opts))"
proof -
  have "prepare_jail (plain_env pid) opts (plain_jail opts) = None"
    using assms by (simp add: prepare_jail_def plain_env_def copyFile_def prefix_err_def leD)
  then show ?thesis
    by (simp add: World_Start_def start_folder_def launch_def startVMM_def waitHealth_def plain_env_def plain_jail_def plain_world_def
        footprint_def Let_def add_mset_commute)
qed

lemma plain_world_simps [simp]: "w_ID (plain_world pid opts) = so_ID opts"
  "w_GuestCID (plain_world pid opts) = effective_cid (so_GuestCID opts)"
  by (simp_all add: plain_world_def)

lemma plain_lease:
  assumes "\<not> bs_stopping b" "\<not> at_cap b" "3 \<le> effective_cid (bs_nextCID b)" "cf_DeskURL (bs_cfg b) = []"
    and i: "i = CHR ''w'' # hex_encode bytes" and w: "w = plain_world pid (lease_opts (bs_cfg b) i (bs_nextCID b))"
  shows "Lease lib fmul net (plain_env pid) (Inr bytes) now body (b, h, e) =
    (Inr (lease_info body i w),
     b\<lparr>bs_nextCID := bs_nextCID b + 1, bs_fwd := add_mset i (bs_fwd b),
       bs_worlds := slot_update i \<lparr>sl_info = lease_info body i w, sl_w = w, sl_lastActive = now,
         sl_ttlPause = parseTTLPause fmul (lb_TTLPause body), sl_paused = False\<rparr> (bs_worlds b)\<rparr>,
     h + footprint w, e)"
  using assms
  by (simp add: Lease_def lease_begin_def newWorldID_def plain_start lease_finish_def lease_forward_def at_cap_def Let_def commitDesk_def
      commitDeskRaw_def)

text \<open>A node for one world without a desk, and the world of its first lease.\<close>

definition demo_config :: Config where
  "demo_config = \<lparr>cf_MaxWorlds = 1, cf_WarmPool = 0, cf_RequireKVM = False, cf_KVMPath = [], cf_WorkDir = ''/work'', cf_Kernel = ''/k'',
     cf_Rootfs = ''/r'', cf_Firecracker = ''/fc'', cf_Jailer = ''/j'', cf_WaitKVM = ''/wk'', cf_DeskURL = [], cf_RequireJailer = False\<rparr>"

definition demo_world :: World where
  "demo_world = plain_world 7 (lease_opts (default_config (\<lambda>_. []) demo_config) ''w01020304'' 3)"

definition demo_body :: leaseBody where
  "demo_body = lease_defaults \<lparr>lb_Profile = [], lb_TTLPause = [], lb_TTLStore = [], lb_TTLPrune = []\<rparr>"

abbreviation demo_start :: "unit lot" where
  "demo_start \<equiv> lot_init (\<lambda>_. []) demo_config {#} ()"

lemma demo_config_default: "cf_DeskURL (default_config (\<lambda>_. []) demo_config) = []" "cf_MaxWorlds (default_config (\<lambda>_. []) demo_config) = 1"
  by (simp_all add: default_config_def demo_config_def)

lemma demo_id: "hex_encode [CHR 0x01, CHR 0x02, CHR 0x03, CHR 0x04] = ''01020304''"
  by code_simp

lemma demo_lease_ok:
  "\<exists>b' h'. Lease (\<lambda>_. []) (\<lambda>_ _ _. 0) net (plain_env 7) (Inr [CHR 0x01, CHR 0x02, CHR 0x03, CHR 0x04]) 0 demo_body (lot_state demo_start)
      = (Inr (lease_info demo_body ''w01020304'' demo_world), b', h', ()) \<and> kept (bs_worlds b') = [(''w01020304'', demo_world)]"
proof -
  let ?b = "lt_boss demo_start" and ?i = "''w01020304''"
  have b: "\<not> bs_stopping ?b" "\<not> at_cap ?b" "bs_nextCID ?b = 3" "bs_worlds ?b = []" "bs_cfg ?b = default_config (\<lambda>_. []) demo_config"
    by (simp_all add: lot_init_def NewBossConfig_def at_cap_def demo_config_default)
  show ?thesis
    using plain_lease [OF b(1,2), where i = ?i and bytes = "[CHR 0x01, CHR 0x02, CHR 0x03, CHR 0x04]" and pid = 7 and e = "()"
        and w = "plain_world 7 (lease_opts (bs_cfg ?b) ?i (bs_nextCID ?b))"]
    by (simp add: b demo_config_default demo_id effective_cid_def demo_world_def)
qed

lemma demo_reach:
  "\<exists>s. lot_run (\<lambda>_. []) (\<lambda>_ _ _. 0) demo_start s \<and> kept (bs_worlds (lt_boss s)) = [(''w01020304'', demo_world)]
     \<and> lt_started s = {#} \<and> lt_dying s = {#} \<and> lt_starting s = {#} \<and> lt_issued s = [(''w01020304'', 3)]"
proof -
  let ?b = "lt_boss demo_start" and ?i = "''w01020304''" and ?bytes = "[CHR 0x01, CHR 0x02, CHR 0x03, CHR 0x04]"
  have b: "\<not> bs_stopping ?b" "\<not> at_cap ?b" "bs_nextCID ?b = 3" "bs_worlds ?b = []" "bs_cfg ?b = default_config (\<lambda>_. []) demo_config"
    by (simp_all add: lot_init_def NewBossConfig_def at_cap_def demo_config_default)
  obtain b' h' where l: "Lease (\<lambda>_. []) (\<lambda>_ _ _. 0) undefined (plain_env 7) (Inr ?bytes) 0 demo_body (lot_state demo_start)
      = (Inr (lease_info demo_body ?i demo_world), b', h', ())" "kept (bs_worlds b') = [(?i, demo_world)]" using demo_lease_ok by blast
  have "lease_issues (Inr ?bytes) ?b = [(?i, 3)]"
    using b by (simp add: lease_issues_def lease_begin_def newWorldID_def demo_id effective_cid_def)
  then have "runs_to (\<lambda>_. []) (\<lambda>_ _ _. 0) demo_start [(?i, 3)] (b', h', ())" using Lease_runs [OF l(1)] by simp
  then obtain s' where "lot_run (\<lambda>_. []) (\<lambda>_ _ _. 0) demo_start s'" "lt_boss s' = b'" "lt_starting s' = lt_starting demo_start"
    "lt_started s' = lt_started demo_start" "lt_dying s' = lt_dying demo_start" "lt_issued s' = lt_issued demo_start @ [(?i, 3)]"
    by (auto simp: runs_to_def)
  with l(2) show ?thesis by (intro exI [of _ s']) (simp add: lot_init_def)
qed

text \<open>The same lease as a request.\<close>

definition demo_boss_env :: "unit boss_env" where
  "demo_boss_env = \<lparr>bv_lib = (\<lambda>_. []), bv_fmul = (\<lambda>_ _ _. 0), bv_net = undefined,
     bv_os = \<lparr>bo_open = (\<lambda>_. False), bo_stat = (\<lambda>_. True), bo_euid = 1000\<rparr>, bv_start = plain_env 7,
     bv_rnd = Inr [CHR 0x01, CHR 0x02, CHR 0x03, CHR 0x04], bv_now = 0, bv_order = id\<rparr>"

definition lease_post :: Request where
  "lease_post = \<lparr>hr_method = ''POST'', hr_path = [''v1'', ''worlds''], hr_query = (\<lambda>k. []), hr_header = (\<lambda>k. []), hr_body = [],
     hr_broken = False\<rparr>"

lemma lease_post_dispatch: "dispatch boss_routes lease_post = Serve BLease []"
  by (simp add: dispatch_def boss_routes_def lease_post_def match_method_def)

lemma lease_post_body: "lease_defaults (leaseBody_of (snd (body_members (request_json lease_post)))) = demo_body"
  by (simp add: request_json_def lease_post_def decode_body_def skip_ws_def body_members_def leaseBody_of_def field_with_def demo_body_def)

lemma demo_ready: "EngineReady (bv_os demo_boss_env) (lt_boss demo_start)"
  by (simp add: EngineReady_def kvmOK_def artifactsOK_def demo_boss_env_def lot_init_def NewBossConfig_def default_config_def demo_config_def)

text \<open>Distinct CIDs while the counter has not wrapped.\<close>

lemma cid_values:
  assumes "n \<le> 2 ^ 32 - 3" "k < n"
  shows "unat (effective_cid (3 + of_nat k)) = 3 + k"
proof -
  have "unat (of_nat k :: u32) = k" using assms by (simp add: unat_of_nat take_bit_nat_eq_self)
  then have "unat (3 + of_nat k :: u32) = 3 + k" using assms by (simp add: unat_word_ariths)
  then show ?thesis by (auto simp: effective_cid_def)
qed

lemma cids_distinct:
  assumes "n \<le> 2 ^ 32 - 3"
  shows "distinct (map (\<lambda>k. effective_cid (3 + of_nat k)) [0..<n])"
proof -
  have "map unat (map (\<lambda>k. effective_cid (3 + of_nat k)) [0..<n]) = map (\<lambda>k. 3 + k) [0..<n]"
    using cid_values [OF assms] by simp
  also have "distinct \<dots>" by (simp add: distinct_map)
  finally show ?thesis by (metis distinct_map)
qed

lemma issued_cids:
  assumes "cids_ok s" "length (lt_issued s) \<le> 2 ^ 32 - 3"
  shows "distinct (map snd (lt_issued s))" "x \<in> set (lt_issued s) \<Longrightarrow> 3 \<le> unat (snd x)"
proof -
  show "distinct (map snd (lt_issued s))" using assms cids_distinct by (simp add: cids_ok_def)
  assume "x \<in> set (lt_issued s)"
  then have "snd x \<in> set (map snd (lt_issued s))" by simp
  also have "map snd (lt_issued s) = map (\<lambda>k. effective_cid (3 + of_nat k)) [0..<length (lt_issued s)]"
    using assms(1) by (simp add: cids_ok_def)
  finally obtain k where "k < length (lt_issued s)" "snd x = effective_cid (3 + of_nat k)" by auto
  then show "3 \<le> unat (snd x)" using cid_values [OF assms(2)] by simp
qed

lemma names_cids:
  assumes "names s \<subseteq># mset (lt_issued s)" "distinct (map snd (lt_issued s))"
  shows "count (image_mset (\<lambda>x. w_GuestCID (snd x)) (alive s)) c \<le> 1"
proof -
  have "image_mset (\<lambda>x. w_GuestCID (snd x)) (alive s) \<subseteq># image_mset snd (names s)"
    by (simp add: names_def multiset.map_comp comp_def)
  also have "\<dots> \<subseteq># mset (map snd (lt_issued s))"
    using image_mset_subseteq_mono [OF assms(1), of snd] by simp
  finally have "count (image_mset (\<lambda>x. w_GuestCID (snd x)) (alive s)) c \<le> count (mset (map snd (lt_issued s))) c"
    by (rule mset_subset_eq_count)
  also have "\<dots> \<le> 1" using assms(2) distinct_count_atmost_1 [of "map snd (lt_issued s)"] by simp
  finally show ?thesis .
qed

section \<open>Every interleaving\<close>

text \<open>
  C2: However leases, destroys, requests, pause ticks and a shutdown interleave, the map never holds
  more worlds than the configured cap (a positive number), its keys are distinct, and every slot is
  under its own identifier, \<open>paused\<close> or \<open>running\<close> exactly as its flag says, in network phase \<open>dark\<close> or
  \<open>proxy\<close>, with a positive idle limit.
\<close>

theorem cap_and_slots:
  assumes "lot_run lib fmul (lot_init env cfg h e) s"
  shows "bs_cfg (lt_boss s) = default_config env cfg
    \<and> int (length (bs_worlds (lt_boss s))) \<le> cf_MaxWorlds (default_config env cfg)
    \<and> distinct (map fst (bs_worlds (lt_boss s))) \<and> list_all slot_ok (bs_worlds (lt_boss s))"
proof -
  have "bs_cfg (lt_boss s) = default_config env cfg" using run_cfg [OF assms] by (simp add: lot_init_def NewBossConfig_def)
  then show ?thesis using reachable_inv [OF assms] by (simp add: lot_inv_def boss_ok_def worlds_ok_def)
qed

theorem cap_and_slots_witness:
  "\<exists>s. lot_run (\<lambda>_. []) (\<lambda>_ _ _. 0) demo_start s \<and> length (bs_worlds (lt_boss s)) = 1
     \<and> int (length (bs_worlds (lt_boss s))) \<le> cf_MaxWorlds (default_config (\<lambda>_. []) demo_config) \<and> list_all slot_ok (bs_worlds (lt_boss s))"
proof -
  obtain s where s: "lot_run (\<lambda>_. []) (\<lambda>_ _ _. 0) demo_start s" "kept (bs_worlds (lt_boss s)) = [(''w01020304'', demo_world)]"
    using demo_reach by blast
  then have "length (bs_worlds (lt_boss s)) = 1" by (metis One_nat_def kept_length length_Cons list.size(3))
  with cap_and_slots [OF s(1)] s(1) show ?thesis by (intro exI [of _ s]) blast
qed

text \<open>
  C3: While no identifier is drawn twice, the host holds at every moment what it held at the
  beginning and exactly the listeners, processes and mounts of the worlds in the map, of the worlds
  started and not yet entered, and of the worlds taken out and not yet stopped. No failed start and no
  refused lease leaves anything behind.
\<close>

theorem resources_accounted:
  assumes "lot_run lib fmul (lot_init env cfg h e) s" "distinct (map fst (lt_issued s))"
  shows "lt_host s = h + (\<Sum>w\<in>#shepherded (bs_worlds (lt_boss s)). footprint w)
    + (\<Sum>x\<in>#lt_started s. footprint (snd x)) + (\<Sum>x\<in>#lt_dying s. footprint (snd x))"
proof -
  have "host.held h (image_mset snd (alive s)) (lt_host s)"
    using reachable_inv [OF assms(1)] assms(2) by (simp add: lot_inv_def accounted_def)
  then show ?thesis
    by (simp add: host.held_def alive_def kept_shepherded multiset.map_comp comp_def ac_simps)
qed

theorem resources_accounted_witness:
  "\<exists>s. lot_run (\<lambda>_. []) (\<lambda>_ _ _. 0) demo_start s \<and> lt_issued s = [(''w01020304'', 3)] \<and> lt_host s = footprint demo_world"
proof -
  obtain s where s: "lot_run (\<lambda>_. []) (\<lambda>_ _ _. 0) demo_start s" "kept (bs_worlds (lt_boss s)) = [(''w01020304'', demo_world)]"
    "lt_started s = {#}" "lt_dying s = {#}" "lt_issued s = [(''w01020304'', 3)]" using demo_reach by blast
  have d: "distinct (map fst (lt_issued s))" by (simp add: s)
  from resources_accounted [OF s(1) d] s show ?thesis by (intro exI [of _ s]) (simp add: kept_shepherded)
qed

text \<open>
  C25: Up to the wrap-around of the 32-bit counter, that is for the first \<open>2^32 - 3\<close> leases, no two
  worlds alive on the host have the same guest CID, and every CID is at least 3.
\<close>

theorem guest_cids_unique:
  assumes "lot_run lib fmul (lot_init env cfg h e) s" "length (lt_issued s) \<le> 2 ^ 32 - 3"
  shows "count (image_mset (\<lambda>x. w_GuestCID (snd x)) (alive s)) c \<le> 1 \<and> ((i, w) \<in># alive s \<longrightarrow> 3 \<le> unat (w_GuestCID w))"
proof -
  have inv: "names s \<subseteq># mset (lt_issued s)" "cids_ok s" using reachable_inv [OF assms(1)] by (simp_all add: lot_inv_def)
  have "3 \<le> unat (w_GuestCID w)" if "(i, w) \<in># alive s"
  proof -
    have "(i, w_GuestCID w) \<in># names s" using that by (force simp: names_def)
    then have "(i, w_GuestCID w) \<in> set (lt_issued s)" using inv(1) by (metis mset_subset_eqD set_mset_mset)
    then show ?thesis using issued_cids(2) [OF inv(2) assms(2)] by fastforce
  qed
  then show ?thesis using names_cids [OF inv(1) issued_cids(1) [OF inv(2) assms(2)]] by blast
qed

theorem guest_cids_unique_witness:
  "\<exists>s. lot_run (\<lambda>_. []) (\<lambda>_ _ _. 0) demo_start s \<and> (''w01020304'', demo_world) \<in># alive s
     \<and> count (image_mset (\<lambda>x. w_GuestCID (snd x)) (alive s)) 3 \<le> 1 \<and> 3 \<le> unat (w_GuestCID demo_world)"
proof -
  obtain s where s: "lot_run (\<lambda>_. []) (\<lambda>_ _ _. 0) demo_start s" "kept (bs_worlds (lt_boss s)) = [(''w01020304'', demo_world)]"
    "lt_issued s = [(''w01020304'', 3)]" using demo_reach by blast
  have l: "length (lt_issued s) \<le> 2 ^ 32 - 3" by (simp add: s)
  have m: "(''w01020304'', demo_world) \<in># alive s" by (simp add: alive_def s)
  from guest_cids_unique [OF s(1) l, of 3 "''w01020304''" demo_world] s(1) m show ?thesis by (intro exI [of _ s]) blast
qed

text \<open>
  C20: A request that nobody interrupts is a run of the steps: whatever the request and whatever the
  clients, the clock, the random source and the system calls of a start answer, the state the handler
  leaves is reached by lot-boss's steps, with nothing new in flight and nothing issued but what the
  run issued.
\<close>

theorem requests_refine_steps:
  assumes "boss_serve v r (lt_boss s, lt_host s, lt_env s) = (resp, b', h', e')"
  shows "\<exists>s' iss. lot_run (bv_lib v) (bv_fmul v) s s' \<and> lt_boss s' = b' \<and> lt_host s' = h' \<and> lt_env s' = e'
    \<and> lt_starting s' = lt_starting s \<and> lt_started s' = lt_started s \<and> lt_dying s' = lt_dying s \<and> lt_issued s' = lt_issued s @ iss"
  using boss_serve_runs [OF assms] unfolding runs_to_def by auto

theorem requests_refine_steps_witness:
  "\<exists>resp b' h' e' s'. boss_serve demo_boss_env lease_post (lt_boss demo_start, lt_host demo_start, lt_env demo_start) = (resp, b', h', e')
     \<and> rs_code resp = 201 \<and> lot_run (\<lambda>_. []) (\<lambda>_ _ _. 0) demo_start s' \<and> lt_boss s' = b' \<and> lt_host s' = h'"
proof -
  obtain resp b' h' e' where r: "boss_serve demo_boss_env lease_post (lot_state demo_start) = (resp, b', h', e')" by (metis prod_cases3)
  obtain info st where l: "Lease (\<lambda>_. []) (\<lambda>_ _ _. 0) undefined (plain_env 7) (Inr [CHR 0x01, CHR 0x02, CHR 0x03, CHR 0x04]) 0 demo_body
      (lot_state demo_start) = (Inr info, st)" using demo_lease_ok by blast
  have "rs_code resp = 201" using r l demo_ready
    by (simp add: boss_serve_def lease_post_dispatch boss_handleLease_def lease_post_body Let_def) (auto simp: demo_boss_env_def)
  moreover from requests_refine_steps [OF r] obtain s' where "lot_run (\<lambda>_. []) (\<lambda>_ _ _. 0) demo_start s'" "lt_boss s' = b'" "lt_host s' = h'"
    by (auto simp: demo_boss_env_def)
  ultimately show ?thesis using r by blast
qed

text \<open>
  C16: \<open>StopAll\<close> with nothing in flight, in whatever order the range meets the keys, leaves no world
  in the map, refuses later leases, and gives the host back exactly what it had at the beginning.
\<close>

theorem stop_all_restores_host:
  assumes run: "lot_run lib fmul (lot_init env cfg h e) s" and d: "distinct (map fst (lt_issued s))"
    and flight: "lt_starting s = {#}" "lt_started s = {#}" "lt_dying s = {#}"
    and order: "mset (order (map fst (bs_worlds (lt_boss s)))) = mset (map fst (bs_worlds (lt_boss s)))"
    and stop: "StopAll order net (lt_boss s, lt_host s, lt_env s) = (b', h', e')"
  shows "bs_worlds b' = [] \<and> bs_stopping b' \<and> h' = h"
proof -
  have e: "bs_worlds b' = []" "bs_stopping b'"
    using StopAll_empty [OF stop] mset_eq_setD [OF order] by simp_all
  obtain s' where s': "lot_run lib fmul s s'" "lt_boss s' = b'" "lt_host s' = h'" "lt_started s' = {#}" "lt_dying s' = {#}" "lt_issued s' = lt_issued s"
    using StopAll_runs [OF stop, of lib fmul] flight by (auto simp: runs_to_def)
  have "lot_inv h s'" by (rule run_inv [OF s'(1) reachable_inv [OF run]])
  then show ?thesis using e s' d by (simp add: lot_inv_def accounted_def alive_def host.held_empty)
qed

theorem stop_all_restores_host_witness:
  "\<exists>s b' h' e'. lot_run (\<lambda>_. []) (\<lambda>_ _ _. 0) demo_start s \<and> kept (bs_worlds (lt_boss s)) = [(''w01020304'', demo_world)]
     \<and> StopAll id undefined (lt_boss s, lt_host s, lt_env s) = (b', h', e') \<and> bs_worlds b' = [] \<and> bs_stopping b' \<and> h' = {#}"
proof -
  obtain s where s: "lot_run (\<lambda>_. []) (\<lambda>_ _ _. 0) demo_start s" "kept (bs_worlds (lt_boss s)) = [(''w01020304'', demo_world)]"
    "lt_started s = {#}" "lt_dying s = {#}" "lt_starting s = {#}" "lt_issued s = [(''w01020304'', 3)]" using demo_reach by blast
  obtain b' h' e' where st: "StopAll id undefined (lot_state s) = (b', h', e')" by (metis prod_cases3)
  have d: "distinct (map fst (lt_issued s))" by (simp add: s)
  have o: "mset (id (map fst (bs_worlds (lt_boss s)))) = mset (map fst (bs_worlds (lt_boss s)))" by simp
  from stop_all_restores_host [OF s(1) d s(5,3,4) o st] s(1,2) st show ?thesis by blast
qed

text \<open>
  C35: A lease that was admitted before a shutdown survives it: \<open>Lease\<close> looks at \<open>stopping\<close> only before
  it starts the world, so a run exists in which \<open>StopAll\<close> finds nothing to destroy and ends, and the
  world is entered afterwards; nobody will stop it, although \<open>StopAll\<close> is meant to leave no orphan.
\<close>

theorem lease_survives_shutdown:
  "\<exists>s1 b s2 i w. lot_run lib fmul (lot_init env cfg h e) s1
     \<and> StopAll id net (lt_boss s1, lt_host s1, lt_env s1) = (b, lt_host s1, lt_env s1) \<and> lot_run lib fmul (s1\<lparr>lt_boss := b\<rparr>) s2
     \<and> bs_stopping (lt_boss s2) \<and> lt_starting s2 = {#} \<and> lt_started s2 = {#} \<and> lt_dying s2 = {#}
     \<and> kept (bs_worlds (lt_boss s2)) = [(i, w)] \<and> lt_host s2 = h + footprint w \<and> footprint w \<noteq> {#}"
proof -
  let ?s0 = "lot_init env cfg h e" and ?i = "CHR ''w'' # hex_encode []"
  define opts where "opts = lease_opts (default_config env cfg) ?i 3"
  define w where "w = plain_world 7 opts"
  define s1 where "s1 = ?s0\<lparr>lt_boss := (lt_boss ?s0)\<lparr>bs_nextCID := 4\<rparr>, lt_starting := {#(?i, 3)#}, lt_issued := [(?i, 3)]\<rparr>"
  define b where "b = (lt_boss s1)\<lparr>bs_stopping := True\<rparr>"
  define s2 where "s2 = s1\<lparr>lt_boss := lease_forward ?i b, lt_host := h + footprint w, lt_starting := {#}, lt_started := {#(?i, w)#}\<rparr>"
  have cap: "0 < cf_MaxWorlds (default_config env cfg)" using inv_init [of h env cfg e] by (simp add: lot_inv_def boss_ok_def lot_init_def NewBossConfig_def)
  have "lease_begin (Inr []) (lt_boss ?s0) = (Inr (?i, 3), (lt_boss ?s0)\<lparr>bs_nextCID := 4\<rparr>)"
    using cap by (simp add: lease_begin_def lot_init_def NewBossConfig_def at_cap_def newWorldID_def)
  from lot_step.admit [OF this, of lib fmul] have 1: "lot_step lib fmul ?s0 s1"
    by (simp add: s1_def lot_init_def effective_cid_def)
  have "World_Start lib (plain_env 7) opts h = (Inr w, h + footprint w)"
    unfolding w_def by (rule plain_start) (simp add: opts_def effective_cid_def)
  then have 2: "lot_step lib fmul (s1\<lparr>lt_boss := b\<rparr>) s2"
    using lot_step.start [of ?i 3 "s1\<lparr>lt_boss := b\<rparr>" lib "plain_env 7" w "h + footprint w" fmul]
    by (simp add: s2_def s1_def b_def opts_def lot_init_def NewBossConfig_def)
  obtain res b' h' e' where f: "lease_finish fmul net 0 demo_body ?i w (lt_boss s2, lt_host s2, lt_env s2) = (res, b', h', e')"
    by (metis prod_cases3)
  define s3 where "s3 = s2\<lparr>lt_boss := b', lt_host := h', lt_env := e', lt_started := lt_started s2 - {#(?i, w)#}\<rparr>"
  have 3: "lot_step lib fmul s2 s3" unfolding s3_def by (rule lot_step.finish [OF _ f]) (simp add: s2_def)
  have nc: "\<not> at_cap (lt_boss s2)" using cap by (simp add: s2_def b_def s1_def lease_forward_def lot_init_def NewBossConfig_def at_cap_def)
  from f have fin: "kept (bs_worlds b') = [(?i, w)]" "bs_stopping b'" "h' = h + footprint w"
    by (cases rule: lease_finish_cases; use nc in \<open>simp add: s2_def b_def s1_def lease_forward_def lot_init_def NewBossConfig_def\<close>)+
  have "StopAll id net (lt_boss s1, lt_host s1, lt_env s1) = (b, lt_host s1, lt_env s1)"
    by (simp add: StopAll_def stop_begin_def b_def s1_def lot_init_def NewBossConfig_def)
  moreover have "footprint w \<noteq> {#}" by (simp add: w_def plain_world_def footprint_def)
  moreover have "bs_stopping (lt_boss s3)" "lt_starting s3 = {#}" "lt_started s3 = {#}" "lt_dying s3 = {#}"
    "kept (bs_worlds (lt_boss s3)) = [(?i, w)]" "lt_host s3 = h + footprint w"
    using fin by (simp_all add: s3_def s2_def s1_def lot_init_def)
  ultimately show ?thesis using run_steps(1) [OF 1] run_steps(2) [OF 2 3] by blast
qed

end
