(* ===== verification/BossContracts.thy ===== *)
theory BossContracts
  imports BossTheorems
begin

text \<open>
  The contracts of single operations of lot-boss: the configuration, readiness and the refusals of a
  lease, the pause state machine of a slot, and the answers of \<open>Exec\<close>.
\<close>

section \<open>Configuration\<close>

text \<open>Each default is the assignment of one field.\<close>

lemma config_if:
  "(if p then c\<lparr>cf_MaxWorlds := m\<rparr> else c) = c\<lparr>cf_MaxWorlds := if p then m else cf_MaxWorlds c\<rparr>"
  "(if p then c\<lparr>cf_WarmPool := m\<rparr> else c) = c\<lparr>cf_WarmPool := if p then m else cf_WarmPool c\<rparr>"
  "(if p then c\<lparr>cf_KVMPath := x\<rparr> else c) = c\<lparr>cf_KVMPath := if p then x else cf_KVMPath c\<rparr>"
  "(if p then c\<lparr>cf_Firecracker := x\<rparr> else c) = c\<lparr>cf_Firecracker := if p then x else cf_Firecracker c\<rparr>"
  "(if p then c\<lparr>cf_Jailer := x\<rparr> else c) = c\<lparr>cf_Jailer := if p then x else cf_Jailer c\<rparr>"
  "(if p then c\<lparr>cf_WaitKVM := x\<rparr> else c) = c\<lparr>cf_WaitKVM := if p then x else cf_WaitKVM c\<rparr>"
  by simp_all

lemma default_config_eq:
  "default_config env c = c\<lparr>cf_MaxWorlds := (if cf_MaxWorlds c \<le> 0 then 3 else cf_MaxWorlds c),
     cf_WarmPool := (if cf_WarmPool c \<le> 0 then 0 else 1), cf_KVMPath := (if cf_KVMPath c = [] then ''/dev/kvm'' else cf_KVMPath c),
     cf_Firecracker := (if cf_Firecracker c = [] then env_or env ''FIRECRACKER_BIN'' ''/usr/local/firecracker/v1.15.1/firecracker''
       else cf_Firecracker c),
     cf_Jailer := (if cf_Jailer c = [] then env_or env ''JAILER_BIN'' ''/usr/local/firecracker/v1.15.1/jailer'' else cf_Jailer c),
     cf_WaitKVM := (if cf_WaitKVM c = [] then env ''BACKLOT_FC_WAITKVM'' else cf_WaitKVM c)\<rparr>"
  unfolding default_config_def config_if Let_def by (cases c) (simp add: DefaultMaxWorlds_def DefaultWarmPool_def)

text \<open>
  C36: Whatever configuration is passed, the one lot-boss runs with has a positive cap, a warm pool of
  0 or 1, and paths for the KVM node, Firecracker and the jailer; what was set properly is kept, and
  defaulting twice changes nothing.
\<close>

theorem config_bounds:
  "let d = default_config env c in
     1 \<le> cf_MaxWorlds d \<and> cf_WarmPool d \<in> {0, 1} \<and> cf_KVMPath d \<noteq> [] \<and> cf_Firecracker d \<noteq> [] \<and> cf_Jailer d \<noteq> []
     \<and> cf_MaxWorlds d = (if cf_MaxWorlds c \<le> 0 then 3 else cf_MaxWorlds c)
     \<and> cf_WarmPool d = (if cf_WarmPool c \<le> 0 then 0 else 1)
     \<and> cf_WorkDir d = cf_WorkDir c \<and> cf_Kernel d = cf_Kernel c \<and> cf_Rootfs d = cf_Rootfs c \<and> cf_RequireKVM d = cf_RequireKVM c
     \<and> cf_RequireJailer d = cf_RequireJailer c \<and> cf_DeskURL d = cf_DeskURL c
     \<and> default_config env d = d"
  unfolding default_config_eq Let_def by (cases c) (simp add: env_or_nonempty)

section \<open>Refusals\<close>

text \<open>
  The refusals of a lease start nothing and enter nothing: without a ready engine the answer is
  503; while lot-boss stops it is 502; at the cap it is 503 with the numbers of the cap. The state,
  the host and the clients are as before.
\<close>

theorem lease_refusals:
  "(\<not> EngineReady (bv_os v) b \<longrightarrow> boss_handleLease v r (b, h, e) = (httpError 503 ''world engine unavailable'', b, h, e))
   \<and> (EngineReady (bv_os v) b \<and> bs_stopping b \<longrightarrow> boss_handleLease v r (b, h, e) = (httpError 502 ''lot-boss stopping'', b, h, e))
   \<and> (EngineReady (bv_os v) b \<and> \<not> bs_stopping b \<and> cf_MaxWorlds (bs_cfg b) \<le> int (length (bs_worlds b))
        \<longrightarrow> boss_handleLease v r (b, h, e) = (httpError 503 (cap_error b), b, h, e))"
proof -
  have "contains (cap_error b) ''cap''"
    by (simp add: cap_error_def contains_def)
  moreover have "\<not> contains ''lot-boss stopping'' ''cap''" by code_simp
  ultimately show ?thesis by (simp add: boss_handleLease_def Let_def Lease_def lease_begin_def at_cap_def)
qed

lemma EngineReady_cfg: "bs_cfg b = bs_cfg b' \<Longrightarrow> EngineReady os b = EngineReady os b'"
  by (simp add: EngineReady_def kvmOK_def artifactsOK_def)

text \<open>A node that is ready and leases at most one world, before and during its shutdown.\<close>

theorem lease_refusals_witness:
  "boss_handleLease demo_boss_env lease_post ((lt_boss demo_start)\<lparr>bs_stopping := True\<rparr>, {#}, ())
     = (httpError 502 ''lot-boss stopping'', (lt_boss demo_start)\<lparr>bs_stopping := True\<rparr>, {#}, ())"
proof -
  have "EngineReady (bv_os demo_boss_env) ((lt_boss demo_start)\<lparr>bs_stopping := True\<rparr>)"
    by (subst EngineReady_cfg [where b' = "lt_boss demo_start"]) (use demo_ready in simp_all)
  with lease_refusals [of demo_boss_env "(lt_boss demo_start)\<lparr>bs_stopping := True\<rparr>" lease_post "{#}" "()"] show ?thesis by simp
qed

lemma contains_append: "contains s sub \<Longrightarrow> contains (p @ s) sub"
  by (induction p) (auto simp: contains_def)

text \<open>
  A start that fails is answered 503 when the text of its error has \<open>cap\<close> in it, and 502
  otherwise: the handler tells a full node from a failed start by that substring alone, so a failing
  call on a path like \<open>/srv/captures\<close> looks to the router like a node at its cap.
\<close>

theorem start_failure_code:
  assumes "EngineReady (bv_os v) b" "\<not> bs_stopping b" "int (length (bs_worlds b)) < cf_MaxWorlds (bs_cfg b)" "bv_rnd v = Inr bytes"
    and "i = CHR ''w'' # hex_encode bytes"
    and "World_Start (bv_lib v) (bv_start v) (lease_opts (bs_cfg b) i (bs_nextCID b)) h = (Inl err, h')"
  shows "rs_code (fst (boss_handleLease v r (b, h, e))) = (if contains (''start world: '' @ err) ''cap'' then 503 else 502)
    \<and> snd (boss_handleLease v r (b, h, e)) = (b\<lparr>bs_nextCID := bs_nextCID b + 1\<rparr>, h, e)"
proof -
  have "h' = h" using World_Start_host(1) [OF assms(6)] .
  then show ?thesis using assms
    by (simp add: boss_handleLease_def Let_def Lease_def lease_begin_def at_cap_def newWorldID_def)
qed

text \<open>A host where nothing can be created, and a node whose folder has \<open>cap\<close> in its name.\<close>

definition denied_env :: start_env where
  "denied_env = (plain_env 7)\<lparr>se_err := (\<lambda>op p. Some (''mkdir '' @ p @ '': permission denied''))\<rparr>"

definition captures_boss :: Boss where
  "captures_boss = (lt_boss demo_start)\<lparr>bs_cfg := demo_config\<lparr>cf_WorkDir := ''/srv/captures''\<rparr>\<rparr>"

theorem start_failure_code_witness:
  "bs_worlds captures_boss = [] \<and> rs_code (fst (boss_handleLease (demo_boss_env\<lparr>bv_start := denied_env\<rparr>) lease_post (captures_boss, {#}, ()))) = 503"
proof -
  let ?v = "demo_boss_env\<lparr>bv_start := denied_env\<rparr>" and ?i = "''w01020304''"
  let ?opts = "lease_opts (bs_cfg captures_boss) ?i (bs_nextCID captures_boss)"
  let ?err = "''mkdir '' @ so_WorkDir ?opts @ '': permission denied''"
  have ready: "EngineReady (bv_os ?v) captures_boss"
    by (simp add: EngineReady_def kvmOK_def artifactsOK_def captures_boss_def demo_config_def demo_boss_env_def)
  have b: "\<not> bs_stopping captures_boss" "int (length (bs_worlds captures_boss)) < cf_MaxWorlds (bs_cfg captures_boss)" "bs_worlds captures_boss = []"
    by (simp_all add: captures_boss_def lot_init_def NewBossConfig_def demo_config_def)
  have rnd: "bv_rnd ?v = Inr [CHR 0x01, CHR 0x02, CHR 0x03, CHR 0x04]" by (simp add: demo_boss_env_def)
  have st: "World_Start (bv_lib ?v) (bv_start ?v) ?opts {#} = (Inl ?err, {#})"
    by (simp add: World_Start_def denied_env_def Let_def demo_boss_env_def)
  have "so_WorkDir ?opts = ''/srv/captures/w01020304''"
    by (simp add: lease_opts_def captures_boss_def demo_config_def) code_simp
  then have "contains (''start world: '' @ ?err) ''cap''"
    by (simp only:) code_simp
  then show ?thesis
    using start_failure_code [OF ready b(1,2) rnd demo_id [symmetric, THEN arg_cong [where f = "(#) (CHR ''w'')"]] st, of lease_post "()"] b
    by simp
qed

section \<open>The pause state machine\<close>

lemma time_sub_le: "0 < d \<Longrightarrow> d < 2 ^ 63 \<Longrightarrow> time_sub a b < d \<longleftrightarrow> a - b < d"
  by (auto simp: time_sub_def)

text \<open>A slot as its pausing leaves it.\<close>

definition paused_slot :: "slot \<Rightarrow> slot" where
  "paused_slot s = s\<lparr>sl_paused := True, sl_info := (sl_info s)\<lparr>bw_State := ''paused''\<rparr>\<rparr>"

lemma running_again:
  "slot_ok (k, s) \<Longrightarrow> \<not> sl_paused s \<Longrightarrow>
     s\<lparr>sl_paused := False, sl_info := (sl_info s)\<lparr>bw_State := ''running''\<rparr>, sl_lastActive := t\<rparr> = s\<lparr>sl_lastActive := t\<rparr>"
  by (cases s, cases "sl_info s") (simp add: slot_ok_def)

text \<open>
  C26: The life of an idle slot. Before its limit has passed, and while the VMM refuses, a tick leaves
  a running slot as it is; once the limit has passed and the VMM accepts, it is paused, and further ticks
  do not touch it. The next activity resumes it when the VMM accepts, which gives back the running slot
  with only its time of activity moved; when the VMM refuses, the slot stays paused.
\<close>

theorem pause_cycle:
  assumes "slot_ok (k, s)" "\<not> sl_paused s" "sl_ttlPause s < 2 ^ 63"
  shows "considerPause fc now s e =
      (if now - sl_lastActive s < sl_ttlPause s then (s, e)
       else case World_Pause fc (sl_w s) e of (None, e') \<Rightarrow> (paused_slot s, e') | (Some err, e') \<Rightarrow> (s, e'))
    \<and> considerPause fc later (paused_slot s) e = (paused_slot s, e)
    \<and> onActivity fc later (paused_slot s) e = (case World_Resume fc (sl_w s) e of
        (None, e') \<Rightarrow> (s\<lparr>sl_lastActive := later\<rparr>, e') | (Some err, e') \<Rightarrow> (paused_slot s, e'))
    \<and> onActivity fc later s e = (s\<lparr>sl_lastActive := later\<rparr>, e)"
proof -
  have ttl: "0 < sl_ttlPause s" using assms(1) by (simp add: slot_ok_def)
  have "considerPause fc now s e = (if now - sl_lastActive s < sl_ttlPause s then (s, e)
       else case World_Pause fc (sl_w s) e of (None, e') \<Rightarrow> (paused_slot s, e') | (Some err, e') \<Rightarrow> (s, e'))"
    using assms ttl time_sub_le [OF ttl assms(3)]
    by (auto simp: considerPause_def paused_slot_def split: prod.split option.split)
  moreover have "considerPause fc later (paused_slot s) e = (paused_slot s, e)"
    by (simp add: considerPause_def paused_slot_def)
  moreover have "(paused_slot s)\<lparr>sl_paused := False, sl_info := (sl_info (paused_slot s))\<lparr>bw_State := ''running''\<rparr>, sl_lastActive := later\<rparr>
      = s\<lparr>sl_lastActive := later\<rparr>"
    using running_again [OF assms(1,2), of later] by (simp add: paused_slot_def)
  then have "onActivity fc later (paused_slot s) e = (case World_Resume fc (sl_w s) e of
        (None, e') \<Rightarrow> (s\<lparr>sl_lastActive := later\<rparr>, e') | (Some err, e') \<Rightarrow> (paused_slot s, e'))"
    by (simp add: onActivity_def Let_def) (simp add: paused_slot_def split: prod.split option.split)
  moreover have "onActivity fc later s e = (s\<lparr>sl_lastActive := later\<rparr>, e)"
    using running_again [OF assms(1,2), of later] assms(2) by (simp add: onActivity_def Let_def)
  ultimately show ?thesis by blast
qed

text \<open>A slot with a limit of 15 minutes whose VMM answers 204 to everything.\<close>

definition demo_slot :: slot where
  "demo_slot = \<lparr>sl_info = lease_info demo_body ''w01020304'' demo_world, sl_w = demo_world, sl_lastActive = 0, sl_ttlPause = 15 * minute,
     sl_paused = False\<rparr>"

definition fc_ok :: "unit transport" where
  "fc_ok = \<lparr>tp_do = (\<lambda>c e. (Inr \<lparr>hp_code = 204, hp_status = ''204 No Content'', hp_body = []\<rparr>, e)), tp_url = (\<lambda>u. None), tp_json = (\<lambda>b. [])\<rparr>"

lemma demo_slot_ok: "slot_ok (''w01020304'', demo_slot) \<and> \<not> sl_paused demo_slot \<and> sl_ttlPause demo_slot < 2 ^ 63"
  by (simp add: demo_slot_def slot_ok_def lease_info_def minute_def second_def)

lemma fc_ok_pause: "w_APISock w \<noteq> [] \<Longrightarrow> World_Pause fc_ok w e = (None, ())"
  by (simp add: World_Pause_def fcAPI_def send_def fc_ok_def)

theorem pause_cycle_witness:
  "considerPause fc_ok (16 * minute) demo_slot () = (paused_slot demo_slot, ())
   \<and> considerPause fc_ok (14 * minute) demo_slot () = (demo_slot, ())"
proof -
  have sock: "w_APISock (sl_w demo_slot) \<noteq> []"
    by (simp add: demo_slot_def demo_world_def plain_world_def new_world_def path_join_plain_nonempty plain_elem_def)
  have t: "\<not> 16 * minute - sl_lastActive demo_slot < sl_ttlPause demo_slot" "14 * minute - sl_lastActive demo_slot < sl_ttlPause demo_slot"
    by (simp_all add: demo_slot_def minute_def second_def)
  note c = pause_cycle [of "''w01020304''" demo_slot fc_ok]
  from c [of "16 * minute" "()" 0] c [of "14 * minute" "()" 0] demo_slot_ok t show ?thesis
    by (simp add: fc_ok_pause [OF sock])
qed

end
