(* ===== verification/Forwarder.thy ===== *)
theory Forwarder
  imports BossOps
begin

text \<open>
  The event forwarder of a world over time: a tick every 200 ms reads what is new in the events file.
  Its reference is a single pass over the file as it is in the end.
\<close>

section \<open>The loop\<close>

text \<open>What a drain sends to the desk, line by line.\<close>

definition forward_line :: "(string \<Rightarrow> string option) \<Rightarrow> 'e transport \<Rightarrow> Config \<Rightarrow> string \<Rightarrow> string \<Rightarrow> 'e \<Rightarrow> 'e" where
  "forward_line fnum tp cfg worldID l e = (case line_event fnum l of None \<Rightarrow> e
     | Some (kind, payload, utc) \<Rightarrow> snd (commitDeskRaw tp cfg worldID kind payload utc e))"

lemma drainEventsFile_text:
  "drainEventsFile fnum tp cfg worldID (FileText txt) offset e =
     (snd (drain_lines offset txt), fold (forward_line fnum tp cfg worldID) (fst (drain_lines offset txt)) e)"
  by (simp add: drainEventsFile_def forward_line_def [abs_def] split: prod.split)

text \<open>\<open>forwardEvents\<close> until its context is cancelled: what each tick finds.\<close>

fun forwardEvents :: "(string \<Rightarrow> string option) \<Rightarrow> 'e transport \<Rightarrow> Config \<Rightarrow> string \<Rightarrow> events_read list \<Rightarrow> nat \<Rightarrow> 'e \<Rightarrow> nat \<times> 'e" where
  "forwardEvents fnum tp cfg worldID [] offset e = (offset, e)"
| "forwardEvents fnum tp cfg worldID (r # rs) offset e =
     (let (offset', e') = drainEventsFile fnum tp cfg worldID r offset e in forwardEvents fnum tp cfg worldID rs offset' e')"

section \<open>Cutting at a line's end\<close>

definition closed :: "string \<Rightarrow> bool" where
  "closed d \<longleftrightarrow> d = [] \<or> last d = nl"

lemma complete_part_split:
  obtains p where "d = complete_part d @ p" "nl \<notin> set p"
proof
  let ?p = "rev (takeWhile (\<lambda>c. c \<noteq> nl) (rev d))"
  show "d = complete_part d @ ?p"
    unfolding complete_part_def by (simp flip: rev_append)
  show "nl \<notin> set ?p" by (auto dest: set_takeWhileD)
qed

lemma complete_part_closed: "closed (complete_part d)"
proof (cases "complete_part d = []")
  case False
  then have "dropWhile (\<lambda>c. c \<noteq> nl) (rev d) \<noteq> []" by (simp add: complete_part_def)
  from hd_dropWhile [OF this] show ?thesis by (simp add: closed_def complete_part_def last_rev)
qed (simp add: closed_def)

lemma complete_part_none: "nl \<notin> set p \<Longrightarrow> complete_part p = []"
  by (auto simp: complete_part_def)

lemma complete_part_append: "closed c \<Longrightarrow> complete_part (c @ y) = c @ complete_part y"
proof (cases "nl \<in> set y")
  case True
  then show ?thesis by (auto simp: complete_part_def dropWhile_append1)
next
  case False
  assume "closed c"
  then show ?thesis
  proof (cases "c = []")
    case False
    then obtain c' where c: "c = c' @ [nl]" using \<open>closed c\<close> by (metis append_butlast_last_id closed_def)
    have "dropWhile (\<lambda>c. c \<noteq> nl) (rev y @ rev c) = rev c" using \<open>nl \<notin> set y\<close> c by (subst dropWhile_append2) auto
    then show ?thesis using \<open>nl \<notin> set y\<close> by (simp add: complete_part_def complete_part_none [unfolded complete_part_def])
  qed simp
qed

text \<open>The lines sent for two closed pieces in a row are those for the first and then those for the second.\<close>

definition send_lines :: "(string \<Rightarrow> 'e \<Rightarrow> 'e) \<Rightarrow> string \<Rightarrow> 'e \<Rightarrow> 'e" where
  "send_lines f d e = fold f (if d = [] then [] else split_on nl d) e"

lemma send_lines_append:
  assumes "closed c" "f [] = id"
  shows "send_lines f (c @ d) e = send_lines f d (send_lines f c e)"
proof (cases "c = [] \<or> d = []")
  case False
  then obtain c' where c: "c = c' @ [nl]" using assms(1) by (metis append_butlast_last_id closed_def)
  have "split_on nl (c @ d) = split_on nl c' @ split_on nl d" by (simp add: c split_on_append_sep)
  moreover have "split_on nl c = split_on nl c' @ [[]]" by (simp add: c split_on_append_sep)
  ultimately show ?thesis using False assms(2) c by (simp add: send_lines_def)
qed (auto simp: send_lines_def)

lemma forward_line_blank: "forward_line fnum tp cfg worldID [] = id"
  by (simp add: forward_line_def line_event_def trim_space_def fun_eq_iff)

lemma drain_send:
  "offset \<le> length f \<Longrightarrow> drainEventsFile fnum tp cfg worldID (FileText f) offset e =
     (offset + length (complete_part (drop offset f)), send_lines (forward_line fnum tp cfg worldID) (complete_part (drop offset f)) e)"
  by (simp add: drainEventsFile_text drain_lines_def send_lines_def Let_def)

section \<open>Equivalence with one pass\<close>

lemma complete_part_grow:
  assumes "offset \<le> length f" "prefix f g" "n = offset + length (complete_part (drop offset f))"
  shows "n \<le> length f" "complete_part (drop offset g) = complete_part (drop offset f) @ complete_part (drop n g)"
proof -
  let ?c = "complete_part (drop offset f)"
  obtain p where p: "drop offset f = ?c @ p" by (rule complete_part_split)
  have "length ?c \<le> length (drop offset f)" using p by (metis le_add1 length_append)
  then show "n \<le> length f" using assms(1,3) by simp
  obtain x where g: "g = f @ x" using assms(2) by (auto simp: prefix_def)
  have og: "drop offset g = ?c @ (p @ x)" using assms(1) p by (simp add: g)
  have "drop n g = drop (length ?c) (drop offset g)" by (simp add: assms(3) add.commute)
  then have "drop n g = p @ x" by (simp add: og)
  then show "complete_part (drop offset g) = ?c @ complete_part (drop n g)"
    using og complete_part_append [OF complete_part_closed] by simp
qed

lemma forward_grow:
  assumes "offset \<le> length f" "prefix f g"
    and "drainEventsFile fnum tp cfg worldID (FileText f) offset e = (n, e1)"
  shows "n \<le> length f \<and> drainEventsFile fnum tp cfg worldID (FileText g) n e1 = drainEventsFile fnum tp cfg worldID (FileText g) offset e"
proof -
  have n: "n = offset + length (complete_part (drop offset f))"
    and e1: "e1 = send_lines (forward_line fnum tp cfg worldID) (complete_part (drop offset f)) e"
    using assms(3) drain_send [OF assms(1), of fnum tp cfg worldID e] by auto
  note grow = complete_part_grow [OF assms(1,2) n]
  have "n \<le> length g" "offset \<le> length g" using grow(1) prefix_length_le [OF assms(2)] assms(1) by simp_all
  then show ?thesis
    using grow send_lines_append [OF complete_part_closed, where f = "forward_line fnum tp cfg worldID", OF forward_line_blank]
    by (simp add: drain_send e1 n)
qed

text \<open>
  What the ticks find when the file only grows: a failed open, a failed read of a file that has at
  least the size seen, or a text that continues the one seen last.
\<close>

fun growing :: "string \<Rightarrow> events_read list \<Rightarrow> bool" where
  "growing f [] = True"
| "growing f (NoFile # rs) = growing f rs"
| "growing f (BadRead n # rs) = (length f \<le> n \<and> growing f rs)"
| "growing f (FileText g # rs) = (prefix f g \<and> growing g rs)"

fun latest :: "string \<Rightarrow> events_read list \<Rightarrow> string" where
  "latest f [] = f"
| "latest f (FileText g # rs) = latest g rs"
| "latest f (r # rs) = latest f rs"

lemma forwardEvents_growing:
  "growing f rs \<Longrightarrow> drainEventsFile fnum tp cfg worldID (FileText f) 0 e0 = (n, e) \<Longrightarrow>
   forwardEvents fnum tp cfg worldID rs n e = drainEventsFile fnum tp cfg worldID (FileText (latest f rs)) 0 e0"
proof (induction f rs arbitrary: n e rule: growing.induct)
  case (3 f m rs)
  have "n \<le> length f" using forward_grow [OF _ _ 3(3), of f] by simp
  with 3 show ?case by (simp add: drainEventsFile_def)
next
  case (4 f g rs)
  have "drainEventsFile fnum tp cfg worldID (FileText g) n e = drainEventsFile fnum tp cfg worldID (FileText g) 0 e0"
    using forward_grow [OF _ _ 4(3), of g] 4(2) by simp
  with 4 show ?case by (simp split: prod.split)
qed (simp_all add: drainEventsFile_def)

lemma drain_empty: "drainEventsFile fnum tp cfg worldID (FileText []) 0 e = (0, e)"
  by (simp add: drain_send complete_part_def send_lines_def)

text \<open>
  C18: The forwarder of a world, however its ticks fall and whichever of them fail to open or read the
  file, sends the desk exactly what one pass over the file as last read would send, in the same order:
  as long as the file only grows, no complete line is lost, sent twice, or sent in pieces.
\<close>

theorem forwarder_equals_one_pass:
  assumes "growing [] rs"
  shows "forwardEvents fnum tp cfg worldID rs 0 e = drainEventsFile fnum tp cfg worldID (FileText (latest [] rs)) 0 e"
  using forwardEvents_growing [OF assms drain_empty] .

text \<open>A desk that keeps the bodies it is sent, and a node that reports to it.\<close>

definition log_desk :: "string list transport" where
  "log_desk = \<lparr>tp_do = (\<lambda>c e. (Inr \<lparr>hp_code = 200, hp_status = ''200 OK'', hp_body = []\<rparr>, e @ [hc_body c])), tp_url = (\<lambda>u. None), tp_json = (\<lambda>b. [])\<rparr>"

definition desk_config :: Config where
  "desk_config = default_config (\<lambda>_. []) \<lparr>cf_MaxWorlds = 3, cf_WarmPool = 0, cf_RequireKVM = True, cf_KVMPath = [], cf_WorkDir = ''/work'',
     cf_Kernel = ''/k'', cf_Rootfs = ''/r'', cf_Firecracker = [], cf_Jailer = [], cf_WaitKVM = [], cf_DeskURL = ''http://desk:8090'',
     cf_RequireJailer = True\<rparr>"

theorem forwarder_equals_one_pass_witness:
  "forwardEvents Some log_desk desk_config ''w1'' [FileText ''ab'', NoFile, BadRead 3, FileText (''abc'' @ nl # ''d'')] 0 []
     = drainEventsFile Some log_desk desk_config ''w1'' (FileText (''abc'' @ nl # ''d'')) 0 []"
  using forwarder_equals_one_pass [of "[FileText ''ab'', NoFile, BadRead 3, FileText (''abc'' @ nl # ''d'')]" Some log_desk desk_config "''w1''" "[]"]
  by (simp del: forwardEvents.simps)

end
