(* ===== verification/WorldTheorems.thy ===== *)
theory WorldTheorems
  imports WorldHost WorldExec
begin

text \<open>
  The properties of the host side of a world: starting is all or nothing, the jailed VMM never runs as
  root, and the guest's event stream is recorded.
\<close>

section \<open>Starting\<close>

lemma health_polls_ok: "health_polls l ps = None \<Longrightarrow> Inr 200 \<in> set ps"
  by (induction l ps rule: health_polls.induct) (auto split: if_splits)

lemma startVMM_pid: "startVMM lib en o' c j = Inr (pid, args, eng) \<Longrightarrow> eng = (if se_euid en = 0 then ''jailer'' else ''firecracker'')"
  by (auto simp: startVMM_def Let_def split: option.splits sum.splits if_splits)

lemma launch_ok:
  assumes "launch lib en o' c j w h = (Inr w', h')"
  shows "w_cmd w' \<noteq> None \<and> Inr 200 \<in> set (se_health en) \<and> w_Engine w' = (if se_euid en = 0 then ''jailer'' else ''firecracker'')
    \<and> (se_euid en = 0 \<longrightarrow> w_kvmOverlay w' = path_join [j, ''dev'', ''kvm'']) \<and> w_GuestCID w' = w_GuestCID w \<and> w_JailRoot w' = w_JailRoot w
    \<and> w_ID w' = w_ID w"
  using assms
  by (auto simp: launch_def Let_def waitHealth_def dest!: startVMM_pid health_polls_ok split: sum.splits prod.splits option.splits if_splits)

lemma first_error_None: "first_error es = None \<longleftrightarrow> (\<forall>e\<in>set es. e = None)"
  by (induction es rule: first_error.induct) auto

lemma World_Start_ok:
  assumes "World_Start lib en opts h = (Inr w, h')"
  shows "w_ID w = so_ID opts \<and> w_GuestCID w = effective_cid (so_GuestCID opts) \<and> 3 \<le> w_GuestCID w \<and> w_cmd w \<noteq> None
    \<and> Inr 200 \<in> set (se_health en) \<and> w_Engine w = (if se_euid en = 0 then ''jailer'' else ''firecracker'')
    \<and> (se_euid en = 0 \<longrightarrow> w_kvmOverlay w = path_join [w_JailRoot w, ''dev'', ''kvm''])"
proof -
  from assms obtain o' folder where f: "start_folder en opts = Inr (o', folder)"
    and p: "prepare_jail en o' (path_join [path_join [so_WorkDir opts, ''jails''], folder, so_ID o', ''root'']) = None"
    and l: "launch lib en o' (path_join [so_WorkDir opts, ''jails'']) (path_join [path_join [so_WorkDir opts, ''jails''], folder, so_ID o', ''root''])
      (new_world o' (path_join [so_WorkDir opts, ''events.jsonl'']) (path_join [path_join [so_WorkDir opts, ''jails''], folder, so_ID o', ''root'']))
      (h + {#Listener (event_sock (path_join [path_join [so_WorkDir opts, ''jails''], folder, so_ID o', ''root'']))#}) = (Inr w, h')"
    by (auto simp: World_Start_def Let_def split: option.splits sum.splits)
  have o': "so_ID o' = so_ID opts" "so_GuestCID o' = so_GuestCID opts"
    using f by (auto simp: start_folder_def split: if_splits sum.splits)
  have "\<not> effective_cid (so_GuestCID o') < 3" using p by (auto simp: prepare_jail_def first_error_None split: if_splits)
  then show ?thesis using launch_ok [OF l] o' by (simp add: not_less)
qed

text \<open>
  C7: Starting a world is all or nothing on the host: when \<open>Start\<close> fails, at whichever call, the
  listener, the process and the mount it may have made are gone again; when it succeeds, the guest has
  answered a health request with 200, the CID is at least 3, a privileged start went through the jailer
  with the KVM overlay mounted in its jail, and \<open>Stop\<close> takes away exactly what the start added.
\<close>

theorem start_all_or_nothing:
  "case World_Start lib en opts h of
     (Inl err, h') \<Rightarrow> h' = h
   | (Inr w, h') \<Rightarrow> h' = h + footprint w \<and> World_Stop w h' = h \<and> w_ID w = so_ID opts \<and> 3 \<le> w_GuestCID w \<and> Inr 200 \<in> set (se_health en)
       \<and> Process (CmdPid w) \<in># h' \<and> w_Engine w = (if se_euid en = 0 then ''jailer'' else ''firecracker'')
       \<and> (if se_euid en = 0 then Mount (path_join [w_JailRoot w, ''dev'', ''kvm'']) \<in># h' else True)"
proof (cases "World_Start lib en opts h")
  case (Pair r h')
  show ?thesis
  proof (cases r)
    case (Inl err)
    with Pair World_Start_host(1) show ?thesis by simp
  next
    case (Inr w)
    have h': "h' = h + footprint w" using World_Start_host(2) Pair Inr by simp
    note ok = World_Start_ok [of lib en opts h w h']
    have "Process (CmdPid w) \<in># h'" using ok Pair Inr by (auto simp: h' footprint_def CmdPid_def)
    moreover have "se_euid en = 0 \<longrightarrow> Mount (path_join [w_JailRoot w, ''dev'', ''kvm'']) \<in># h'"
      using ok Pair Inr path_join_kvm [of "w_JailRoot w"] by (simp add: h' footprint_def)
    ultimately show ?thesis using ok Pair Inr World_Stop_footprint [of w h] by (auto simp: h')
  qed
qed

text \<open>
  C27: The VMM never runs as root: whenever a privileged start gets as far as running the jailer, the
  user it drops to is not 0. It is the caller's own user if that is not root, else the one named by
  \<open>SUDO_UID\<close>, else the one named by \<open>PKEXEC_UID\<close>.
\<close>

theorem jailed_never_root:
  assumes "se_euid en = 0" "startVMM lib en opts chrootBase jailRoot = Inr (pid, args, eng)"
  shows "\<exists>waitKVM uid gid. eng = ''jailer'' \<and> args = jailer_args opts waitKVM chrootBase uid gid \<and> uid \<noteq> 0
    \<and> (if se_uid en \<noteq> 0 then uid = se_uid en
       else if se_getenv en ''SUDO_UID'' \<noteq> [] then atoi (se_getenv en ''SUDO_UID'') = Some uid
       else atoi (se_getenv en ''PKEXEC_UID'') = Some uid)"
proof -
  from assms obtain waitKVM uid gid where d: "dropIDs lib (se_uid en) (se_gid en) (se_getenv en) = Inr (uid, gid)"
    and "eng = ''jailer''" "args = jailer_args opts waitKVM chrootBase uid gid"
    by (auto simp: startVMM_def Let_def split: option.splits sum.splits)
  moreover have "uid \<noteq> 0 \<and> (if se_uid en \<noteq> 0 then uid = se_uid en
       else if se_getenv en ''SUDO_UID'' \<noteq> [] then atoi (se_getenv en ''SUDO_UID'') = Some uid
       else atoi (se_getenv en ''PKEXEC_UID'') = Some uid)"
    using d by (auto simp: dropIDs_def drop_uid_def split: sum.splits option.splits if_splits)
  ultimately show ?thesis by blast
qed

text \<open>A privileged start through \<open>sudo\<close> by user 1000.\<close>

definition sudo_env :: start_env where
  "sudo_env = \<lparr>se_euid = 0, se_uid = 0, se_gid = 0, se_getenv = (\<lambda>k. if k = ''SUDO_UID'' then ''1000'' else []), se_evalsym = (\<lambda>_. None),
     se_err = (\<lambda>_ _. None), se_walk = (\<lambda>_. []), se_pid = 42, se_kvm = [None], se_health = [Inr 200]\<rparr>"

definition sudo_opts :: StartOpts where
  "sudo_opts = \<lparr>so_ID = ''demo'', so_WorkDir = ''/w'', so_Kernel = ''/k'', so_Rootfs = ''/r'', so_Firecracker = ''/fc'', so_Jailer = ''/j'',
     so_WaitKVM = ''/bin/fc-waitkvm'', so_GuestCID = 3, so_BareExec = False\<rparr>"

lemma atoi_1000: "atoi ''1000'' = Some 1000"
  by code_simp

lemma sudo_start: "startVMM (\<lambda>_. []) sudo_env sudo_opts ''/w/jails'' ''/w/jails/r'' =
    Inr (42, jailer_args sudo_opts ''/bin/fc-waitkvm'' ''/w/jails'' 1000 1000, ''jailer'')"
  by (simp add: startVMM_def sudo_env_def sudo_opts_def resolveWaitKVM_def dropIDs_def drop_uid_def drop_gid_def atoi_1000 copyFile_def
      chownTree_def prefix_err_def Let_def)

theorem jailed_never_root_witness:
  "startVMM (\<lambda>_. []) sudo_env sudo_opts ''/w/jails'' ''/w/jails/r'' = Inr (42, jailer_args sudo_opts ''/bin/fc-waitkvm'' ''/w/jails'' 1000 1000, ''jailer'')
   \<and> (\<exists>waitKVM uid gid. jailer_args sudo_opts ''/bin/fc-waitkvm'' ''/w/jails'' 1000 1000 = jailer_args sudo_opts waitKVM ''/w/jails'' uid gid \<and> uid \<noteq> 0)"
proof -
  have "se_euid sudo_env = 0" by (simp add: sudo_env_def)
  from jailed_never_root [OF this sudo_start] sudo_start show ?thesis by blast
qed

section \<open>The event stream\<close>

text \<open>The lines of a connection as they are to be recorded.\<close>

definition event_text :: "string \<Rightarrow> string" where
  "event_text conn = concat (map (\<lambda>l. if drop_cr l = [] then [] else drop_cr l @ [nl]) (split_on nl conn))"

definition record_text :: "string list \<Rightarrow> string" where
  "record_text ls = concat (map (\<lambda>l. if l = [] then [] else l @ [nl]) ls)"

lemma take_lines_all: "(\<forall>l\<in>set ls. length l < mx) \<Longrightarrow> record_text (fst (take_lines mx ls)) = record_text (map drop_cr ls)"
  by (induction mx ls rule: take_lines.induct) (auto simp: record_text_def Let_def drop_cr_def)

lemma take_lines_prefix: "prefix (record_text (fst (take_lines mx ls))) (record_text (map drop_cr ls))"
  by (induction mx ls rule: take_lines.induct) (auto simp: record_text_def Let_def drop_cr_def)

lemma record_text_Cons: "l \<noteq> [] \<Longrightarrow> record_text (l # ls) = (l @ [nl]) @ record_text ls" "record_text ([] # ls) = record_text ls"
  by (simp_all add: record_text_def)

text \<open>The bytes that are appended, for whatever file.\<close>

lemma append_events_prefix: "\<exists>x. append_events wr ls f = f @ x \<and> prefix x (record_text ls)"
proof (induction wr ls f rule: append_events.induct)
  case (2 wr l ls f)
  consider "l = []" | "l \<noteq> []" "wr = None" | part where "l \<noteq> []" "wr = Some (0, part)" | n part where "l \<noteq> []" "wr = Some (Suc n, part)"
    by (metis not0_implies_Suc option.exhaust prod.exhaust)
  then show ?case
  proof cases
    case 1
    with 2 show ?thesis by (simp add: record_text_Cons)
  next
    case fine: 2
    obtain x where "append_events None ls (f @ l @ [nl]) = (f @ l @ [nl]) @ x" "prefix x (record_text ls)"
      using "2.IH"(2) fine by blast
    with fine show ?thesis by (intro exI [of _ "(l @ [nl]) @ x"]) (simp add: record_text_Cons)
  next
    case (3 part)
    have "prefix (take part (l @ [nl])) (record_text (l # ls))"
      unfolding record_text_Cons(1) [OF 3(1)] by (rule prefix_prefix [OF take_is_prefix])
    with 3 show ?thesis by simp
  next
    case (4 n part)
    obtain x where "append_events (Some (n, part)) ls (f @ l @ [nl]) = (f @ l @ [nl]) @ x" "prefix x (record_text ls)"
      using "2.IH"(3) 4 by blast
    with 4 show ?thesis by (intro exI [of _ "(l @ [nl]) @ x"]) (simp add: record_text_Cons)
  qed
qed simp

lemma event_text_record: "event_text conn = record_text (map drop_cr (split_on nl conn))"
  by (simp add: event_text_def record_text_def comp_def)

lemma event_recorded:
  assumes "\<And>l. l \<in> set (split_on nl conn) \<Longrightarrow> length l < 1024 * 1024"
  shows "drainEvents None None conn f = f @ event_text conn"
proof -
  have "record_text (fst (scan_lines eventLine conn)) = event_text conn"
    using take_lines_all [of "split_on nl conn" eventLine] assms by (simp add: event_text_record scan_lines_def eventLine_def)
  then show ?thesis by (simp add: drainEvents_def append_events_all record_text_def)
qed

text \<open>
  C29: What a guest sends on an event connection reaches the host's file in order and unchanged, one
  line each: whatever fails, the file keeps what it had and gains a prefix of the stream's lines; when
  the file can be opened and written and no line reaches 1 MiB, it gains all of them.
\<close>

theorem event_stream_recorded:
  "prefix f (drainEvents op wr conn f) \<and> prefix (drainEvents op wr conn f) (f @ event_text conn)
   \<and> ((\<forall>l\<in>set (split_on nl conn). length l < 1024 * 1024) \<longrightarrow> drainEvents None None conn f = f @ event_text conn)"
proof -
  have p: "prefix (f @ record_text (fst (scan_lines eventLine conn))) (f @ event_text conn)"
    using take_lines_prefix by (simp add: event_text_record scan_lines_def)
  show ?thesis
  proof (intro conjI impI)
    obtain x where x: "append_events wr (fst (scan_lines eventLine conn)) f = f @ x" "prefix x (record_text (fst (scan_lines eventLine conn)))"
      using append_events_prefix by blast
    show "prefix f (drainEvents op wr conn f)" using x by (simp add: drainEvents_def split: option.split)
    show "prefix (drainEvents op wr conn f) (f @ event_text conn)"
      using prefix_order.trans [OF x(2)] p x(1) by (simp add: drainEvents_def split: option.split)
    assume "\<forall>l\<in>set (split_on nl conn). length l < 1024 * 1024"
    then show "drainEvents None None conn f = f @ event_text conn" by (intro event_recorded) blast
  qed
qed

theorem event_stream_recorded_witness:
  "drainEvents None None (''a'' @ nl # ''b'') ''x'' = ''x'' @ event_text (''a'' @ nl # ''b'')
   \<and> event_text (''a'' @ nl # ''b'') = ''a'' @ nl # ''b'' @ [nl]"
proof -
  have "split_on nl (''a'' @ nl # ''b'') = [''a'', ''b'']" by simp
  then have "\<forall>l\<in>set (split_on nl (''a'' @ nl # ''b'')). length l < 1024 * 1024" by (simp del: split_on.simps)
  with event_stream_recorded [of "''x''" None None "''a'' @ nl # ''b''"] show ?thesis by (simp add: event_text_def drop_cr_def)
qed

end
