(* ===== verification/WorldRuntime.thy ===== *)
theory WorldRuntime
  imports HttpModel JsonAny
begin

text \<open>
  \<open>runtime/cmd/world-runtime/main.go\<close>: the agent inside a guest. It serves commands over vsock and
  reports events to the host. The commands it runs are part of its state, so that one can say what is
  ever run; what a command does is given by the guest (\<open>gv_run\<close>), and so is what the inner ring writes
  to its audit file.
\<close>

section \<open>Constants\<close>

definition hostCID :: nat where "hostCID = 2"
definition guestEventPort :: nat where "guestEventPort = 5252"
definition listenPort :: nat where "listenPort = 8080"
definition innerRun :: string where "innerRun = ''/opt/backlot/inner/run.py''"
definition workspace :: string where "workspace = ''/workspace''"

section \<open>The emitter\<close>

text \<open>
  \<open>em_conn\<close> are the bytes written to the host so far, \<open>None\<close> without a connection; \<open>em_room\<close> is how many
  more bytes the connection takes before it breaks (\<open>None\<close> when it does not); \<open>em_count\<close> counts the
  events, each with its own reading of the clock.
\<close>

record emitter =
  em_conn :: "string option"
  em_room :: "nat option"
  em_count :: nat

text \<open>\<open>emitter.send\<close>: one line, the keys of the map in order.\<close>

definition emit_tree :: "string \<Rightarrow> string \<Rightarrow> jv \<Rightarrow> jv" where
  "emit_tree utc kind payload = JObj [(''kind'', jstr kind), (''payload'', payload), (''utc'', jstr utc)]"

definition emit_line :: "string \<Rightarrow> string \<Rightarrow> jv \<Rightarrow> string" where
  "emit_line utc kind payload = render (emit_tree utc kind payload) @ [nl]"

definition emitter_send :: "(nat \<Rightarrow> string) \<Rightarrow> string \<Rightarrow> jv \<Rightarrow> emitter \<Rightarrow> emitter" where
  "emitter_send clock kind payload em =
     (let b = emit_line (clock (em_count em)) kind payload; em1 = em\<lparr>em_count := Suc (em_count em)\<rparr> in
      case em_conn em of None \<Rightarrow> em1
      | Some sent \<Rightarrow> (case em_room em of None \<Rightarrow> em1\<lparr>em_conn := Some (sent @ b)\<rparr>
          | Some n \<Rightarrow> em1\<lparr>em_conn := Some (sent @ take n b), em_room := Some (n - length b)\<rparr>))"

text \<open>
  \<open>connectEmitter\<close>: the dials until the deadline, \<open>True\<close> for one that connects; the room of the
  connection then made.
\<close>

fun connectEmitter :: "(nat \<Rightarrow> string) \<Rightarrow> nat option \<Rightarrow> bool list \<Rightarrow> emitter" where
  "connectEmitter clock room [] = \<lparr>em_conn = None, em_room = None, em_count = 0\<rparr>"
| "connectEmitter clock room (False # ds) = connectEmitter clock room ds"
| "connectEmitter clock room (True # ds) =
     emitter_send clock ''runtime_up'' (JObj [(''role'', jstr ''guest'')]) \<lparr>em_conn = Some [], em_room = room, em_count = 0\<rparr>"

section \<open>Commands\<close>

record execReq =
  gq_Argv :: "string list"
  gq_Stdin :: string
  gq_Timeout :: int

definition guest_execReq_of :: "members \<Rightarrow> bool \<times> execReq" where
  "guest_execReq_of ms = (let a = field_strs ''argv'' [] ms; i = field_str ''stdin'' [] ms; t = field_int ''timeout'' 0 ms
     in (fst a \<and> fst i \<and> fst t, \<lparr>gq_Argv = snd a, gq_Stdin = snd i, gq_Timeout = snd t\<rparr>))"

text \<open>
  The timeout in nanoseconds: \<open>time.Duration(t) * time.Second\<close> wraps in 64 bits, and what is not
  positive becomes 30 seconds.
\<close>

definition exec_timeout :: "int \<Rightarrow> int" where
  "exec_timeout t = (let d = sint ((word_of_int t :: 64 word) * 1000000000) in if d \<le> 0 then 30 * 1000000000 else d)"

text \<open>\<open>http.Error\<close>: plain text.\<close>

definition http_error :: "nat \<Rightarrow> string \<Rightarrow> Response" where
  "http_error code msg = \<lparr>rs_code = code, rs_body = msg @ [nl]\<rparr>"

text \<open>\<open>parseExecReq\<close>; \<open>derr\<close> is the text of the decoder's error.\<close>

definition parseExecReq :: "(string \<Rightarrow> string) \<Rightarrow> Request \<Rightarrow> (Response, execReq \<times> int) result" where
  "parseExecReq derr r =
     (let m = body_members (request_json r); q = guest_execReq_of (snd m) in
      if \<not> (fst m \<and> fst q) then Inl (http_error 400 (derr (hr_body r)))
      else if gq_Argv (snd q) = [] then Inl (http_error 400 ''argv required'')
      else Inr (snd q, exec_timeout (gq_Timeout (snd q))))"

record command =
  cm_name :: string
  cm_args :: "string list"
  cm_dir :: string
  cm_stdin :: string
  cm_timeout :: int

text \<open>How \<open>cmd.Run\<close> ends: with an exit code, or with another error; the output in both cases.\<close>

datatype ran = Exited int string string | NotRun string string string

definition tenantExecArgs :: "string \<Rightarrow> string \<Rightarrow> string list \<Rightarrow> string \<times> string list" where
  "tenantExecArgs worldID audit argv =
     (''python3'', [innerRun, ''--workspace'', workspace, ''--audit'', audit, ''--sandbox-id'', worldID, ''--''] @ argv)"

text \<open>\<open>gv_audit\<close> is the text of an audit file after a command, if it can be opened.\<close>

record guest_env =
  gv_clock :: "nat \<Rightarrow> string"
  gv_derr :: "string \<Rightarrow> string"
  gv_fnum :: "string \<Rightarrow> string option"
  gv_run :: "command \<Rightarrow> ran"
  gv_audit :: "string \<Rightarrow> command \<Rightarrow> string option"

record guest =
  gs_emit :: emitter
  gs_ran :: "command list"

text \<open>The event on a line of the audit file: its kind and the whole object, encoded again.\<close>

definition audit_event :: "(string \<Rightarrow> string option) \<Rightarrow> string \<Rightarrow> (string \<times> jv) option" where
  "audit_event fnum l = (case parse_text l of
       Some (JObj ms) \<Rightarrow>
         (let kind = as_string (any_get (go_map ms) ''kind'') in
          if \<not> any_ok fnum (JObj ms) \<or> kind = [] then None else Some (kind, any_tree fnum (JObj ms)))
     | _ \<Rightarrow> None)"

definition auditLine :: nat where
  "auditLine = 1024 * 1024"

definition forwardAudit :: "guest_env \<Rightarrow> string option \<Rightarrow> emitter \<Rightarrow> emitter" where
  "forwardAudit v f em = (case f of None \<Rightarrow> em
     | Some txt \<Rightarrow> fold (\<lambda>l em. case audit_event (gv_fnum v) l of None \<Rightarrow> em
         | Some (kind, ev) \<Rightarrow> emitter_send (gv_clock v) kind ev em) (fst (scan_lines auditLine txt)) em)"

definition execResp_tree :: "int \<Rightarrow> string \<Rightarrow> string \<Rightarrow> jv" where
  "execResp_tree code out err = JObj [(''exit_code'', jint code), (''stdout'', jstr out), (''stderr'', jstr err)]"

definition respondExec :: "guest_env \<Rightarrow> string \<times> string list \<Rightarrow> execReq \<times> int \<Rightarrow> string \<Rightarrow> guest \<Rightarrow> Response \<times> guest" where
  "respondExec v cmd req audit g =
     (let c = \<lparr>cm_name = fst cmd, cm_args = snd cmd, cm_dir = workspace, cm_stdin = gq_Stdin (fst req), cm_timeout = snd req\<rparr>;
          (code, out, err) = (case gv_run v c of Exited n out err \<Rightarrow> (n, out, err)
            | NotRun m out err \<Rightarrow> (- 1, out, err @ nl # ''run: '' @ m @ [nl]));
          em = (if audit = [] then gs_emit g else forwardAudit v (gv_audit v audit c) (gs_emit g))
      in (writeJSON 200 (Some (execResp_tree code out err)), \<lparr>gs_emit = em, gs_ran = gs_ran g @ [c]\<rparr>))"

definition audit_path :: "string \<Rightarrow> string" where
  "audit_path worldID = path_join [''/run/backlot'', ''inner-'' @ worldID @ ''.jsonl'']"

definition guest_handleExec :: "guest_env \<Rightarrow> Request \<Rightarrow> string \<Rightarrow> guest \<Rightarrow> Response \<times> guest" where
  "guest_handleExec v r worldID g =
     (case parseExecReq (gv_derr v) r of Inl resp \<Rightarrow> (resp, g)
      | Inr req \<Rightarrow> respondExec v (tenantExecArgs worldID (audit_path worldID) (gq_Argv (fst req))) req (audit_path worldID) g)"

definition handleBareExec :: "guest_env \<Rightarrow> Request \<Rightarrow> guest \<Rightarrow> Response \<times> guest" where
  "handleBareExec v r g =
     (case parseExecReq (gv_derr v) r of Inl resp \<Rightarrow> (resp, g)
      | Inr req \<Rightarrow> respondExec v (hd (gq_Argv (fst req)), tl (gq_Argv (fst req))) req [] g)"

section \<open>Routing\<close>

definition notThisSlice :: Response where
  "notThisSlice = \<lparr>rs_code = 501, rs_body = render (JObj [(''error'', jstr ''not M2; 501'')])\<rparr>"

datatype guest_handler = GHealth | GExec | GBare | GNot

definition guest_routes :: "environ \<Rightarrow> (string \<times> seg list \<times> guest_handler) list" where
  "guest_routes env =
    [(''GET'', [Lit ''health''], GHealth),
     (''POST'', [Lit ''v1'', Lit ''worlds'', Wild, Lit ''exec''], GExec)]
    @ (if env ''BACKLOT_BARE_EXEC'' = ''1'' then [(''POST'', [Lit ''v1'', Lit ''internal'', Lit ''bare-exec''], GBare)] else [])
    @ [(''POST'', [Lit ''v1'', Lit ''worlds'', Wild, Lit ''heartbeat''], GNot),
       (''POST'', [Lit ''v1'', Lit ''worlds'', Wild, Lit ''files''], GNot),
       (''GET'', [Lit ''v1'', Lit ''worlds'', Wild, Lit ''files''], GNot),
       (''PUT'', [Lit ''v1'', Lit ''worlds'', Wild, Lit ''network''], GNot),
       (''DELETE'', [Lit ''v1'', Lit ''worlds'', Wild], GNot),
       (''GET'', [Lit ''v1'', Lit ''worlds'', Wild, Lit ''events''], GNot),
       (''POST'', [Lit ''v1'', Lit ''worlds''], GNot),
       (''GET'', [Lit ''v1'', Lit ''worlds'', Wild], GNot)]"

definition guest_serve :: "environ \<Rightarrow> guest_env \<Rightarrow> Request \<Rightarrow> guest \<Rightarrow> Response \<times> guest" where
  "guest_serve env v r g =
     (case dispatch (guest_routes env) r of
        Serve hnd vs \<Rightarrow>
          (let i = (case vs of x # _ \<Rightarrow> x | [] \<Rightarrow> []) in
           case hnd of GHealth \<Rightarrow> (\<lparr>rs_code = 200, rs_body = render (JObj [(''ok'', JTrue)])\<rparr>, g)
           | GExec \<Rightarrow> guest_handleExec v r i g
           | GBare \<Rightarrow> handleBareExec v r g
           | GNot \<Rightarrow> (notThisSlice, g))
      | x \<Rightarrow> (mux_error x, g))"

end
