(* ===== verification/Pipeline.thy ===== *)
theory Pipeline
  imports Forwarder WorldTheorems WorldRuntime JsonSize
begin

text \<open>
  The way of an event through the system: the agent in the guest emits a line, the host records it, the
  forwarder reads it back and reports it, and the desk decodes the report. Each hand-over is lossless.
\<close>

section \<open>Trimming\<close>

lemma runes_bad: "(r, False) \<in> set (runes s) \<Longrightarrow> \<forall>x\<in>set r. \<not> is_ascii x"
proof (induction s rule: runes.induct)
  case (2 c cs)
  obtain n v where nv: "rune_size (c # cs) = (n, v)" by (cases "rune_size (c # cs)")
  show ?case
  proof (cases "(r, False) = (c # take (n - 1) cs, v)")
    case True
    with nv have "rune_size (c # cs) = (n, False)" by simp
    moreover from this have "n = 1" by (rule rune_size_invalid)
    moreover have "\<not> is_ascii c" using calculation(1) by auto
    ultimately show ?thesis using True by simp
  next
    case False
    with "2.prems" nv have "(r, False) \<in> set (runes (drop (n - 1) cs))" by (auto simp: runes.simps(2) Let_def)
    with "2.IH" nv show ?thesis by simp
  qed
qed simp

lemma last_rune:
  assumes "s \<noteq> []" "is_ascii (last s)"
  shows "last (runes s) = ([last s], True)"
proof -
  obtain r v where rv: "last (runes s) = (r, v)" by (cases "last (runes s)")
  have "runes s \<noteq> []" using assms(1) by simp
  then have split: "runes s = butlast (runes s) @ [(r, v)]" using rv by (metis append_butlast_last_id)
  then have mem: "(r, v) \<in> set (runes s)" by (metis in_set_conv_decomp)
  have "r \<noteq> []"
  proof
    assume "r = []"
    then show False using mem by (induction s rule: runes.induct) (auto simp: runes.simps(2) Let_def)
  qed
  moreover have "s = concat (map fst (butlast (runes s))) @ r"
  proof -
    have "s = concat (map fst (butlast (runes s) @ [(r, v)]))" using concat_runes [of s] split by simp
    then show ?thesis by simp
  qed
  ultimately have l: "last r = last s" "r \<noteq> []" by (metis last_appendR)+
  show ?thesis
  proof (cases v)
    case True
    then have "rune_ok r" using mem runes_ok by simp
    then show ?thesis
    proof (cases rule: rune_ok_cases)
      case (ascii c)
      with l True rv show ?thesis by simp
    next
      case (multi c d ds)
      with l assms(2) show ?thesis by (metis last_in_set)
    qed
  next
    case False
    then show ?thesis using runes_bad mem l assms(2) by (metis last_in_set)
  qed
qed

lemma trim_space_id:
  assumes "is_ascii c" "\<not> space_rune [c]" "is_ascii (last (c # s))" "\<not> space_rune [last (c # s)]"
  shows "trim_space (c # s) = c # s"
proof -
  let ?sp = "\<lambda>(r, v). v \<and> space_rune r"
  have f: "dropWhile ?sp (runes (c # s)) = runes (c # s)" using assms(1,2) by simp
  have "rev (runes (c # s)) = ([last (c # s)], True) # tl (rev (runes (c # s)))"
    using last_rune [OF _ assms(3)] hd_rev [of "runes (c # s)"] by (metis hd_Cons_tl list.distinct(1) rev_is_Nil_conv runes_eq_Nil)
  then have "dropWhile ?sp (rev (runes (c # s))) = rev (runes (c # s))" using assms(4) by (metis (no_types, lifting) case_prod_conv dropWhile.simps(2))
  with f show ?thesis unfolding trim_space_def Let_def by (simp only: f rev_rev_ident concat_runes)
qed

lemma trim_space_object: "jwf (JObj ms) \<Longrightarrow> trim_space (render (JObj ms)) = render (JObj ms)"
proof -
  obtain m where r: "render (JObj ms) = CHR ''{'' # m @ ''}''" using render_JObj by blast
  show ?thesis unfolding r by (rule trim_space_id) (simp_all add: is_ascii_def space_rune_def)
qed

section \<open>From the guest to the forwarder\<close>

text \<open>
  Events the guest may emit: a non-empty kind and a time that are text, and a payload that is a JSON
  value of ordinary depth whose numbers are in range.
\<close>

definition emit_ok :: "(string \<Rightarrow> string option) \<Rightarrow> string \<times> string \<times> jv \<Rightarrow> bool" where
  "emit_ok fnum ev = (case ev of (utc, kind, payload) \<Rightarrow> kind \<noteq> [] \<and> valid_utf8 kind \<and> valid_utf8 utc \<and> jwf payload
     \<and> jdepth payload < maxNestingDepth \<and> any_ok fnum payload)"

definition event_body :: "string \<times> string \<times> jv \<Rightarrow> string" where
  "event_body ev = (case ev of (utc, kind, payload) \<Rightarrow> render (emit_tree utc kind payload))"

lemma emit_tree_wf: "jwf payload \<Longrightarrow> jwf (emit_tree utc kind payload)"
  by (simp add: emit_tree_def)

lemma emit_tree_depth: "jdepth payload < maxNestingDepth \<Longrightarrow> jdepth (emit_tree utc kind payload) \<le> maxNestingDepth"
  unfolding emit_tree_def by (rule jdepth_JObj_le) simp

lemma unquote_keys: "unquote ''kind'' = ''kind''" "unquote ''payload'' = ''payload''" "unquote ''utc'' = ''utc''"
  by (simp_all add: unquote_plain_key)

lemma line_event_emit:
  assumes "emit_ok fnum (utc, kind, payload)"
  shows "line_event fnum (render (emit_tree utc kind payload)) = Some (kind, any_render fnum payload, utc)"
proof -
  have wf: "jwf (emit_tree utc kind payload)" using assms by (simp add: emit_ok_def emit_tree_wf)
  have p: "parse_text (render (emit_tree utc kind payload)) = Some (emit_tree utc kind payload)"
    using assms by (simp add: emit_ok_def parse_text_render emit_tree_wf emit_tree_depth)
  have t: "trim_space (render (emit_tree utc kind payload)) = render (emit_tree utc kind payload)"
    using wf unfolding emit_tree_def by (rule trim_space_object)
  have ne: "render (emit_tree utc kind payload) \<noteq> []" using render_nonempty [OF wf] by simp
  have m: "unmarshal_map fnum (render (emit_tree utc kind payload)) =
      Some (go_map [(''kind'', jstr kind), (''payload'', payload), (''utc'', jstr utc)])"
    using assms p by (simp add: unmarshal_map_def emit_tree_def emit_ok_def jstr_def)
  have g: "any_get (go_map [(''kind'', jstr kind), (''payload'', payload), (''utc'', jstr utc)]) ''kind'' = jstr kind"
    "any_get (go_map [(''kind'', jstr kind), (''payload'', payload), (''utc'', jstr utc)]) ''payload'' = payload"
    "any_get (go_map [(''kind'', jstr kind), (''payload'', payload), (''utc'', jstr utc)]) ''utc'' = jstr utc"
    by (simp_all add: any_get_def go_map_def unquote_keys)
  have s: "as_string (jstr kind) = kind" "as_string (jstr utc) = utc"
    using assms by (simp_all add: as_string_def jstr_def unquote_quote emit_ok_def)
  show ?thesis using assms by (simp add: line_event_def t ne m g s Let_def emit_ok_def)
qed

lemma split_terminated: "\<forall>l\<in>set ls. nl \<notin> set l \<Longrightarrow> split_on nl (concat (map (\<lambda>l. l @ [nl]) ls)) = ls @ [[]]"
  by (induction ls) (simp_all add: split_on_append_sep split_on_no_sep)

lemma event_body_clean:
  assumes "emit_ok fnum ev"
  shows "nl \<notin> set (event_body ev)" "drop_cr (event_body ev) = event_body ev" "event_body ev \<noteq> []"
proof -
  obtain utc kind payload where ev: "ev = (utc, kind, payload)" by (cases ev)
  have wf: "jwf (emit_tree utc kind payload)" using assms ev by (simp add: emit_ok_def emit_tree_wf)
  show "nl \<notin> set (event_body ev)" "drop_cr (event_body ev) = event_body ev" "event_body ev \<noteq> []"
    using clean_bytes_nl [OF render_clean [OF wf]] clean_bytes_drop_cr [OF render_clean [OF wf]] render_nonempty [OF wf]
    by (simp_all add: ev event_body_def)
qed

text \<open>What the emitter has written for a list of events.\<close>

definition event_stream :: "(string \<times> string \<times> jv) list \<Rightarrow> string" where
  "event_stream evs = concat (map (\<lambda>ev. event_body ev @ [nl]) evs)"

lemma event_stream_lines:
  assumes "list_all (emit_ok fnum) evs"
  shows "split_on nl (event_stream evs) = map event_body evs @ [[]]"
proof -
  have "\<forall>l\<in>set (map event_body evs). nl \<notin> set l" using assms event_body_clean(1) by (fastforce simp: list_all_iff)
  from split_terminated [OF this] show ?thesis by (simp add: event_stream_def comp_def)
qed

lemma event_stream_text:
  assumes "list_all (emit_ok fnum) evs"
  shows "event_text (event_stream evs) = event_stream evs"
proof -
  have "(if drop_cr (event_body ev) = [] then [] else drop_cr (event_body ev) @ [nl]) = event_body ev @ [nl]" if "ev \<in> set evs" for ev
    using that assms event_body_clean [of fnum ev] by (simp add: list_all_iff)
  then have m: "map (\<lambda>ev. if drop_cr (event_body ev) = [] then [] else drop_cr (event_body ev) @ [nl]) evs = map (\<lambda>ev. event_body ev @ [nl]) evs"
    by (rule map_cong [OF refl])
  have "drop_cr [] = []" by (simp add: drop_cr_def)
  then have "event_text (event_stream evs) = concat (map (\<lambda>ev. if drop_cr (event_body ev) = [] then [] else drop_cr (event_body ev) @ [nl]) evs)"
    unfolding event_text_def event_stream_lines [OF assms] by (simp add: comp_def)
  then show ?thesis by (simp only: m event_stream_def)
qed

lemma event_stream_closed: "closed (event_stream evs)"
  by (induction evs) (auto simp: closed_def event_stream_def)

lemma complete_part_id: "closed c \<Longrightarrow> complete_part c = c"
  using complete_part_append [of c "[]"] by (simp add: complete_part_def)

lemma fold_forward:
  assumes "list_all (emit_ok fnum) evs"
  shows "fold (forward_line fnum tp cfg w) (map event_body evs) e =
    fold (\<lambda>(utc, kind, payload) e. snd (commitDeskRaw tp cfg w kind (any_render fnum payload) utc e)) evs e"
  using assms
proof (induction evs arbitrary: e)
  case (Cons ev evs)
  obtain utc kind payload where ev: "ev = (utc, kind, payload)" by (cases ev)
  have "forward_line fnum tp cfg w (event_body ev) e = snd (commitDeskRaw tp cfg w kind (any_render fnum payload) utc e)"
    using line_event_emit Cons.prems ev by (simp add: forward_line_def event_body_def)
  with Cons ev show ?case by simp
qed simp

lemma drain_stream:
  assumes "list_all (emit_ok fnum) evs"
  shows "drainEventsFile fnum tp cfg w (FileText (event_stream evs)) 0 e = (length (event_stream evs),
    fold (\<lambda>(utc, kind, payload) e. snd (commitDeskRaw tp cfg w kind (any_render fnum payload) utc e)) evs e)"
proof -
  have "send_lines (forward_line fnum tp cfg w) (event_stream evs) e = fold (forward_line fnum tp cfg w) (map event_body evs) e"
  proof (cases evs)
    case (Cons ev es)
    then have "event_stream evs \<noteq> []" by (simp add: event_stream_def)
    then show ?thesis by (simp add: send_lines_def event_stream_lines [OF assms] forward_line_blank)
  qed (simp add: send_lines_def event_stream_def)
  then show ?thesis
    by (simp add: drain_send complete_part_id [OF event_stream_closed] fold_forward [OF assms])
qed

text \<open>The events with the times the emitter stamps them with, and its stream on a connection that holds.\<close>

fun stamped :: "(nat \<Rightarrow> string) \<Rightarrow> nat \<Rightarrow> (string \<times> jv) list \<Rightarrow> (string \<times> string \<times> jv) list" where
  "stamped clock n [] = []"
| "stamped clock n ((kind, payload) # es) = (clock n, kind, payload) # stamped clock (Suc n) es"

definition emit_all :: "(nat \<Rightarrow> string) \<Rightarrow> (string \<times> jv) list \<Rightarrow> emitter \<Rightarrow> emitter" where
  "emit_all clock es = fold (\<lambda>(kind, payload). emitter_send clock kind payload) es"

lemma emit_all_stream:
  "em_conn (emit_all clock es \<lparr>em_conn = Some s, em_room = None, em_count = n\<rparr>) = Some (s @ event_stream (stamped clock n es))"
proof (induction es arbitrary: s n)
  case (Cons x es)
  obtain kind payload where x: "x = (kind, payload)" by (cases x)
  show ?case using Cons.IH [of "s @ emit_line (clock n) kind payload" "Suc n"]
    by (simp add: emit_all_def x emitter_send_def Let_def event_stream_def event_body_def emit_line_def)
qed (simp add: emit_all_def event_stream_def)

text \<open>
  C8: Events emitted in the guest reach the desk: when the agent's connection holds, the host records its
  stream, and the forwarder goes over the file, however its ticks fall while the file grows, the reports
  sent are exactly the events emitted, in order, each with its kind, its time and its payload encoded
  again.
\<close>

theorem guest_events_reported:
  assumes "list_all (emit_ok fnum) (stamped clock n es)" "list_all (\<lambda>ev. length (event_body ev) < 1024 * 1024) (stamped clock n es)"
    and "em_conn (emit_all clock es \<lparr>em_conn = Some [], em_room = None, em_count = n\<rparr>) = Some conn"
    and "growing [] rs" "latest [] rs = drainEvents None None conn []"
  shows "snd (forwardEvents fnum tp cfg w rs 0 e) =
    fold (\<lambda>(utc, kind, payload) e. snd (commitDeskRaw tp cfg w kind (any_render fnum payload) utc e)) (stamped clock n es) e"
proof -
  let ?evs = "stamped clock n es"
  have conn: "conn = event_stream ?evs" using assms(3) emit_all_stream [of clock es "[]" n] by simp
  have "length l < 1024 * 1024" if "l \<in> set (split_on nl conn)" for l
    using that assms(2) unfolding conn event_stream_lines [OF assms(1)] by (auto simp: list_all_iff)
  then have "drainEvents None None conn [] = conn"
    using event_recorded [of conn "[]"] by (simp add: conn event_stream_text [OF assms(1)])
  then show ?thesis
    using forwardEvents_growing [OF assms(4) drain_empty, of fnum tp cfg w e] assms(5) drain_stream [OF assms(1), of tp cfg w e]
    by (simp add: conn)
qed

text \<open>One event, read by a single tick.\<close>

theorem guest_events_reported_witness:
  "\<exists>conn. em_conn (emit_all (\<lambda>n. ''now'') [(''start'', JNull)] \<lparr>em_conn = Some [], em_room = None, em_count = 0\<rparr>) = Some conn
     \<and> snd (forwardEvents Some log_desk desk_config ''w1'' [NoFile, FileText (drainEvents None None conn [])] 0 []) =
       snd (commitDeskRaw log_desk desk_config ''w1'' ''start'' ''null'' ''now'' [])"
proof -
  let ?es = "[(''start'', JNull)]"
  obtain conn where c: "em_conn (emit_all (\<lambda>n. ''now'') ?es \<lparr>em_conn = Some [], em_room = None, em_count = 0\<rparr>) = Some conn"
    using emit_all_stream by blast
  have ok: "list_all (emit_ok Some) (stamped (\<lambda>n. ''now'') 0 ?es)"
    by (simp add: emit_ok_def ascii_valid_utf8 ascii_string_def is_ascii_def)
  have "length (event_body (''now'', ''start'', JNull)) < 1024 * 1024"
    using length_render_JObj [of "[(''kind'', jstr ''start''), (''payload'', JNull), (''utc'', jstr ''now'')]"]
      length_render_jstr [of "''start''"] length_render_jstr [of "''now''"]
    by (simp add: event_body_def emit_tree_def del: render_JObj)
  then have len: "list_all (\<lambda>ev. length (event_body ev) < 1024 * 1024) (stamped (\<lambda>n. ''now'') 0 ?es)" by simp
  have "any_render Some JNull = ''null''" by (simp add: any_render_def)
  then show ?thesis
    using guest_events_reported [OF ok len c, of "[NoFile, FileText (drainEvents None None conn [])]" log_desk desk_config "''w1''" "[]"] c
    by (intro exI [of _ conn]) (simp del: forwardEvents.simps)
qed

end
