(* ===== verification/Composition.thy ===== *)
theory Composition
  imports Pipeline DeskTheorems BossTheorems RouterTheorems
begin

text \<open>
  The services together: a report of lot-boss served by the desk is a commit of the event reported, and
  the router's engine client and lot-boss's handlers understand each other.
\<close>

section \<open>The desk as a transport\<close>

text \<open>A request as it arrives at a server, its path already cut.\<close>

definition arrives :: "http_call \<Rightarrow> string list \<Rightarrow> Request" where
  "arrives c path = \<lparr>hr_method = hc_method c, hr_path = path, hr_query = (\<lambda>k. []), hr_header = (\<lambda>k. []), hr_body = hc_body c, hr_broken = False\<rparr>"

definition answers :: "Response \<Rightarrow> http_reply" where
  "answers p = \<lparr>hp_code = rs_code p, hp_status = [], hp_body = rs_body p\<rparr>"

text \<open>The desk reached under \<open>base\<close>: its event path, and nothing else.\<close>

definition desk_at :: "string \<Rightarrow> (string \<Rightarrow> string) \<Rightarrow> (desk_error \<Rightarrow> string) \<Rightarrow> desk_env \<Rightarrow> (Store \<times> disk) transport" where
  "desk_at base sha lib env = \<lparr>tp_do = (\<lambda>c sd. if hc_url c = base @ ''/v1/events''
       then (let (p, sd') = desk_serve sha lib env (arrives c [''v1'', ''events'']) sd in (Inr (answers p), sd'))
       else (Inl ''no route'', sd)), tp_url = (\<lambda>u. None), tp_json = (\<lambda>b. [])\<rparr>"

section \<open>A report is a commit\<close>

definition report_members :: "string \<Rightarrow> string \<Rightarrow> jv \<Rightarrow> string \<Rightarrow> members" where
  "report_members w kind v utc = [(''kind'', jstr kind), (''payload'', v)] @ (if utc = [] then [] else [(''utc'', jstr utc)])
     @ [(''world_id'', jstr w)]"

definition report_request :: "string \<Rightarrow> string \<Rightarrow> jv \<Rightarrow> string \<Rightarrow> IngestRequest" where
  "report_request w kind v utc = \<lparr>rq_WorldID = w, rq_SessionID = [], rq_PolicyHash = [], rq_Kind = kind, rq_Payload = Some (render v), rq_UTC = utc\<rparr>"

lemma desk_body_members: "raw_tree payload = Some v \<Longrightarrow> desk_body w kind payload utc = render (JObj (report_members w kind v utc))"
  by (simp add: desk_body_def report_members_def)

lemma report_keys: "\<forall>m\<in>set (report_members w kind v utc). plain_key (fst m)" "distinct (map fst (report_members w kind v utc))"
  by (simp_all add: report_members_def)

lemma report_lookup:
  "map_of (report_members w kind v utc) k = (if k = ''kind'' then Some (jstr kind) else if k = ''payload'' then Some v
     else if k = ''utc'' then (if utc = [] then None else Some (jstr utc)) else if k = ''world_id'' then Some (jstr w) else None)"
  by (simp add: report_members_def)

lemma ingest_of_report:
  assumes "valid_utf8 w" "valid_utf8 kind" "valid_utf8 utc"
  shows "ingest_of (report_members w kind v utc) = (True, report_request w kind v utc)"
proof -
  note f = field_with_map_of [OF report_keys]
  have "field_str ''world_id'' [] (report_members w kind v utc) = (True, w)"
    using assms by (intro f) (auto simp: report_lookup)
  moreover have "field_str ''kind'' [] (report_members w kind v utc) = (True, kind)"
    using assms by (intro f) (auto simp: report_lookup)
  moreover have "field_str ''utc'' [] (report_members w kind v utc) = (True, utc)"
    using assms by (intro f) (auto simp: report_lookup split: if_splits)
  moreover have "field_str ''session_id'' [] (report_members w kind v utc) = (True, [])"
    by (intro f) (auto simp: report_lookup)
  moreover have "field_str ''policy_hash'' [] (report_members w kind v utc) = (True, [])"
    by (intro f) (auto simp: report_lookup)
  moreover have "field_raw ''payload'' None (report_members w kind v utc) = (True, Some (render v))"
    by (intro f) (auto simp: report_lookup dec_raw_def)
  ultimately show ?thesis by (simp add: ingest_of_def report_request_def)
qed

lemma report_decoded:
  assumes "raw_tree payload = Some v" "jdepth v < maxNestingDepth" "valid_utf8 w" "valid_utf8 kind" "valid_utf8 utc"
  shows "decode_ingest (arrives \<lparr>hc_method = m, hc_url = u, hc_body = desk_body w kind payload utc\<rparr> p) = Some (report_request w kind v utc)"
proof -
  have "jwf v" using raw_tree_wf [OF assms(1)] by blast
  then have "jwf (JObj (report_members w kind v utc))" by (simp add: report_members_def)
  moreover have "jdepth (JObj (report_members w kind v utc)) \<le> maxNestingDepth"
    using assms(2) by (intro jdepth_JObj_le) (simp add: report_members_def)
  ultimately have "decode_body (desk_body w kind payload utc) = BodyVal (JObj (report_members w kind v utc))"
    using decode_rendered desk_body_members [OF assms(1)] by simp
  then show ?thesis
    using ingest_of_report [OF assms(3,4,5)]
    by (simp add: decode_ingest_def request_json_def arrives_def body_members_def as_members_def Let_def)
qed

text \<open>
  C9: A report of lot-boss is a commit at the desk: for every world, kind and time that are text and
  every payload that encodes, what \<open>commitDeskRaw\<close> does to a desk it reaches is exactly \<open>Commit\<close> of the
  event with that world, kind, time and payload.
\<close>

theorem report_is_commit:
  assumes "cf_DeskURL cfg \<noteq> []" "trim_right (CHR ''/'') (cf_DeskURL cfg) = base"
    and "raw_tree payload = Some v" "jdepth v < maxNestingDepth" "valid_utf8 w" "valid_utf8 kind" "valid_utf8 utc"
  shows "commitDeskRaw (desk_at base sha lib env) cfg w kind payload utc sd =
    (None, snd (Commit sha (de_now env) (de_global env) (de_world env)
       \<lparr>rq_WorldID = w, rq_SessionID = [], rq_PolicyHash = [], rq_Kind = kind, rq_Payload = Some (render v), rq_UTC = utc\<rparr> sd))"
proof -
  let ?c = "\<lparr>hc_method = ''POST'', hc_url = base @ ''/v1/events'', hc_body = desk_body w kind payload utc\<rparr>"
  have "dispatch desk_routes (arrives ?c [''v1'', ''events'']) = Serve HIngest []"
    by (simp add: dispatch_def desk_routes_def arrives_def match_method_def)
  moreover have "snd (handleIngest sha lib env (arrives ?c [''v1'', ''events'']) sd) =
      snd (Commit sha (de_now env) (de_global env) (de_world env) (report_request w kind v utc) sd)"
    using report_decoded [OF assms(3-7)] by (simp add: handleIngest_def split: prod.split sum.split)
  ultimately show ?thesis
    using assms(1,2)
    by (cases "handleIngest sha lib env (arrives ?c [''v1'', ''events'']) sd")
      (simp add: commitDeskRaw_def send_def desk_at_def desk_serve_def report_request_def)
qed

theorem report_is_commit_witness:
  "commitDeskRaw (desk_at ''http://desk:8090'' demo_sha (\<lambda>_. []) demo_env) desk_config ''w1'' ''exec'' ''null'' ''t'' (empty_store ''/data'', Map.empty)
     = (None, snd (Commit demo_sha [] AppendOK AppendOK \<lparr>rq_WorldID = ''w1'', rq_SessionID = [], rq_PolicyHash = [], rq_Kind = ''exec'',
          rq_Payload = Some ''null'', rq_UTC = ''t''\<rparr> (empty_store ''/data'', Map.empty)))"
proof -
  have url: "cf_DeskURL desk_config = ''http://desk:8090''" by (simp add: desk_config_def default_config_def)
  have "trim_right (CHR ''/'') (cf_DeskURL desk_config) = ''http://desk:8090''" unfolding url by (simp add: trim_right_def)
  then show ?thesis
    using report_is_commit [of desk_config "''http://desk:8090''" "''null''" JNull "''w1''" "''exec''" "''t''" demo_sha "\<lambda>_. []" demo_env
        "(empty_store ''/data'', Map.empty)"] url
    by (simp add: ascii_valid_utf8 ascii_string_def is_ascii_def demo_env_def)
qed

section \<open>The router and lot-boss\<close>

text \<open>lot-boss reached under \<open>base\<close>: the path of leases.\<close>

definition boss_at :: "string \<Rightarrow> 'e boss_env \<Rightarrow> 'e boss_state transport" where
  "boss_at base v = \<lparr>tp_do = (\<lambda>c st. if hc_url c = base @ ''/v1/worlds''
       then (let (p, st') = boss_serve v (arrives c [''v1'', ''worlds'']) st in (Inr (answers p), st'))
       else (Inl ''no route'', st)), tp_url = (\<lambda>u. None), tp_json = (\<lambda>b. [])\<rparr>"

text \<open>What the router keeps of lot-boss's world.\<close>

definition info_view :: "BossWorld \<Rightarrow> WorldInfo" where
  "info_view w = \<lparr>wi_ID = bw_ID w, wi_Profile = bw_Profile w, wi_State = bw_State w, wi_TTLPause = bw_TTLPause w, wi_TTLStore = bw_TTLStore w,
     wi_TTLPrune = bw_TTLPrune w, wi_Network = bw_Network w, wi_Engine = bw_Engine w, wi_SessionID = []\<rparr>"

definition boss_body :: "LeaseRequest \<Rightarrow> leaseBody" where
  "boss_body lr = \<lparr>lb_Profile = lr_Profile lr, lb_TTLPause = lr_TTLPause lr, lb_TTLStore = lr_TTLStore lr, lb_TTLPrune = lr_TTLPrune lr\<rparr>"

definition utf8_lease :: "LeaseRequest \<Rightarrow> bool" where
  "utf8_lease lr \<longleftrightarrow> valid_utf8 (lr_Profile lr) \<and> valid_utf8 (lr_TTLPause lr) \<and> valid_utf8 (lr_TTLStore lr) \<and> valid_utf8 (lr_TTLPrune lr)
     \<and> valid_utf8 (lr_SessionID lr)"

definition lease_members :: "LeaseRequest \<Rightarrow> members" where
  "lease_members lr = [(''profile'', jstr (lr_Profile lr))] @ omit_str ''ttl_pause'' (lr_TTLPause lr)
     @ omit_str ''ttl_store'' (lr_TTLStore lr) @ omit_str ''ttl_prune'' (lr_TTLPrune lr) @ omit_str ''session_id'' (lr_SessionID lr)"

lemma lease_keys: "\<forall>m\<in>set (lease_members lr). plain_key (fst m)" "distinct (map fst (lease_members lr))"
  by (simp_all add: lease_members_def omit_str_def)

lemma lease_lookup:
  "map_of (lease_members lr) k = (if k = ''profile'' then Some (jstr (lr_Profile lr))
     else if k = ''ttl_pause'' \<and> lr_TTLPause lr \<noteq> [] then Some (jstr (lr_TTLPause lr))
     else if k = ''ttl_store'' \<and> lr_TTLStore lr \<noteq> [] then Some (jstr (lr_TTLStore lr))
     else if k = ''ttl_prune'' \<and> lr_TTLPrune lr \<noteq> [] then Some (jstr (lr_TTLPrune lr))
     else if k = ''session_id'' \<and> lr_SessionID lr \<noteq> [] then Some (jstr (lr_SessionID lr)) else None)"
  by (simp add: lease_members_def omit_str_def)

lemma lease_understood:
  assumes "utf8_lease lr"
  shows "leaseBody_of (lease_members lr) = boss_body lr"
proof -
  note f = field_with_map_of [OF lease_keys]
  have "field_str ''profile'' [] (lease_members lr) = (True, lr_Profile lr)"
    using assms by (intro f) (auto simp: lease_lookup utf8_lease_def)
  moreover have "field_str ''ttl_pause'' [] (lease_members lr) = (True, lr_TTLPause lr)"
    using assms by (intro f) (auto simp: lease_lookup utf8_lease_def split: if_splits)
  moreover have "field_str ''ttl_store'' [] (lease_members lr) = (True, lr_TTLStore lr)"
    using assms by (intro f) (auto simp: lease_lookup utf8_lease_def split: if_splits)
  moreover have "field_str ''ttl_prune'' [] (lease_members lr) = (True, lr_TTLPrune lr)"
    using assms by (intro f) (auto simp: lease_lookup utf8_lease_def split: if_splits)
  ultimately show ?thesis by (simp add: leaseBody_of_def boss_body_def)
qed

lemma lease_arrives:
  assumes "utf8_lease lr"
  shows "leaseBody_of (snd (body_members (request_json (arrives \<lparr>hc_method = m, hc_url = u, hc_body = render (lease_tree lr)\<rparr> p)))) = boss_body lr"
proof -
  have t: "lease_tree lr = JObj (lease_members lr)" by (simp add: lease_tree_def lease_members_def)
  have "jwf (JObj (lease_members lr))" by (simp add: lease_members_def)
  moreover have "jdepth (JObj (lease_members lr)) \<le> maxNestingDepth" by (rule jdepth_JObj_le) (simp add: lease_members_def)
  ultimately have "decode_body (render (JObj (lease_members lr))) = BodyVal (JObj (lease_members lr))" by (rule decode_rendered)
  then show ?thesis using lease_understood [OF assms]
    by (simp add: request_json_def arrives_def t body_members_def as_members_def del: render_JObj)
qed

definition boss_members :: "BossWorld \<Rightarrow> members" where
  "boss_members w = [(''id'', jstr (bw_ID w)), (''profile'', jstr (bw_Profile w)), (''state'', jstr (bw_State w)),
      (''ttl_pause'', jstr (bw_TTLPause w)), (''ttl_store'', jstr (bw_TTLStore w)), (''ttl_prune'', jstr (bw_TTLPrune w)),
      (''network'', jstr (bw_Network w))]
     @ omit_str ''engine'' (bw_Engine w)
     @ (if bw_GuestCID w = 0 then [] else [(''guest_cid'', jnat (unat (bw_GuestCID w)))])
     @ omit_str ''vsock_uds'' (bw_UDS w) @ omit_str ''jail_root'' (bw_JailRoot w)"

lemma boss_keys: "\<forall>m\<in>set (boss_members w). plain_key (fst m)" "distinct (map fst (boss_members w))"
  by (simp_all add: boss_members_def omit_str_def)

lemma boss_lookup:
  "map_of (boss_members w) ''id'' = Some (jstr (bw_ID w))" "map_of (boss_members w) ''profile'' = Some (jstr (bw_Profile w))"
  "map_of (boss_members w) ''state'' = Some (jstr (bw_State w))" "map_of (boss_members w) ''ttl_pause'' = Some (jstr (bw_TTLPause w))"
  "map_of (boss_members w) ''ttl_store'' = Some (jstr (bw_TTLStore w))" "map_of (boss_members w) ''ttl_prune'' = Some (jstr (bw_TTLPrune w))"
  "map_of (boss_members w) ''network'' = Some (jstr (bw_Network w))"
  "map_of (boss_members w) ''engine'' = (if bw_Engine w = [] then None else Some (jstr (bw_Engine w)))"
  "map_of (boss_members w) ''session_id'' = None"
  by (simp_all add: boss_members_def omit_str_def)

lemma info_understood:
  assumes "utf8_info (info_view w)"
  shows "info_of (boss_members w) = (True, info_view w)"
proof -
  note f = field_with_map_of [OF boss_keys]
  have u: "valid_utf8 (bw_ID w)" "valid_utf8 (bw_Profile w)" "valid_utf8 (bw_State w)" "valid_utf8 (bw_TTLPause w)" "valid_utf8 (bw_TTLStore w)"
    "valid_utf8 (bw_TTLPrune w)" "valid_utf8 (bw_Network w)" "valid_utf8 (bw_Engine w)"
    using assms by (simp_all add: utf8_info_def info_view_def)
  have "field_str ''id'' [] (boss_members w) = (True, bw_ID w)" using u by (intro f) (auto simp: boss_lookup)
  moreover have "field_str ''profile'' [] (boss_members w) = (True, bw_Profile w)" using u by (intro f) (auto simp: boss_lookup)
  moreover have "field_str ''state'' [] (boss_members w) = (True, bw_State w)" using u by (intro f) (auto simp: boss_lookup)
  moreover have "field_str ''ttl_pause'' [] (boss_members w) = (True, bw_TTLPause w)" using u by (intro f) (auto simp: boss_lookup)
  moreover have "field_str ''ttl_store'' [] (boss_members w) = (True, bw_TTLStore w)" using u by (intro f) (auto simp: boss_lookup)
  moreover have "field_str ''ttl_prune'' [] (boss_members w) = (True, bw_TTLPrune w)" using u by (intro f) (auto simp: boss_lookup)
  moreover have "field_str ''network'' [] (boss_members w) = (True, bw_Network w)" using u by (intro f) (auto simp: boss_lookup)
  moreover have "field_str ''engine'' [] (boss_members w) = (True, bw_Engine w)"
    using u by (intro f) (auto simp: boss_lookup split: if_splits)
  moreover have "field_str ''session_id'' [] (boss_members w) = (True, [])" by (intro f) (auto simp: boss_lookup)
  ultimately show ?thesis by (simp add: info_of_def info_view_def)
qed

lemma info_arrives:
  assumes "utf8_info (info_view w)"
  shows "info_result tp (rs_body (writeJSON code (Some (boss_world_tree w)))) = Inr (Some (info_view w))"
proof -
  have t: "boss_world_tree w = JObj (boss_members w)" by (simp add: boss_world_tree_def boss_members_def)
  have "jwf (JObj (boss_members w))" by (simp add: boss_members_def)
  moreover have "jdepth (JObj (boss_members w)) \<le> maxNestingDepth" by (rule jdepth_JObj_le) (simp add: boss_members_def)
  ultimately have "parse_text (render (JObj (boss_members w)) @ [nl]) = Some (JObj (boss_members w))" by (rule parse_text_line)
  then show ?thesis using info_understood [OF assms]
    by (simp add: info_result_def writeJSON_def t unmarshal_with_def as_members_def del: render_JObj)
qed

lemma Lease_info:
  assumes "Lease lib fmul net en rnd now body st = (Inr info, st')"
  shows "\<exists>bytes w. info = lease_info body (CHR ''w'' # hex_encode bytes) w \<and> w_Engine w \<in> {''jailer'', ''firecracker''}"
proof -
  obtain b h e where st: "st = (b, h, e)" by (cases st)
  from assms obtain i cid b1 where lb: "lease_begin rnd b = (Inr (i, cid), b1)"
    by (auto simp: Lease_def st split: prod.splits sum.splits)
  from assms lb obtain w h1 where ws: "World_Start lib en (lease_opts (bs_cfg b1) i cid) h = (Inr w, h1)"
    by (auto simp: Lease_def st split: prod.splits sum.splits)
  obtain bytes where i: "i = CHR ''w'' # hex_encode bytes"
    using lb by (auto simp: lease_begin_def newWorldID_def split: if_splits sum.splits)
  obtain b' h' e' where st': "st' = (b', h', e')" by (cases st')
  have "lease_finish fmul net now body i w (lease_forward i b1, h1, e) = (Inr info, b', h', e')"
    using assms lb ws by (simp add: Lease_def st st')
  then have "info = lease_info body i w" by (cases rule: lease_finish_cases) simp_all
  moreover have "w_Engine w \<in> {''jailer'', ''firecracker''}" using World_Start_ok [OF ws] by simp
  ultimately show ?thesis using i by blast
qed

lemma ascii_show_nat: "list_all is_ascii (show_nat n)"
  using show_nat_digits [of _ n] by (fastforce simp: list_all_iff is_digit_def is_ascii_def)

lemma default_texts: "valid_utf8 (duration_string (15 * minute))" "valid_utf8 (duration_string (2 * hour))" "valid_utf8 (duration_string (168 * hour))"
  by (rule ascii_valid_utf8, simp add: ascii_string_def duration_string_def hour_def minute_def second_def Let_def frac_string_0 ascii_show_nat,
      simp add: is_ascii_def)+

lemma lease_defaults_utf8:
  "utf8_lease lr \<Longrightarrow> valid_utf8 (lb_Profile (lease_defaults (boss_body lr))) \<and> valid_utf8 (lb_TTLPause (lease_defaults (boss_body lr)))
     \<and> valid_utf8 (lb_TTLStore (lease_defaults (boss_body lr))) \<and> valid_utf8 (lb_TTLPrune (lease_defaults (boss_body lr)))"
  by (simp add: lease_defaults_def boss_body_def utf8_lease_def Let_def default_texts ascii_valid_utf8 ascii_string_def is_ascii_def)

lemma lease_info_utf8:
  assumes "utf8_lease lr" "Lease lib fmul net en rnd now (lease_defaults (boss_body lr)) st = (Inr info, st')"
  shows "utf8_info (info_view info)"
proof -
  obtain bytes w where i: "info = lease_info (lease_defaults (boss_body lr)) (CHR ''w'' # hex_encode bytes) w"
    "w_Engine w \<in> {''jailer'', ''firecracker''}" using Lease_info [OF assms(2)] by blast
  have "valid_utf8 (CHR ''w'' # hex_encode bytes)"
    using hex_encode_ascii [of bytes] by (intro ascii_valid_utf8) (simp add: ascii_string_def is_ascii_def)
  moreover have "valid_utf8 (w_Engine w)" using i(2) by (auto simp: ascii_valid_utf8 ascii_string_def is_ascii_def)
  ultimately show ?thesis using lease_defaults_utf8 [OF assms(1)]
    by (simp add: i(1) utf8_info_def info_view_def lease_info_def ascii_valid_utf8 ascii_string_def is_ascii_def)
qed

text \<open>The engine client on any transport that hands the lease to lot-boss's handler.\<close>

lemma engine_lease:
  assumes "EngineReady (bv_os v) (fst st)" "utf8_lease lr"
    and s: "send tp ''POST'' (base @ ''/v1/worlds'') (render (lease_tree lr)) e =
      (let (p, st') = boss_handleLease v (arrives \<lparr>hc_method = m, hc_url = u, hc_body = render (lease_tree lr)\<rparr> [''v1'', ''worlds'']) st
       in (Reply (answers p), f st'))"
  shows "HTTPEngine_Lease (base, tp) lr e =
    (case Lease (bv_lib v) (bv_fmul v) (bv_net v) (bv_start v) (bv_rnd v) (bv_now v) (lease_defaults (boss_body lr)) st of
       (Inr info, st') \<Rightarrow> (Inr (Some (info_view info)), f st')
     | (Inl err, st') \<Rightarrow> (Inl (if contains err ''cap'' then ErrEngineUnavailable
         else EngineError (''lot-boss lease: : '' @ rs_body (httpError 502 err))), f st'))"
proof -
  obtain res st' where l: "Lease (bv_lib v) (bv_fmul v) (bv_net v) (bv_start v) (bv_rnd v) (bv_now v) (lease_defaults (boss_body lr)) st = (res, st')"
    by (rule prod.exhaust)
  show ?thesis
  proof (cases res)
    case (Inl err)
    then show ?thesis using assms(1) l
      by (simp add: HTTPEngine_Lease_def s boss_handleLease_def lease_arrives [OF assms(2)] Let_def answers_def)
  next
    case (Inr info)
    have "info_result tp (rs_body (writeJSON 201 (Some (boss_world_tree info)))) = Inr (Some (info_view info))"
      by (rule info_arrives [OF lease_info_utf8 [OF assms(2) l [unfolded Inr]]])
    with Inr show ?thesis using assms(1) l
      by (simp add: HTTPEngine_Lease_def s boss_handleLease_def lease_arrives [OF assms(2)] Let_def answers_def)
  qed
qed


text \<open>A lease without wishes, on the node of the first example.\<close>

definition plain_request :: LeaseRequest where
  "plain_request = \<lparr>lr_Profile = [], lr_TTLPause = [], lr_TTLStore = [], lr_TTLPrune = [], lr_SessionID = ''s1''\<rparr>"


end
