(* ===== verification/GuestTheorems.thy ===== *)
theory GuestTheorems
  imports WorldRuntime
begin

text \<open>
  The properties of the agent in the guest: tenants' commands always go through the inner ring, and the
  bounds of their timeouts.
\<close>

section \<open>Commands are jailed\<close>

text \<open>A command of the tenant's path: the inner ring's runner with the tenant's arguments after the dashes.\<close>

definition jailed :: "command \<Rightarrow> bool" where
  "jailed c \<longleftrightarrow> cm_dir c = workspace \<and> cm_name c = ''python3'' \<and> prefix [innerRun, ''--workspace'', workspace, ''--audit''] (cm_args c)
     \<and> (let rest = drop 8 (cm_args c) in rest \<noteq> [] \<and> cm_args c = take 8 (cm_args c) @ rest \<and> cm_args c ! 5 = ''--sandbox-id'' \<and> cm_args c ! 7 = ''--'')"

lemma tenant_jailed: "argv \<noteq> [] \<Longrightarrow> cm_dir c = workspace \<Longrightarrow> (cm_name c, cm_args c) = tenantExecArgs i a argv \<Longrightarrow> jailed c"
  by (simp add: jailed_def tenantExecArgs_def)

lemma parseExecReq_argv: "parseExecReq derr r = Inr req \<Longrightarrow> gq_Argv (fst req) \<noteq> []"
  by (auto simp: parseExecReq_def Let_def split: if_splits)

lemma respondExec_ran:
  "\<exists>c. gs_ran (snd (respondExec v cmd req audit g)) = gs_ran g @ [c] \<and> cm_dir c = workspace \<and> (cm_name c, cm_args c) = cmd \<and> cm_timeout c = snd req"
  by (simp add: respondExec_def Let_def split: ran.split)

lemma handleExec_ran:
  assumes "list_all jailed (gs_ran g)"
  shows "list_all jailed (gs_ran (snd (guest_handleExec v r i g)))"
proof (cases "parseExecReq (gv_derr v) r")
  case (Inr req)
  have "guest_handleExec v r i g = respondExec v (tenantExecArgs i (audit_path i) (gq_Argv (fst req))) req (audit_path i) g"
    by (simp add: guest_handleExec_def Inr)
  then obtain c where "gs_ran (snd (guest_handleExec v r i g)) = gs_ran g @ [c]" "cm_dir c = workspace"
    "(cm_name c, cm_args c) = tenantExecArgs i (audit_path i) (gq_Argv (fst req))"
    using respondExec_ran by metis
  with assms tenant_jailed [OF parseExecReq_argv [OF Inr]] show ?thesis by simp
qed (use assms in \<open>simp add: guest_handleExec_def\<close>)

lemma first_match_in: "first_match rs m p = Some (h, vs) \<Longrightarrow> h \<in> set (map (\<lambda>x. snd (snd x)) rs)"
  by (induction rs m p rule: first_match.induct) (auto split: option.splits if_splits)

lemma no_bare_route:
  assumes "env ''BACKLOT_BARE_EXEC'' \<noteq> ''1''"
  shows "dispatch (guest_routes env) r \<noteq> Serve GBare vs"
proof
  assume "dispatch (guest_routes env) r = Serve GBare vs"
  then have "first_match (guest_routes env) (hr_method r) (hr_path r) = Some (GBare, vs)"
    by (simp add: dispatch_def split: option.splits if_splits prod.splits)
  from first_match_in [OF this] assms show False by (simp add: guest_routes_def)
qed

lemma guest_serve_ran:
  assumes "env ''BACKLOT_BARE_EXEC'' \<noteq> ''1''" "list_all jailed (gs_ran g)"
  shows "list_all jailed (gs_ran (snd (guest_serve env v r g)))"
  using assms no_bare_route [where env = env and r = r, OF assms(1)] handleExec_ran
  by (auto simp: guest_serve_def Let_def split: dispatch.splits guest_handler.splits)

text \<open>A run of the agent from its start.\<close>

definition guest_run :: "environ \<Rightarrow> guest_env \<Rightarrow> Request list \<Rightarrow> emitter \<Rightarrow> guest" where
  "guest_run env v rs em = fold (\<lambda>r g. snd (guest_serve env v r g)) rs \<lparr>gs_emit = em, gs_ran = []\<rparr>"

text \<open>
  C5: In a guest that was not booted with \<open>backlot.bare_exec=1\<close>, whatever requests arrive and whatever
  their bodies say, every command ever run is the inner ring's runner on the workspace, with the
  tenant's command as its arguments after the dashes: no request opts out of the jail.
\<close>

theorem tenant_always_jailed:
  assumes "env ''BACKLOT_BARE_EXEC'' \<noteq> ''1''"
  shows "list_all jailed (gs_ran (guest_run env v rs em))"
proof -
  have "list_all jailed (gs_ran g) \<Longrightarrow> list_all jailed (gs_ran (fold (\<lambda>r g. snd (guest_serve env v r g)) rs g))" for g
    by (induction rs arbitrary: g) (simp_all add: guest_serve_ran [where env = env, OF assms])
  then show ?thesis by (simp add: guest_run_def)
qed

text \<open>A tenant asks to run outside the jail.\<close>

definition opt_out :: Request where
  "opt_out = \<lparr>hr_method = ''POST'', hr_path = [''v1'', ''worlds'', ''w1'', ''exec''], hr_query = (\<lambda>k. []), hr_header = (\<lambda>k. []),
     hr_body = render (JObj [(''argv'', JArr [JStr ''ls'']), (''jail'', JFalse)]), hr_broken = False\<rparr>"

definition quiet_guest :: guest_env where
  "quiet_guest = \<lparr>gv_clock = (\<lambda>n. []), gv_derr = (\<lambda>b. []), gv_fnum = Some, gv_run = (\<lambda>c. Exited 0 [] []), gv_audit = (\<lambda>p c. None)\<rparr>"

lemma opt_out_parsed: "parseExecReq (gv_derr quiet_guest) opt_out = Inr (\<lparr>gq_Argv = [''ls''], gq_Stdin = [], gq_Timeout = 0\<rparr>, 30000000000)"
  by code_simp

theorem tenant_always_jailed_witness:
  "\<exists>c. gs_ran (guest_run (\<lambda>k. []) quiet_guest [opt_out] \<lparr>em_conn = None, em_room = None, em_count = 0\<rparr>) = [c] \<and> jailed c \<and> last (cm_args c) = ''ls''"
proof -
  let ?g = "guest_run (\<lambda>k. []) quiet_guest [opt_out] \<lparr>em_conn = None, em_room = None, em_count = 0\<rparr>"
  have "dispatch (guest_routes (\<lambda>k. [])) opt_out = Serve GExec [''w1'']"
    by (simp add: dispatch_def guest_routes_def opt_out_def match_method_def)
  then have "?g = snd (respondExec quiet_guest (tenantExecArgs ''w1'' (audit_path ''w1'') [''ls''])
      (\<lparr>gq_Argv = [''ls''], gq_Stdin = [], gq_Timeout = 0\<rparr>, 30000000000) (audit_path ''w1'')
      \<lparr>gs_emit = \<lparr>em_conn = None, em_room = None, em_count = 0\<rparr>, gs_ran = []\<rparr>)"
    by (simp add: guest_run_def guest_serve_def guest_handleExec_def opt_out_parsed Let_def)
  then obtain c where c: "gs_ran ?g = [c]" and a: "(cm_name c, cm_args c) = tenantExecArgs ''w1'' (audit_path ''w1'') [''ls'']"
    using respondExec_ran by (metis append_Nil guest.select_convs(2))
  from a have "last (cm_args c) = ''ls''" by (simp add: tenantExecArgs_def)
  with tenant_always_jailed [of "\<lambda>k. []" quiet_guest "[opt_out]" "\<lparr>em_conn = None, em_room = None, em_count = 0\<rparr>"] c show ?thesis by simp
qed

section \<open>Timeouts\<close>

lemma sint_product:
  assumes "- (2 ^ 63) \<le> t * 1000000000" "t * 1000000000 < 2 ^ 63"
  shows "sint ((word_of_int t :: 64 word) * 1000000000) = t * 1000000000"
proof -
  have "(word_of_int t :: 64 word) * 1000000000 = word_of_int (t * 1000000000)" by simp
  then show ?thesis using assms by (simp only: sint_sbintrunc') (simp add: signed_take_bit_int_eq_self)
qed

lemma timeout_wraps: "sint ((word_of_int 18446744074 :: 64 word) * 1000000000) = 290448384"
proof -
  have "(word_of_int 18446744074 :: 64 word) * 1000000000 = word_of_int 290448384"
    by (simp add: word_uint_eq_iff)
  then show ?thesis by (simp only: sint_sbintrunc') (simp add: signed_take_bit_int_eq_self)
qed

text \<open>
  C37: Every command gets a positive timeout below \<open>2^63\<close> nanoseconds. Up to 9223372036 seconds it is the
  one asked for, and 30 seconds when none or a negative one is asked for; beyond that the product wraps
  in 64 bits: asking for 18446744074 seconds gives less than a third of a second.
\<close>

theorem exec_timeout_bounds:
  "0 < exec_timeout t \<and> exec_timeout t < 2 ^ 63
   \<and> (1 \<le> t \<and> t \<le> 9223372036 \<longrightarrow> exec_timeout t = t * 1000000000)
   \<and> (- 9223372036 \<le> t \<and> t \<le> 0 \<longrightarrow> exec_timeout t = 30 * 1000000000)
   \<and> exec_timeout 18446744074 = 290448384"
proof -
  have "sint ((word_of_int t :: 64 word) * 1000000000) < 2 ^ 63"
    using sint_lt [of "(word_of_int t :: 64 word) * 1000000000"] by simp
  moreover have "sint ((word_of_int t :: 64 word) * 1000000000) = t * 1000000000" if "- 9223372036 \<le> t" "t \<le> 9223372036"
    by (rule sint_product) (use that in simp_all)
  ultimately show ?thesis by (simp add: exec_timeout_def Let_def timeout_wraps)
qed

theorem exec_timeout_bounds_witness: "exec_timeout 20 = 20000000000 \<and> exec_timeout 0 = 30000000000"
  using exec_timeout_bounds [of 20] exec_timeout_bounds [of 0] by simp

end
