(* ===== verification/Proxy.thy ===== *)
theory Proxy
  imports HttpModel
begin

text \<open>
  \<open>proxy/main.go\<close>: the egress proxy. It is to let through only hosts on the list in \<open>EGRESS_ALLOW\<close>. The
  hosts it contacts are part of the result, so that one can say what is ever contacted. Lowering the
  case of a string that is not ASCII uses Unicode's tables, the parameter \<open>ulower\<close>.
\<close>

section \<open>The list and the host of a request\<close>

definition allow_entry :: "(string \<Rightarrow> string) \<Rightarrow> string \<Rightarrow> string" where
  "allow_entry ulower h = hd (split_on (CHR '':'') (to_lower ulower (trim_space h)))"

definition allowlist :: "(string \<Rightarrow> string) \<Rightarrow> environ \<Rightarrow> string list" where
  "allowlist ulower env = remdups (filter (\<lambda>h. h \<noteq> []) (map (allow_entry ulower) (split_on (CHR '','') (env ''EGRESS_ALLOW''))))"

definition hostOf :: "(string \<Rightarrow> string) \<Rightarrow> string \<Rightarrow> string" where
  "hostOf ulower raw =
     (let h0 = to_lower ulower raw;
          h1 = (case index_of ''://'' h0 of Some i \<Rightarrow> drop (i + 3) h0 | None \<Rightarrow> h0);
          h2 = hd (split_on (CHR ''/'') h1)
      in hd (split_on (CHR '':'') h2))"

section \<open>Requests\<close>

text \<open>
  What \<open>net/http\<close> hands to the handler. \<open>pq_host\<close> is \<open>r.Host\<close>, \<open>pq_uri\<close> is \<open>r.RequestURI\<close>, \<open>pq_urlhost\<close> the host
  of \<open>r.URL\<close>, to which \<open>RoundTrip\<close> goes.
\<close>

record proxy_request =
  pq_method :: string
  pq_path :: string
  pq_host :: string
  pq_uri :: string
  pq_urlhost :: string

text \<open>
  The server's reading of the request line of a \<open>CONNECT\<close>: the target is parsed as the authority of a
  URL, up to the first slash, question mark or hash, and the host is what follows the last at-sign.
\<close>

definition authority :: "string \<Rightarrow> string" where
  "authority uri = takeWhile (\<lambda>c. c \<noteq> CHR ''/'' \<and> c \<noteq> CHR ''?'' \<and> c \<noteq> CHR ''#'') uri"

definition url_host :: "string \<Rightarrow> string" where
  "url_host uri = rev (takeWhile (\<lambda>c. c \<noteq> CHR ''@'') (rev (authority uri)))"

definition connect_request :: "string \<Rightarrow> proxy_request" where
  "connect_request uri = \<lparr>pq_method = ''CONNECT'', pq_path = drop (length (authority uri)) uri, pq_host = url_host uri, pq_uri = uri,
     pq_urlhost = url_host uri\<rparr>"

section \<open>Serving\<close>

text \<open>The answers of the network: to \<open>RoundTrip\<close>, to a dial, to \<open>Hijack\<close>.\<close>

record proxy_net =
  pn_roundtrip :: "proxy_request \<Rightarrow> (string, nat \<times> (string \<times> string list) list \<times> string) result"
  pn_dial :: "string \<Rightarrow> string option"
  pn_hijacker :: bool
  pn_hijack :: "string option"

text \<open>\<open>Tunnel\<close>: the client's connection is joined to the one dialled. \<open>Dropped\<close>: closed without an answer.\<close>

datatype proxy_answer = PlainText nat string | HealthBody nat | Copied nat "(string \<times> string list) list" string | Tunnel string | Dropped

definition hijackCONNECT :: "proxy_net \<Rightarrow> proxy_request \<Rightarrow> proxy_answer \<times> string list" where
  "hijackCONNECT net r =
     (let dst = (if contains (pq_host r) '':'' then pq_host r else pq_host r @ '':443'') in
      case pn_dial net dst of Some err \<Rightarrow> (PlainText 502 err, [dst])
      | None \<Rightarrow>
          if \<not> pn_hijacker net then (PlainText 500 ''hijack unsupported'', [dst])
          else (case pn_hijack net of Some err \<Rightarrow> (Dropped, [dst]) | None \<Rightarrow> (Tunnel dst, [dst])))"

definition proxy_host :: "(string \<Rightarrow> string) \<Rightarrow> proxy_request \<Rightarrow> string" where
  "proxy_host ulower r =
     (if pq_method r = ''CONNECT''
      then (if hostOf ulower (pq_uri r) = [] then hostOf ulower (pq_host r) else hostOf ulower (pq_uri r))
      else hostOf ulower (pq_host r))"

definition ServeHTTP :: "(string \<Rightarrow> string) \<Rightarrow> string list \<Rightarrow> proxy_net \<Rightarrow> proxy_request \<Rightarrow> proxy_answer \<times> string list" where
  "ServeHTTP ulower allow net r =
     (if pq_path r = ''/health'' \<and> pq_method r \<noteq> ''CONNECT'' then (HealthBody (length allow), [])
      else if proxy_host ulower r \<notin> set allow then (PlainText 403 ''egress denied'', [])
      else if pq_method r = ''CONNECT'' then hijackCONNECT net r
      else case pn_roundtrip net r of
        Inl err \<Rightarrow> (PlainText 502 err, [pq_urlhost r])
      | Inr (code, header, body) \<Rightarrow> (Copied code header body, [pq_urlhost r]))"

lemmas [proxy_defs] = ServeHTTP_def hijackCONNECT_def proxy_host_def

section \<open>Properties\<close>

text \<open>The list never holds the empty name, so a request without a host is denied.\<close>

lemma allowlist_nonempty: "[] \<notin> set (allowlist ulower env)"
  by (simp add: allowlist_def)

lemma hijack_contacts: "snd (hijackCONNECT net r) = [if contains (pq_host r) '':'' then pq_host r else pq_host r @ '':443'']"
  by (simp add: hijackCONNECT_def Let_def split: option.split)

text \<open>
  C6: The proxy denies by default. Whatever it contacts for a request, that request named a host on the
  list, and each request leads to at most one contact; when the list is empty nothing is ever
  contacted. For all methods but \<open>CONNECT\<close> the host named is the one contacted.
\<close>

theorem proxy_default_deny:
  "(snd (ServeHTTP ulower (allowlist ulower env) net r) = []
      \<or> proxy_host ulower r \<in> set (allowlist ulower env) \<and> proxy_host ulower r \<noteq> []
         \<and> snd (ServeHTTP ulower (allowlist ulower env) net r) =
             [if pq_method r = ''CONNECT'' then (if contains (pq_host r) '':'' then pq_host r else pq_host r @ '':443'') else pq_urlhost r])
   \<and> (proxy_host ulower r \<notin> set (allowlist ulower env) \<longrightarrow>
        ServeHTTP ulower (allowlist ulower env) net r =
          (if pq_path r = ''/health'' \<and> pq_method r \<noteq> ''CONNECT'' then (HealthBody (length (allowlist ulower env)), []) else (PlainText 403 ''egress denied'', [])))"
  using allowlist_nonempty [of ulower env]
  by (auto simp: ServeHTTP_def hijack_contacts split: sum.split)

theorem proxy_default_deny_witness:
  "ServeHTTP (\<lambda>s. s) (allowlist (\<lambda>s. s) (\<lambda>k. ''allowed.com'')) \<lparr>pn_roundtrip = (\<lambda>r. Inl []), pn_dial = (\<lambda>d. None), pn_hijacker = True, pn_hijack = None\<rparr>
     (connect_request ''evil.com:443'') = (PlainText 403 ''egress denied'', [])"
proof -
  have d: "proxy_host (\<lambda>s. s) (connect_request ''evil.com:443'') \<notin> set (allowlist (\<lambda>s. s) (\<lambda>k. ''allowed.com''))" by code_simp
  have "pq_method (connect_request ''evil.com:443'') = ''CONNECT''" by (simp add: connect_request_def)
  with d proxy_default_deny [of "\<lambda>s. s" "\<lambda>k. ''allowed.com''" "\<lparr>pn_roundtrip = (\<lambda>r. Inl []), pn_dial = (\<lambda>d. None), pn_hijacker = True, pn_hijack = None\<rparr>"
      "connect_request ''evil.com:443''"] show ?thesis by simp
qed


end
