(* ===== verification/Vsock.thy ===== *)
theory Vsock
  imports GoStrings
begin

text \<open>
  \<open>runtime/vsockhost/host.go\<close>: connecting to a port of the guest through Firecracker's Unix socket. The
  peer is given by the bytes it sends; the chunks in which they are read do not matter, since the
  buffered rest is read before the connection goes on.
\<close>

text \<open>
  What the calls of a dial meet: the errors of the dial, of the first deadline, of the write and of the
  last deadline, if they fail; the bytes the peer sends, and the error that ends the reading of the
  acknowledgement when there is no full line.
\<close>

record dial_env =
  dv_dial :: "string option"
  dv_deadline :: "string option"
  dv_write :: "string option"
  dv_sent :: string
  dv_readerr :: string
  dv_clear :: "string option"

text \<open>A connection: what was written to the peer and what is still to be read from it.\<close>

record conn =
  cn_written :: string
  cn_rest :: string

text \<open>The first line with its newline, and the rest.\<close>

definition read_line :: "string \<Rightarrow> (string \<times> string) option" where
  "read_line s = (let l = takeWhile (\<lambda>c. c \<noteq> CHR 0x0A) s in
     if length l = length s then None else Some (l @ [CHR 0x0A], drop (Suc (length l)) s))"

text \<open>\<open>qt\<close> is the quoting of \<open>%q\<close>. Every failure after the dial closes the connection.\<close>

definition DialGuest :: "(string \<Rightarrow> string) \<Rightarrow> dial_env \<Rightarrow> nat \<Rightarrow> (string, conn) result" where
  "DialGuest qt v port =
     (case dv_dial v of Some e \<Rightarrow> Inl e
      | None \<Rightarrow> (case dv_deadline v of Some e \<Rightarrow> Inl e
      | None \<Rightarrow> (case dv_write v of Some e \<Rightarrow> Inl e
      | None \<Rightarrow>
          (case read_line (dv_sent v) of None \<Rightarrow> Inl (''vsock CONNECT ack: '' @ dv_readerr v)
           | Some (line, rest) \<Rightarrow>
               let l = trim_space line in
               if \<not> prefix ''OK '' l then Inl (''vsock CONNECT rejected: '' @ qt l)
               else (case dv_clear v of Some e \<Rightarrow> Inl e
                 | None \<Rightarrow> Inr \<lparr>cn_written = ''CONNECT '' @ show_nat port @ [CHR 0x0A], cn_rest = rest\<rparr>)))))"

lemma read_line_append: "CHR 0x0A \<notin> set l \<Longrightarrow> read_line (l @ CHR 0x0A # rest) = Some (l @ [CHR 0x0A], rest)"
proof -
  assume "CHR 0x0A \<notin> set l"
  then have "takeWhile (\<lambda>c. c \<noteq> CHR 0x0A) (l @ CHR 0x0A # rest) = l" by (induction l) auto
  then show ?thesis by (simp add: read_line_def Let_def)
qed

text \<open>
  C39: A connection to the guest is handed over exactly after the acknowledgement: it was asked for the
  port, the peer's first line said \<open>OK\<close>, and what is read from it is every byte the peer sent after that
  line and nothing of the line, also when both arrived together.
\<close>

theorem dial_hands_over:
  assumes "DialGuest qt v port = Inr c"
  shows "\<exists>line. dv_sent v = line @ CHR 0x0A # cn_rest c \<and> CHR 0x0A \<notin> set line \<and> prefix ''OK '' (trim_space (line @ [CHR 0x0A]))
    \<and> cn_written c = ''CONNECT '' @ show_nat port @ [CHR 0x0A]"
proof -
  from assms obtain line rest where r: "read_line (dv_sent v) = Some (line, rest)" and p: "prefix ''OK '' (trim_space line)"
    and c: "c = \<lparr>cn_written = ''CONNECT '' @ show_nat port @ [CHR 0x0A], cn_rest = rest\<rparr>"
    by (auto simp: DialGuest_def Let_def split: option.splits if_splits)
  let ?l = "takeWhile (\<lambda>c. c \<noteq> CHR 0x0A) (dv_sent v)"
  have len: "length ?l \<noteq> length (dv_sent v)" and line: "line = ?l @ [CHR 0x0A]" and rest: "rest = drop (Suc (length ?l)) (dv_sent v)"
    using r by (auto simp: read_line_def Let_def split: if_splits)
  have less: "length ?l < length (dv_sent v)" using len length_takeWhile_le [of "\<lambda>c. c \<noteq> CHR 0x0A" "dv_sent v"] by simp
  have "dv_sent v ! length ?l = CHR 0x0A" using nth_length_takeWhile [OF less] by simp
  then have "dv_sent v = ?l @ CHR 0x0A # rest"
    using id_take_nth_drop [OF less] takeWhile_eq_take [of "\<lambda>c. c \<noteq> CHR 0x0A" "dv_sent v"] rest by simp
  moreover have "CHR 0x0A \<notin> set ?l" by (auto dest: set_takeWhileD)
  ultimately show ?thesis using p c line by (intro exI [of _ ?l]) simp
qed

text \<open>The acknowledgement and the first bytes of a response in one segment.\<close>

definition ack_env :: dial_env where
  "ack_env = \<lparr>dv_dial = None, dv_deadline = None, dv_write = None, dv_sent = ''OK 1024'' @ CHR 0x0A # ''HTTP'', dv_readerr = [], dv_clear = None\<rparr>"

lemma ack_dial: "DialGuest (\<lambda>s. s) ack_env 8080 = Inr \<lparr>cn_written = ''CONNECT '' @ show_nat 8080 @ [CHR 0x0A], cn_rest = ''HTTP''\<rparr>"
proof -
  have "prefix ''OK '' (trim_space (''OK 1024'' @ [CHR 0x0A]))" by code_simp
  then show ?thesis
    using read_line_append [of "''OK 1024''" "''HTTP''"] by (simp add: DialGuest_def ack_env_def Let_def)
qed

theorem dial_hands_over_witness:
  "DialGuest (\<lambda>s. s) ack_env 8080 = Inr \<lparr>cn_written = ''CONNECT '' @ show_nat 8080 @ [CHR 0x0A], cn_rest = ''HTTP''\<rparr>
   \<and> (\<exists>line. dv_sent ack_env = line @ CHR 0x0A # ''HTTP'' \<and> prefix ''OK '' (trim_space (line @ [CHR 0x0A])))"
  using dial_hands_over [OF ack_dial] ack_dial by auto

end
