(* ===== verification/EventSink.thy ===== *)
theory EventSink
  imports WorldTheorems
begin

text \<open>
  \<open>acceptEvents\<close> of \<open>runtime/world/world.go\<close>: the listener of a world's event connections. Each connection is drained by a
  goroutine of its own, and all of them append to the one events file. A line is one write to a file opened for
  appending, so the steps of the goroutines interleave at whole lines.
\<close>

section \<open>The listener and its connections\<close>

text \<open>For each connection accepted, its stream and the lines still to be written.\<close>

record event_host =
  eh_open :: bool
  eh_file :: string
  eh_conns :: "(string \<times> string list) list"

text \<open>
  A connection comes (with the error of opening the file, if any), goroutine \<open>k\<close> writes its next line, its write fails
  after some bytes, the listener is closed.
\<close>

datatype event_step = Accepted "string option" string | Wrote nat | WriteFailed nat nat | ListenerClosed

definition pending :: "string \<Rightarrow> string list" where
  "pending conn = filter (\<lambda>l. l \<noteq> []) (fst (scan_lines eventLine conn))"

definition acceptEvents_step :: "event_step \<Rightarrow> event_host \<Rightarrow> event_host" where
  "acceptEvents_step e h =
     (case e of
        Accepted op conn \<Rightarrow>
          (if eh_open h then h\<lparr>eh_conns := eh_conns h @ [(conn, case op of Some err \<Rightarrow> [] | None \<Rightarrow> pending conn)]\<rparr> else h)
      | Wrote k \<Rightarrow>
          (if k < length (eh_conns h) then case eh_conns h ! k of (conn, []) \<Rightarrow> h
             | (conn, l # ls) \<Rightarrow> h\<lparr>eh_file := eh_file h @ l @ [nl], eh_conns := (eh_conns h)[k := (conn, ls)]\<rparr>
           else h)
      | WriteFailed k part \<Rightarrow>
          (if k < length (eh_conns h) then case eh_conns h ! k of (conn, []) \<Rightarrow> h
             | (conn, l # ls) \<Rightarrow> h\<lparr>eh_file := eh_file h @ take part (l @ [nl]), eh_conns := (eh_conns h)[k := (conn, [])]\<rparr>
           else h)
      | ListenerClosed \<Rightarrow> h\<lparr>eh_open := False\<rparr>)"

definition acceptEvents :: "event_step list \<Rightarrow> string \<Rightarrow> event_host" where
  "acceptEvents es f = fold acceptEvents_step es \<lparr>eh_open = True, eh_file = f, eh_conns = []\<rparr>"

text \<open>Steps in which nothing fails.\<close>

definition smooth :: "event_step \<Rightarrow> bool" where
  "smooth e = (case e of Accepted op conn \<Rightarrow> op = None | WriteFailed k part \<Rightarrow> False | _ \<Rightarrow> True)"

section \<open>Interleavings\<close>

text \<open>What a log of writes holds of one connection.\<close>

definition chunks :: "nat \<Rightarrow> (nat \<times> string) list \<Rightarrow> string" where
  "chunks k log = concat (map snd (filter (\<lambda>x. fst x = k) log))"

lemma chunks_snoc: "chunks k (log @ [(j, c)]) = (if k = j then chunks k log @ c else chunks k log)"
  by (simp add: chunks_def)

definition whole_line :: "string \<Rightarrow> bool" where
  "whole_line c \<longleftrightarrow> c \<noteq> [] \<and> last c = nl \<and> nl \<notin> set (butlast c)"

lemma record_filter: "record_text (filter (\<lambda>l. l \<noteq> []) ls) = record_text ls"
  by (induction ls) (simp_all add: record_text_def)

lemma record_pending: "record_text (pending conn) = record_text (fst (scan_lines eventLine conn))"
  by (simp add: pending_def record_filter)

lemma pending_prefix: "prefix (record_text (pending conn)) (event_text conn)"
  unfolding record_pending using take_lines_prefix by (simp add: event_text_record scan_lines_def)

lemma pending_all:
  assumes "\<forall>l\<in>set (split_on nl conn). length l < 1024 * 1024"
  shows "record_text (pending conn) = event_text conn"
  unfolding record_pending using take_lines_all [of "split_on nl conn" eventLine] assms
  by (simp add: event_text_record scan_lines_def eventLine_def)

text \<open>The lines of a scan have no newline in them.\<close>

lemma take_lines_in: "l \<in> set (fst (take_lines mx ls)) \<Longrightarrow> \<exists>l'\<in>set ls. set l \<subseteq> set l'"
proof (induction mx ls rule: take_lines.induct)
  case (2 mx l)
  then show ?case by (auto simp: drop_cr_def dest: in_set_butlastD split: if_splits)
next
  case (3 mx l l' ls)
  then show ?case by (auto simp: drop_cr_def Let_def dest: in_set_butlastD split: if_splits)
qed simp

lemma pending_line: "l \<in> set (pending conn) \<Longrightarrow> l \<noteq> [] \<and> nl \<notin> set l"
  using take_lines_in [of l eventLine "split_on nl conn"] split_on_no_sep_elem [of _ nl conn]
  by (auto simp: pending_def scan_lines_def)

text \<open>
  The invariant: the file is the log of the writes, and what the log has of a connection, followed by what is still to be
  written, is what its stream asks for; a failed write leaves a prefix of it.
\<close>

definition conn_ok :: "bool \<Rightarrow> (nat \<times> string) list \<Rightarrow> nat \<Rightarrow> string \<times> string list \<Rightarrow> bool" where
  "conn_ok fine log k c \<longleftrightarrow> set (snd c) \<subseteq> set (pending (fst c)) \<and> prefix (chunks k log @ record_text (snd c)) (record_text (pending (fst c)))
     \<and> (fine \<longrightarrow> chunks k log @ record_text (snd c) = record_text (pending (fst c)))"

definition log_ok :: "string \<Rightarrow> bool \<Rightarrow> event_host \<Rightarrow> (nat \<times> string) list \<Rightarrow> bool" where
  "log_ok f fine h log \<longleftrightarrow> eh_file h = f @ concat (map snd log) \<and> (\<forall>x\<in>set log. fst x < length (eh_conns h))
     \<and> (\<forall>k<length (eh_conns h). conn_ok fine log k (eh_conns h ! k)) \<and> (fine \<longrightarrow> (\<forall>x\<in>set log. whole_line (snd x)))"

lemma chunks_none: "\<forall>x\<in>set log. fst x < n \<Longrightarrow> chunks n log = []"
  by (auto simp: chunks_def filter_empty_conv)

lemma log_ok_accept:
  assumes "log_ok f fine h log" "c = (conn, case op of Some err \<Rightarrow> [] | None \<Rightarrow> pending conn)" "fine \<Longrightarrow> op = None"
  shows "log_ok f fine (h\<lparr>eh_conns := eh_conns h @ [c]\<rparr>) log"
proof -
  have "chunks (length (eh_conns h)) log = []" using assms(1) by (intro chunks_none) (simp add: log_ok_def)
  then have "conn_ok fine log (length (eh_conns h)) c" using assms(2,3) by (auto simp: conn_ok_def record_text_def split: option.split)
  with assms(1) show ?thesis by (auto simp: log_ok_def nth_append less_Suc_eq)
qed

lemma log_ok_write:
  assumes l: "log_ok f fine h log" "k < length (eh_conns h)" "eh_conns h ! k = (conn, l # ls)"
  shows "log_ok f fine (h\<lparr>eh_file := eh_file h @ l @ [nl], eh_conns := (eh_conns h)[k := (conn, ls)]\<rparr>) (log @ [(k, l @ [nl])])"
proof -
  have c: "conn_ok fine log k (conn, l # ls)" using l unfolding log_ok_def by metis
  then have ne: "l \<noteq> [] \<and> nl \<notin> set l" using pending_line [of l conn] by (simp add: conn_ok_def)
  then have "conn_ok fine (log @ [(k, l @ [nl])]) k (conn, ls)" using c by (simp add: conn_ok_def chunks_snoc record_text_Cons)
  moreover have "conn_ok fine (log @ [(k, l @ [nl])]) j (eh_conns h ! j)" if "j < length (eh_conns h)" "j \<noteq> k" for j
    using l(1) that by (simp add: log_ok_def conn_ok_def chunks_snoc)
  moreover have "whole_line (l @ [nl])" using ne by (simp add: whole_line_def)
  ultimately show ?thesis using l(1,2) by (auto simp: log_ok_def nth_list_update)
qed

lemma log_ok_fail:
  assumes l: "log_ok f False h log" "k < length (eh_conns h)" "eh_conns h ! k = (conn, l # ls)"
  shows "log_ok f False (h\<lparr>eh_file := eh_file h @ take n (l @ [nl]), eh_conns := (eh_conns h)[k := (conn, [])]\<rparr>) (log @ [(k, take n (l @ [nl]))])"
proof -
  have c: "conn_ok False log k (conn, l # ls)" using l unfolding log_ok_def by metis
  then have ne: "l \<noteq> []" using pending_line [of l conn] by (simp add: conn_ok_def)
  have "prefix (chunks k log @ take n (l @ [nl])) (chunks k log @ record_text (l # ls))"
    unfolding same_prefix_prefix record_text_Cons(1) [OF ne] by (rule prefix_prefix [OF take_is_prefix])
  then have "conn_ok False (log @ [(k, take n (l @ [nl]))]) k (conn, [])"
    using c prefix_order.trans by (fastforce simp: conn_ok_def chunks_snoc record_text_def)
  moreover have "conn_ok False (log @ [(k, take n (l @ [nl]))]) j (eh_conns h ! j)" if "j < length (eh_conns h)" "j \<noteq> k" for j
    using l(1) that by (simp add: log_ok_def conn_ok_def chunks_snoc)
  ultimately show ?thesis using l(1,2) by (auto simp: log_ok_def nth_list_update)
qed

lemma log_ok_step:
  assumes "log_ok f fine h log" "fine \<Longrightarrow> smooth e"
  shows "\<exists>log. log_ok f fine (acceptEvents_step e h) log"
proof (cases e)
  case (Accepted op conn)
  with log_ok_accept [OF assms(1) refl, of op conn] assms show ?thesis by (auto simp: acceptEvents_step_def smooth_def)
next
  case (Wrote k)
  with log_ok_write [OF assms(1), of k] assms(1) show ?thesis
    by (auto simp: acceptEvents_step_def split: prod.split list.split)
next
  case (WriteFailed k n)
  with assms(2) have "\<not> fine" by (auto simp: smooth_def)
  with assms(1) have l: "log_ok f False h log" by simp
  show ?thesis
  proof (cases "k < length (eh_conns h) \<and> snd (eh_conns h ! k) \<noteq> []")
    case True
    then obtain conn l ls where c: "k < length (eh_conns h)" "eh_conns h ! k = (conn, l # ls)"
      by (cases "eh_conns h ! k") (auto simp: neq_Nil_conv)
    from log_ok_fail [OF l c, of n] c \<open>\<not> fine\<close> WriteFailed show ?thesis
      by (intro exI [of _ "log @ [(k, take n (l @ [nl]))]"]) (simp add: acceptEvents_step_def del: take_append)
  next
    case False
    with assms(1) WriteFailed show ?thesis by (intro exI [of _ log]) (auto simp: acceptEvents_step_def split: prod.split list.split)
  qed
next
  case ListenerClosed
  with assms(1) show ?thesis by (auto simp: acceptEvents_step_def log_ok_def)
qed

lemma log_ok_run: "\<exists>log. log_ok f (list_all smooth es) (acceptEvents es f) log"
proof -
  have "\<exists>log. log_ok f fine (acceptEvents es f) log" if "fine \<Longrightarrow> list_all smooth es" for fine
    using that
  proof (induction es rule: rev_induct)
    case Nil
    show ?case by (intro exI [of _ "[]"]) (simp add: acceptEvents_def log_ok_def)
  next
    case (snoc e es)
    then obtain log where "log_ok f fine (acceptEvents es f) log" by auto
    with log_ok_step [OF this, of e] snoc.prems show ?case by (simp add: acceptEvents_def)
  qed
  then show ?thesis by blast
qed

section \<open>Every schedule\<close>

text \<open>
  C28: Event connections do not disturb each other: however connections come, their goroutines' writes interleave and
  fail, and the listener is closed, the file keeps what it had and gains a sequence of writes of which each connection's
  own are a prefix of its lines, in order. When nothing fails every write is one whole line, so no line is torn, and a
  connection that has written everything has all of its lines in the file, if none reaches 1 MiB.
\<close>

theorem event_connections_interleave:
  "\<exists>log. eh_file (acceptEvents es f) = f @ concat (map snd log) \<and> (\<forall>x\<in>set log. fst x < length (eh_conns (acceptEvents es f)))
    \<and> (\<forall>k<length (eh_conns (acceptEvents es f)). case eh_conns (acceptEvents es f) ! k of (conn, rest) \<Rightarrow>
         prefix (chunks k log) (event_text conn)
         \<and> (list_all smooth es \<and> rest = [] \<and> (\<forall>l\<in>set (split_on nl conn). length l < 1024 * 1024) \<longrightarrow> chunks k log = event_text conn))
    \<and> (list_all smooth es \<longrightarrow> (\<forall>x\<in>set log. whole_line (snd x)))"
proof -
  obtain log where l: "log_ok f (list_all smooth es) (acceptEvents es f) log" using log_ok_run by blast
  have "case eh_conns (acceptEvents es f) ! k of (conn, rest) \<Rightarrow> prefix (chunks k log) (event_text conn)
      \<and> (list_all smooth es \<and> rest = [] \<and> (\<forall>l\<in>set (split_on nl conn). length l < 1024 * 1024) \<longrightarrow> chunks k log = event_text conn)"
    if k: "k < length (eh_conns (acceptEvents es f))" for k
  proof -
    obtain conn rest where c: "eh_conns (acceptEvents es f) ! k = (conn, rest)" by (rule prod.exhaust)
    have ok: "conn_ok (list_all smooth es) log k (conn, rest)" using l k c unfolding log_ok_def by metis
    then have "prefix (chunks k log) (record_text (pending conn))" unfolding conn_ok_def fst_conv snd_conv by (blast intro: append_prefixD)
    then have "prefix (chunks k log) (event_text conn)" using pending_prefix prefix_order.trans by blast
    with ok pending_all [of conn] show ?thesis by (auto simp: c conn_ok_def record_text_def)
  qed
  with l show ?thesis unfolding log_ok_def by blast
qed

text \<open>Two connections that take turns.\<close>

theorem event_connections_interleave_witness:
  "eh_file (acceptEvents [Accepted None (''a'' @ nl # ''b''), Accepted None ''c'', Wrote 0, Wrote 1, ListenerClosed, Wrote 0] []) =
     ''a'' @ nl # ''c'' @ nl # ''b'' @ [nl]
   \<and> (\<exists>log. ''a'' @ nl # ''c'' @ nl # ''b'' @ [nl] = concat (map snd log) \<and> chunks 0 log = event_text (''a'' @ nl # ''b''))"
proof -
  let ?es = "[Accepted None (''a'' @ nl # ''b''), Accepted None ''c'', Wrote 0, Wrote 1, ListenerClosed, Wrote 0]"
  have p: "pending (''a'' @ nl # ''b'') = [''a'', ''b'']" "pending ''c'' = [''c'']"
    by (simp_all add: pending_def scan_lines_def eventLine_def drop_cr_def)
  have r: "acceptEvents ?es [] = \<lparr>eh_open = False, eh_file = ''a'' @ nl # ''c'' @ nl # ''b'' @ [nl], eh_conns = [(''a'' @ nl # ''b'', []), (''c'', [])]\<rparr>"
    unfolding acceptEvents_def by (simp add: acceptEvents_step_def p del: append.simps) simp
  have s: "list_all smooth ?es" by (simp add: smooth_def)
  have u: "\<forall>l\<in>set (split_on nl (''a'' @ nl # ''b'')). length l < 1024 * 1024" by simp
  from event_connections_interleave [of ?es "[]"] obtain log where
    l: "eh_file (acceptEvents ?es []) = [] @ concat (map snd log)" and
    k: "\<forall>k<length (eh_conns (acceptEvents ?es [])). case eh_conns (acceptEvents ?es []) ! k of (conn, rest) \<Rightarrow>
         prefix (chunks k log) (event_text conn)
         \<and> (list_all smooth ?es \<and> rest = [] \<and> (\<forall>l\<in>set (split_on nl conn). length l < 1024 * 1024) \<longrightarrow> chunks k log = event_text conn)"
    by (elim exE conjE)
  have "chunks 0 log = event_text (''a'' @ nl # ''b'')"
    using k [rule_format, of 0] s u unfolding r by (simp del: split_on.simps append.simps)
  with l show ?thesis unfolding r by (intro conjI exI [of _ log]) simp_all
qed

end
