(* ===== verification/Bars.thy ===== *)
theory Bars
  imports HttpModel
begin

text \<open>
  How the acceptance tests proceed: a sequence of bars, each of which passes or ends the test. A bar acts
  on a state and gives a value or the way the test ends. A relation every bar keeps
  is kept by the sequence; \<open>effects\<close> and \<open>served\<close> state this once, for a reflexive and transitive relation
  and for the clients of a transport that keeps it. \<open>passes\<close> is the other direction: a bar that passes from every state
  with some property, with what then holds.
\<close>

text \<open>
  The ends of a test: the bar that failed, the reason why it did not run, or a panic. A panic ends a Go
  program with status 2, the status these tests use for \<open>Skipped\<close>.
\<close>

datatype verdict = AllPass | FailedAt string | Skipped string | Crashed

text \<open>What ends a sequence of bars early.\<close>

datatype bar_end = Fails string | Panics

primrec ended :: "bar_end \<Rightarrow> verdict" where
  "ended (Fails b) = FailedAt b"
| "ended Panics = Crashed"

lemma ended_not_pass [simp]: "ended x \<noteq> AllPass" "ended x \<noteq> Skipped m"
  by (cases x; simp)+

primrec exit_status :: "verdict \<Rightarrow> nat" where
  "exit_status AllPass = 0"
| "exit_status (FailedAt b) = 1"
| "exit_status (Skipped m) = 2"
| "exit_status Crashed = 2"

type_synonym ('s, 'a) bar = "'s \<Rightarrow> (bar_end, 'a) result \<times> 's"

definition bar_return :: "'a \<Rightarrow> ('s, 'a) bar" where
  "bar_return x s = (Inr x, s)"

definition bar_fail :: "bar_end \<Rightarrow> ('s, 'a) bar" where
  "bar_fail v s = (Inl v, s)"

definition bar_bind :: "('s, 'a) bar \<Rightarrow> ('a \<Rightarrow> ('s, 'b) bar) \<Rightarrow> ('s, 'b) bar" where
  "bar_bind m f s = (case m s of (Inl v, s') \<Rightarrow> (Inl v, s') | (Inr x, s') \<Rightarrow> f x s')"

definition bar_get :: "('s \<Rightarrow> 'a) \<Rightarrow> ('s, 'a) bar" where
  "bar_get f s = (Inr (f s), s)"

definition bar_do :: "('s \<Rightarrow> 's) \<Rightarrow> ('s, unit) bar" where
  "bar_do f s = (Inr (), f s)"

definition bar_call :: "('s \<Rightarrow> 'a \<times> 's) \<Rightarrow> ('s, 'a) bar" where
  "bar_call f s = (let (x, s') = f s in (Inr x, s'))"

definition bar_check :: "string \<Rightarrow> bool \<Rightarrow> ('s, unit) bar" where
  "bar_check name ok = (if ok then bar_return () else bar_fail (Fails name))"

fun bar_each :: "('a \<Rightarrow> ('s, unit) bar) \<Rightarrow> 'a list \<Rightarrow> ('s, unit) bar" where
  "bar_each f [] = bar_return ()"
| "bar_each f (x # xs) = bar_bind (f x) (\<lambda>u. bar_each f xs)"

lemmas bar_defs = bar_return_def bar_fail_def bar_get_def bar_do_def bar_call_def

lemma bar_bind_Inr: "bar_bind m f s = (Inr y, t) \<longleftrightarrow> (\<exists>x s'. m s = (Inr x, s') \<and> f x s' = (Inr y, t))"
  by (auto simp: bar_bind_def split: prod.split sum.split)

lemma bar_bindE:
  assumes "bar_bind m f s = (Inr y, t)"
  obtains x s' where "m s = (Inr x, s')" "f x s' = (Inr y, t)"
  using assms by (auto simp: bar_bind_Inr)

lemma bar_check_Inr [simp]: "bar_check n ok s = (Inr u, t) \<longleftrightarrow> ok \<and> t = s"
  by (auto simp: bar_check_def bar_defs)

lemma bar_simple_Inr [simp]:
  "bar_return x s = (Inr y, t) \<longleftrightarrow> y = x \<and> t = s" "bar_fail v s = (Inr y, t) \<longleftrightarrow> False"
  "bar_get f s = (Inr y, t) \<longleftrightarrow> y = f s \<and> t = s" "bar_do g s = (Inr u, t) \<longleftrightarrow> t = g s"
  "bar_call h s = (Inr y, t) \<longleftrightarrow> h s = (y, t)"
  by (auto simp: bar_defs split: prod.split)

text \<open>Bars that may fail but do not panic.\<close>

definition no_panic :: "('s, 'a) bar \<Rightarrow> bool" where
  "no_panic m \<longleftrightarrow> (\<forall>s. fst (m s) \<noteq> Inl Panics)"

lemma no_panic_simple [intro]:
  "no_panic (bar_return x)" "no_panic (bar_fail (Fails b))" "no_panic (bar_get f)" "no_panic (bar_do g)" "no_panic (bar_call h)"
  "no_panic (bar_check n ok)"
  by (simp_all add: no_panic_def bar_defs bar_check_def split: prod.split)

lemma no_panic_bind [intro]:
  assumes "no_panic m" "\<And>x. no_panic (f x)"
  shows "no_panic (bar_bind m f)"
  unfolding no_panic_def
proof
  fix s
  obtain r s' where m: "m s = (r, s')" by (rule prod.exhaust)
  show "fst (bar_bind m f s) \<noteq> Inl Panics"
    using assms m unfolding no_panic_def by (cases r) (auto simp: bar_bind_def dest: spec [of _ s])
qed

lemma no_panic_cases [intro]:
  "(\<And>x. no_panic (f x)) \<Longrightarrow> (\<And>y. no_panic (g y)) \<Longrightarrow> no_panic (case r of Inl x \<Rightarrow> f x | Inr y \<Rightarrow> g y)"
  "(\<And>x y. no_panic (k x y)) \<Longrightarrow> no_panic (case q of (x, y) \<Rightarrow> k x y)"
  "no_panic m \<Longrightarrow> (\<And>x. no_panic (j x)) \<Longrightarrow> no_panic (case l of None \<Rightarrow> m | Some x \<Rightarrow> j x)"
  by (simp_all split: sum.split prod.split option.split)

lemma no_panic_each: "(\<And>x. no_panic (f x)) \<Longrightarrow> no_panic (bar_each f xs)"
  by (induction xs) auto

text \<open>Bars that panic only in states of one kind.\<close>

definition panics_in :: "('s \<Rightarrow> bool) \<Rightarrow> ('s, 'a) bar \<Rightarrow> bool" where
  "panics_in P m \<longleftrightarrow> (\<forall>s t. m s = (Inl Panics, t) \<longrightarrow> P t)"

lemma panics_inD: "panics_in P m \<Longrightarrow> m s = (Inl Panics, t) \<Longrightarrow> P t"
  unfolding panics_in_def by blast

lemma panics_in_no: "no_panic m \<Longrightarrow> panics_in P m"
  by (auto simp: panics_in_def no_panic_def) (metis fst_conv)

lemma panics_in_bind:
  assumes "panics_in P m" "\<And>x. panics_in P (f x)"
  shows "panics_in P (bar_bind m f)"
  unfolding panics_in_def
proof (intro allI impI)
  fix s t
  assume b: "bar_bind m f s = (Inl Panics, t)"
  obtain r s' where m: "m s = (r, s')" by (rule prod.exhaust)
  with assms b show "P t" unfolding panics_in_def by (cases r) (auto simp: bar_bind_def)
qed

lemma no_panicD: "no_panic m \<Longrightarrow> m s = (Inl x, s') \<Longrightarrow> \<exists>b. x = Fails b"
  by (metis bar_end.exhaust fst_conv no_panic_def)

section \<open>Bars that pass\<close>

text \<open>From the states of \<open>P\<close> the bar passes, with a value and a state of \<open>Q\<close>: total correctness, one rule for each construct.\<close>

definition passes :: "('s \<Rightarrow> bool) \<Rightarrow> ('s, 'a) bar \<Rightarrow> ('a \<Rightarrow> 's \<Rightarrow> bool) \<Rightarrow> bool" where
  "passes P m Q \<longleftrightarrow> (\<forall>s. P s \<longrightarrow> (\<exists>x t. m s = (Inr x, t) \<and> Q x t))"

lemma passesI: "(\<And>s. P s \<Longrightarrow> \<exists>x t. m s = (Inr x, t) \<and> Q x t) \<Longrightarrow> passes P m Q"
  unfolding passes_def by iprover

lemma passesE:
  assumes "passes P m Q" "P s"
  obtains x t where "m s = (Inr x, t)" "Q x t"
  using assms unfolding passes_def by iprover

lemma passes_bind:
  assumes "passes P m R" "\<And>x. passes (R x) (f x) Q"
  shows "passes P (bar_bind m f) Q"
proof (rule passesI)
  fix s
  assume "P s"
  with assms(1) obtain x t where x: "m s = (Inr x, t)" "R x t" by (rule passesE)
  from assms(2) x(2) obtain y u where "f x t = (Inr y, u)" "Q y u" by (rule passesE)
  with x(1) show "\<exists>y u. bar_bind m f s = (Inr y, u) \<and> Q y u" unfolding bar_bind_Inr by iprover
qed

lemma passes_return: "(\<And>s. P s \<Longrightarrow> Q x s) \<Longrightarrow> passes P (bar_return x) Q"
  by (rule passesI) simp

lemma passes_get: "(\<And>s. P s \<Longrightarrow> Q (f s) s) \<Longrightarrow> passes P (bar_get f) Q"
  by (rule passesI) simp

lemma passes_do: "(\<And>s. P s \<Longrightarrow> Q () (g s)) \<Longrightarrow> passes P (bar_do g) Q"
  by (rule passesI) simp

lemma passes_check: "(\<And>s. P s \<Longrightarrow> ok \<and> Q () s) \<Longrightarrow> passes P (bar_check n ok) Q"
  by (rule passesI) simp

lemma passes_call: "(\<And>s. P s \<Longrightarrow> \<exists>x t. f s = (x, t) \<and> Q x t) \<Longrightarrow> passes P (bar_call f) Q"
  by (rule passesI) simp

lemma passes_fact: "(ok \<Longrightarrow> passes P m Q) \<Longrightarrow> passes (\<lambda>s. ok \<and> P s) m Q"
  by (auto simp: passes_def)

text \<open>The sequence when what is known of the value is a fact beside the state, the value itself, or a passed check.\<close>

lemma passes_bind_fact:
  assumes "passes P m (\<lambda>x s. F x \<and> R s)" "\<And>x. F x \<Longrightarrow> passes R (f x) Q"
  shows "passes P (bar_bind m f) Q"
  by (rule passes_bind [OF assms(1)]) (rule passes_fact [OF assms(2)])

lemma passes_bind_eq: "passes P m (\<lambda>x s. x = c \<and> R s) \<Longrightarrow> passes R (f c) Q \<Longrightarrow> passes P (bar_bind m f) Q"
  by (rule passes_bind_fact [where F = "\<lambda>x. x = c" and R = R]) simp_all

lemma passes_bind_check: "ok \<Longrightarrow> passes P (f ()) Q \<Longrightarrow> passes P (bar_bind (bar_check n ok) f) Q"
  by (rule passes_bind_eq [where c = "()" and R = P], rule passes_check) simp_all

lemma passes_each_Cons: "passes P (f x) (\<lambda>u. R) \<Longrightarrow> passes R (bar_each f xs) Q \<Longrightarrow> passes P (bar_each f (x # xs)) Q"
  unfolding bar_each.simps by (rule passes_bind)

lemma passes_each_Nil: "passes P (bar_each f []) (\<lambda>u. P)"
  unfolding bar_each.simps by (rule passes_return)

lemma passes_post: "passes P m R \<Longrightarrow> (\<And>x s. R x s \<Longrightarrow> Q x s) \<Longrightarrow> passes P m Q"
  unfolding passes_def by iprover

section \<open>What every bar keeps\<close>

definition keeps :: "('s \<Rightarrow> 's \<Rightarrow> bool) \<Rightarrow> ('s, 'a) bar \<Rightarrow> bool" where
  "keeps R m \<longleftrightarrow> (\<forall>s. R s (snd (m s)))"

lemma keepsD: "keeps R m \<Longrightarrow> m s = (r, s') \<Longrightarrow> R s s'"
  by (metis keeps_def snd_conv)

locale effects =
  fixes R :: "'s \<Rightarrow> 's \<Rightarrow> bool"
  assumes refl: "R s s"
    and trans: "R s t \<Longrightarrow> R t u \<Longrightarrow> R s u"
begin

lemma keeps_simple [intro]: "keeps R (bar_return x)" "keeps R (bar_fail v)" "keeps R (bar_get f)" "keeps R (bar_check n ok)"
  by (simp_all add: keeps_def bar_defs bar_check_def refl)

lemma keeps_do: "(\<And>s. R s (f s)) \<Longrightarrow> keeps R (bar_do f)"
  by (simp add: keeps_def bar_defs)

lemma keeps_call: "(\<And>s x s'. f s = (x, s') \<Longrightarrow> R s s') \<Longrightarrow> keeps R (bar_call f)"
  by (simp add: keeps_def bar_defs split: prod.split)

lemma keeps_bind:
  assumes "keeps R m" "\<And>x. keeps R (f x)"
  shows "keeps R (bar_bind m f)"
  unfolding keeps_def
proof
  fix s
  obtain r s' where m: "m s = (r, s')" by (rule prod.exhaust)
  have 1: "R s s'" using keepsD [OF assms(1) m] .
  show "R s (snd (bar_bind m f s))"
  proof (cases r)
    case (Inr x)
    obtain q t where "f x s' = (q, t)" by (rule prod.exhaust)
    with keepsD [OF assms(2) this] trans [OF 1] m Inr show ?thesis by (simp add: bar_bind_def)
  qed (use 1 m in \<open>simp add: bar_bind_def\<close>)
qed

lemma keeps_each:
  assumes "\<And>x. keeps R (f x)"
  shows "keeps R (bar_each f xs)"
proof (induction xs)
  case (Cons x xs)
  show ?case unfolding bar_each.simps by (rule keeps_bind [OF assms Cons])
qed (simp add: keeps_simple)

lemma keeps_if: "(c \<Longrightarrow> keeps R m) \<Longrightarrow> (\<not> c \<Longrightarrow> keeps R n) \<Longrightarrow> keeps R (if c then m else n)"
  by simp

end

text \<open>A transport whose every exchange keeps the relation.\<close>

locale served = effects R for R :: "'s \<Rightarrow> 's \<Rightarrow> bool" +
  fixes tp :: "'s transport"
  assumes served: "tp_do tp c s = (r, s') \<Longrightarrow> R s s'"
begin

lemma send_keeps: "send tp m url body s = (x, s') \<Longrightarrow> R s s'"
  by (auto simp: send_def intro: refl dest: served split: option.splits prod.splits sum.splits)

end

end
