(* ===== verification/ExecCodec.thy ===== *)
theory ExecCodec
  imports BossOps WorldRuntime
begin

text \<open>
  The encodings a command passes on its way: the request of a command and its result are read back by
  every decoder on the way as what was written.
\<close>

section \<open>Integers and lists of strings\<close>

lemma is_digit_not_minus: "is_digit c \<Longrightarrow> c \<noteq> CHR ''-'' \<and> c \<noteq> CHR ''+''"
  by (auto simp: is_digit_def)

lemma show_nat_Cons:
  obtains c cs where "show_nat n = c # cs" "is_digit c" "list_all is_digit cs"
proof -
  obtain c cs where c: "show_nat n = c # cs" by (cases "show_nat n") auto
  with list_all_digit_show_nat [of n] show thesis by (intro that [of c cs]) simp_all
qed

lemma raw_num_minus:
  assumes "raw_num t" "num_sign t = []"
  shows "raw_num (CHR ''-'' # t)"
  using assms by (auto simp: raw_num_def scan_num_def num_sign_def Let_def split: option.splits)

lemma raw_num_show_int [simp]: "raw_num (show_int i)"
proof (cases "i < 0")
  case True
  have "num_sign (show_nat (nat (- i))) = []"
    by (rule show_nat_Cons [of "nat (- i)"]) (simp add: num_sign_def is_digit_not_minus)
  with True raw_num_minus [OF raw_num_show_nat] show ?thesis by (simp add: show_int_def)
qed (simp add: show_int_def)

lemma jint_simps [simp]: "jwf (jint i)" "jdepth (jint i) = 0"
  by (simp_all add: jint_def)

lemma atoi_show_int:
  assumes "- (2 ^ 63) \<le> i" "i < 2 ^ 63"
  shows "atoi (show_int i) = Some i"
proof (cases "i < 0")
  case True
  then show ?thesis using assms by (simp add: show_int_def atoi_def Let_def)
next
  case False
  obtain c cs where c: "show_nat (nat i) = c # cs" "is_digit c" by (rule show_nat_Cons)
  have "digits_val 0 (c # cs) = nat i" "list_all is_digit (c # cs)" using c(1) by (metis digits_val_show_nat, metis list_all_digit_show_nat)
  with False assms c show ?thesis by (simp add: show_int_def atoi_def Let_def is_digit_not_minus)
qed

lemma dec_int_jint [simp]: "- (2 ^ 63) \<le> i \<Longrightarrow> i < 2 ^ 63 \<Longrightarrow> dec_int d (jint i) = (True, i)"
  by (simp add: dec_int_def jint_def atoi_show_int)

lemma dec_strs_jstr: "\<forall>s\<in>set ss. valid_utf8 s \<Longrightarrow> dec_strs d (JArr (map jstr ss)) = (True, ss)"
  by (simp add: dec_strs_def list_all_iff map_idI)

lemma jdepth_strs: "jdepth (JArr (map jstr ss)) < maxNestingDepth"
proof -
  have "insert 0 (set (map jdepth (map jstr ss))) = {0}" by auto
  then show ?thesis by (simp add: maxNestingDepth_def)
qed

section \<open>The request of a command\<close>

definition exec_members :: "string list \<Rightarrow> int \<Rightarrow> members" where
  "exec_members argv t = [(''argv'', JArr (map jstr argv)), (''timeout'', jint t)]"

lemma exec_members_wf: "wf_members (exec_members argv t)" "low_members (exec_members argv t)"
  using jdepth_strs [of argv] by (simp_all add: exec_members_def)

lemma exec_keys: "\<forall>m\<in>set (exec_members argv t). plain_key (fst m)" "distinct (map fst (exec_members argv t))"
  by (simp_all add: exec_members_def)

lemma exec_fields:
  assumes "\<forall>s\<in>set argv. valid_utf8 s" "- (2 ^ 63) \<le> t" "t < 2 ^ 63"
  shows "field_strs ''argv'' [] (exec_members argv t) = (True, argv)" "field_int ''timeout'' 0 (exec_members argv t) = (True, t)"
    "field_str ''stdin'' [] (exec_members argv t) = (True, [])"
  by (rule field_with_map_of [OF exec_keys]; use assms in \<open>auto simp: exec_members_def dec_strs_jstr\<close>)+

lemma execReq_members:
  assumes "\<forall>s\<in>set argv. valid_utf8 s" "- (2 ^ 63) \<le> t" "t < 2 ^ 63"
  shows "execReq_of (exec_members argv t) = (True, (argv, t))"
    "guest_execReq_of (exec_members argv t) = (True, \<lparr>gq_Argv = argv, gq_Stdin = [], gq_Timeout = t\<rparr>)"
  using exec_fields [OF assms] by (simp_all add: execReq_of_def guest_execReq_of_def)

lemma execBody_members: "execBody argv t = render (JObj (exec_members argv t))"
  by (simp add: execBody_def execBody_tree_def exec_members_def)

lemma parse_rendered: "jwf v \<Longrightarrow> jdepth v \<le> maxNestingDepth \<Longrightarrow> parse_text (render v) = Some v"
  using parse_text_render by blast

lemma unmarshal_members:
  assumes "wf_members ms" "low_members ms" "dec ms = (True, x)"
  shows "unmarshal_with dec (render (JObj ms)) = Some x" "unmarshal_with dec (render (JObj ms) @ [nl]) = Some x"
  using assms parse_rendered [of "JObj ms"] parse_text_line [of "JObj ms"] jdepth_JObj_le
  by (simp_all add: unmarshal_with_def as_members_def del: render_JObj)

lemma execBody_read:
  assumes "\<forall>s\<in>set argv. valid_utf8 s" "- (2 ^ 63) \<le> t" "t < 2 ^ 63"
  shows "unmarshal_with execReq_of (execBody argv t) = Some (argv, t)"
  unfolding execBody_members using unmarshal_members(1) [OF exec_members_wf, where dec = execReq_of] execReq_members(1) [OF assms] by simp

section \<open>The result of a command\<close>

definition result_members :: "int \<Rightarrow> string \<Rightarrow> string \<Rightarrow> members" where
  "result_members c out err = [(''exit_code'', jint c), (''stdout'', jstr out), (''stderr'', jstr err)]"

lemma result_members_wf: "wf_members (result_members c out err)" "low_members (result_members c out err)"
  by (simp_all add: result_members_def)

lemma result_keys: "\<forall>m\<in>set (result_members c out err). plain_key (fst m)" "distinct (map fst (result_members c out err))"
  by (simp_all add: result_members_def)

lemma result_of_members:
  assumes "- (2 ^ 63) \<le> c" "c < 2 ^ 63" "valid_utf8 out" "valid_utf8 err"
  shows "result_of (result_members c out err) = (True, \<lparr>xr_ExitCode = c, xr_Stdout = out, xr_Stderr = err\<rparr>)"
proof -
  note f = field_with_map_of [OF result_keys]
  have "field_int ''exit_code'' 0 (result_members c out err) = (True, c)" using assms by (intro f) (auto simp: result_members_def)
  moreover have "field_str ''stdout'' [] (result_members c out err) = (True, out)" using assms by (intro f) (auto simp: result_members_def)
  moreover have "field_str ''stderr'' [] (result_members c out err) = (True, err)" using assms by (intro f) (auto simp: result_members_def)
  ultimately show ?thesis by (simp add: result_of_def)
qed

lemma result_read:
  assumes "- (2 ^ 63) \<le> c" "c < 2 ^ 63" "valid_utf8 out" "valid_utf8 err"
  shows "unmarshal_with result_of (render (execResp_tree c out err) @ [nl]) = Some \<lparr>xr_ExitCode = c, xr_Stdout = out, xr_Stderr = err\<rparr>"
    "unmarshal_with result_of (render (execResp_tree c out err)) = Some \<lparr>xr_ExitCode = c, xr_Stdout = out, xr_Stderr = err\<rparr>"
proof -
  have t: "execResp_tree c out err = JObj (result_members c out err)" by (simp add: execResp_tree_def result_members_def)
  show "unmarshal_with result_of (render (execResp_tree c out err) @ [nl]) = Some \<lparr>xr_ExitCode = c, xr_Stdout = out, xr_Stderr = err\<rparr>"
    "unmarshal_with result_of (render (execResp_tree c out err)) = Some \<lparr>xr_ExitCode = c, xr_Stdout = out, xr_Stderr = err\<rparr>"
    unfolding t using unmarshal_members [OF result_members_wf, where dec = result_of] result_of_members [OF assms] by simp_all
qed

end
