(* ===== verification/Mains.thy ===== *)
theory Mains
  imports BossState RouterServer DeskStore Paths
begin

text \<open>
  What the commands compute before they serve: \<open>desk/cmd/desk\<close>, \<open>router/cmd/router\<close>, \<open>lot/cmd/lot-boss\<close>,
  \<open>runtime/cmd/shepherd\<close> and \<open>runtime/cmd/fc-waitkvm\<close>. Listening is not modelled; what a signal does to lot-boss is in \<open>LotCommand\<close>.
\<close>

section \<open>The desk and the router\<close>

definition desk_main :: "environ \<Rightarrow> string \<times> string" where
  "desk_main env = (env_or env ''DESK_ADDR'' '':8090'', env_or env ''DESK_DATA'' ''/data'')"

text \<open>The engine is lot-boss when its URL is set, and the unavailable one otherwise.\<close>

definition router_engine :: "environ \<Rightarrow> 'e transport \<Rightarrow> 'e Engine" where
  "router_engine env tp =
     (let lotBoss = trim_space (env ''LOT_BOSS_URL'') in
      if lotBoss = [] then UnavailableEngine else HTTPEngine_engine (trim_right (CHR ''/'') lotBoss, tp))"

definition router_main :: "environ \<Rightarrow> 'e transport \<Rightarrow> 'e transport \<Rightarrow> string \<times> 'e RouterServer" where
  "router_main env tp desk =
     (env_or env ''ROUTER_ADDR'' '':8080'', NewServer (Some (router_engine env tp)) (env_or env ''DESK_URL'' ''http://desk:8090'') desk)"

section \<open>The root of the repository\<close>

text \<open>\<open>filepath.Dir\<close>.\<close>

definition path_dir :: "string \<Rightarrow> string" where
  "path_dir p = clean_path (rev (dropWhile (\<lambda>c. c \<noteq> slash) (rev p)))"

text \<open>
  The loop of \<open>repoRoot\<close>: upwards from the working directory until the root, which is not looked at.
  \<open>Some None\<close> is its end without a find; no value means that it does not end.
\<close>

partial_function (option) find_root :: "(string \<Rightarrow> bool) \<Rightarrow> string \<Rightarrow> string option option" where
  "find_root stat p =
     (if p = ''/'' then Some None
      else if stat (path_join [p, ''inner'', ''run.py'']) then Some (Some p)
      else find_root stat (path_dir p))"

text \<open>\<open>wd\<close> is what \<open>os.Getwd\<close> returns: the empty string when it fails, since the error is dropped.\<close>

definition repoRoot :: "environ \<Rightarrow> (string \<Rightarrow> bool) \<Rightarrow> string \<Rightarrow> string option" where
  "repoRoot env stat wd =
     (if env ''BACKLOT_ROOT'' \<noteq> [] then Some (env ''BACKLOT_ROOT'')
      else case find_root stat wd of None \<Rightarrow> None | Some None \<Rightarrow> Some wd | Some (Some p) \<Rightarrow> Some p)"

section \<open>lot-boss and shepherd\<close>

text \<open>The flags of lot-boss, with the values they have when they are not given.\<close>

record lot_flags =
  lf_addr :: string
  lf_max :: int
  lf_warm :: int
  lf_work :: string
  lf_kernel :: string
  lf_rootfs :: string
  lf_desk :: string
  lf_requireJailer :: bool

definition default_flags :: "environ \<Rightarrow> lot_flags" where
  "default_flags env = \<lparr>lf_addr = '':8070'', lf_max = DefaultMaxWorlds, lf_warm = DefaultWarmPool, lf_work = [], lf_kernel = [], lf_rootfs = [],
     lf_desk = env_or env ''DESK_URL'' ''http://127.0.0.1:8090'', lf_requireJailer = True\<rparr>"

definition lot_config :: "string \<Rightarrow> string \<Rightarrow> lot_flags \<Rightarrow> Config" where
  "lot_config root tmp f = \<lparr>cf_MaxWorlds = lf_max f, cf_WarmPool = lf_warm f, cf_RequireKVM = True, cf_KVMPath = [],
     cf_WorkDir = (if lf_work f = [] then path_join [tmp, ''backlot-lot''] else lf_work f),
     cf_Kernel = (if lf_kernel f = [] then path_join [root, ''guest/artifacts/vmlinux-6.1.102''] else lf_kernel f),
     cf_Rootfs = (if lf_rootfs f = [] then path_join [root, ''guest/artifacts/rootfs.ext4''] else lf_rootfs f),
     cf_Firecracker = [], cf_Jailer = [], cf_WaitKVM = [], cf_DeskURL = lf_desk f, cf_RequireJailer = lf_requireJailer f\<rparr>"

definition lot_main :: "environ \<Rightarrow> (string \<Rightarrow> bool) \<Rightarrow> string \<Rightarrow> string \<Rightarrow> lot_flags \<Rightarrow> Boss option" where
  "lot_main env stat wd tmp f = (case repoRoot env stat wd of None \<Rightarrow> None | Some root \<Rightarrow> Some (NewBossConfig env (lot_config root tmp f)))"

record shepherd_flags =
  sf_id :: string
  sf_work :: string
  sf_kernel :: string
  sf_rootfs :: string
  sf_firecracker :: string
  sf_jailer :: string

definition shepherd_opts :: "shepherd_flags \<Rightarrow> (string, StartOpts) result" where
  "shepherd_opts f =
     (if sf_work f = [] \<or> sf_kernel f = [] \<or> sf_rootfs f = [] then Inl ''need -work -kernel -rootfs''
      else Inr \<lparr>so_ID = sf_id f, so_WorkDir = sf_work f, so_Kernel = sf_kernel f, so_Rootfs = sf_rootfs f,
        so_Firecracker = (if sf_firecracker f = [] then ''/usr/local/firecracker/v1.15.1/firecracker'' else sf_firecracker f),
        so_Jailer = (if sf_jailer f = [] then ''/usr/local/firecracker/v1.15.1/jailer'' else sf_jailer f),
        so_WaitKVM = [], so_GuestCID = 0, so_BareExec = False\<rparr>)"

text \<open>The shepherd's run: the world is stopped when the signal comes, an error ends it at once.\<close>

definition shepherd_main :: "(string \<Rightarrow> string) \<Rightarrow> start_env \<Rightarrow> shepherd_flags \<Rightarrow> host \<Rightarrow> string option \<times> host" where
  "shepherd_main lib en f h =
     (case shepherd_opts f of Inl e \<Rightarrow> (Some e, h)
      | Inr opts \<Rightarrow> (case World_Start lib en opts h of (Inl e, h') \<Rightarrow> (Some e, h') | (Inr w, h') \<Rightarrow> (None, World_Stop w h')))"

section \<open>fc-waitkvm\<close>

definition realFC :: string where "realFC = ''/firecracker.real''"

datatype waitkvm = WExit nat string | WExec string "string list"

text \<open>
  \<open>polls\<close> are the answers of opening the KVM node until the deadline, \<open>None\<close> for an open that succeeds;
  the loop keeps the last error, if any.
\<close>

fun waitkvm_last :: "string option \<Rightarrow> string option list \<Rightarrow> string option" where
  "waitkvm_last lst [] = lst"
| "waitkvm_last lst (None # ps) = None"
| "waitkvm_last lst (Some e # ps) = waitkvm_last (Some e) ps"

definition waitkvm_main :: "string option list \<Rightarrow> string list \<Rightarrow> string option \<Rightarrow> waitkvm" where
  "waitkvm_main polls args execerr =
     (case waitkvm_last None polls of Some e \<Rightarrow> WExit 1 (''fc-waitkvm: /dev/kvm never opened: '' @ e @ [CHR 0x0A])
      | None \<Rightarrow> (case execerr of Some e \<Rightarrow> WExit 1 (''fc-waitkvm: exec '' @ realFC @ '': '' @ e @ [CHR 0x0A])
         | None \<Rightarrow> WExec realFC (realFC # tl args)))"

section \<open>Termination of the search for the root\<close>

definition rooted_path :: "string list \<Rightarrow> string" where
  "rooted_path es = slash # join_with ''/'' es"

lemma plain_no_slash: "\<forall>e\<in>set es. plain_elem e \<Longrightarrow> \<forall>e\<in>set es. slash \<notin> set e"
  by (simp add: plain_elem_def)

lemma clean_rooted:
  assumes "\<forall>e\<in>set es. plain_elem e"
  shows "clean_path (slash # join_with ''/'' es @ ''/'') = rooted_path es"
proof (cases "es = []")
  case True
  then show ?thesis by (simp add: clean_path_def rooted_path_def)
next
  case False
  have "split_on slash (join_with ''/'' es @ slash # []) = es @ [[]]"
    using False assms split_on_join [OF False plain_no_slash [OF assms]] by (simp only: split_on_append_sep) simp
  then have "clean_elems True [] (split_on slash (slash # join_with ''/'' es @ ''/'')) = clean_elems True [] (es @ [[]])"
    by simp
  also have "\<dots> = es"
  proof -
    have "clean_elems True acc (es @ [[]]) = rev acc @ es" for acc
      using assms by (induction es arbitrary: acc) (auto simp: plain_elem_def)
    then show ?thesis by simp
  qed
  finally show ?thesis by (simp add: clean_path_def rooted_path_def Let_def)
qed

lemma path_dir_rooted:
  assumes "\<forall>e\<in>set (es @ [e]). plain_elem e"
  shows "path_dir (rooted_path (es @ [e])) = rooted_path es"
proof -
  have e: "slash \<notin> set e" using assms by (simp add: plain_elem_def)
  have drop: "rev (dropWhile (\<lambda>c. c \<noteq> slash) (rev (p @ slash # e))) = p @ [slash]" for p
  proof -
    have "dropWhile (\<lambda>c. c \<noteq> slash) (rev e @ slash # rev p) = slash # rev p" by (subst dropWhile_append2) (use e in auto)
    then show ?thesis by simp
  qed
  show ?thesis
  proof (cases "es = []")
    case True
    then show ?thesis using drop [of "[]"] by (simp add: path_dir_def rooted_path_def clean_path_def)
  next
    case False
    have "rooted_path (es @ [e]) = (slash # join_with ''/'' es) @ slash # e" using False by (simp add: rooted_path_def join_with_append)
    then show ?thesis using drop [of "slash # join_with ''/'' es"] clean_rooted [of es] assms by (simp add: path_dir_def)
  qed
qed

lemma find_root_terminates:
  "\<forall>e\<in>set es. plain_elem e \<Longrightarrow> \<exists>r. find_root stat (rooted_path es) = Some r
     \<and> (\<forall>p. r = Some p \<longrightarrow> stat (path_join [p, ''inner'', ''run.py'']) \<and> (\<exists>k. p = rooted_path (take k es)))"
proof (induction es rule: rev_induct)
  case Nil
  show ?case by (subst find_root.simps) (simp add: rooted_path_def)
next
  case (snoc e es)
  then obtain r where r: "find_root stat (rooted_path es) = Some r"
    "\<forall>p. r = Some p \<longrightarrow> stat (path_join [p, ''inner'', ''run.py'']) \<and> (\<exists>k. p = rooted_path (take k es))" by auto
  have ne: "rooted_path (es @ [e]) \<noteq> ''/''"
    using snoc.prems join_with_nonempty [of "es @ [e]" "''/''"] by (auto simp: rooted_path_def plain_elem_def)
  show ?case
  proof (cases "stat (path_join [rooted_path (es @ [e]), ''inner'', ''run.py''])")
    case True
    then have "find_root stat (rooted_path (es @ [e])) = Some (Some (rooted_path (es @ [e])))"
      using ne by (subst find_root.simps) simp
    moreover have "\<exists>k. rooted_path (es @ [e]) = rooted_path (take k (es @ [e]))" by (rule exI [of _ "Suc (length es)"]) simp
    ultimately show ?thesis using True by simp
  next
    case False
    then have "find_root stat (rooted_path (es @ [e])) = find_root stat (rooted_path es)"
      using ne path_dir_rooted [OF snoc.prems] by (subst find_root.simps) simp
    then have f: "find_root stat (rooted_path (es @ [e])) = Some r" using r(1) by simp
    have "\<exists>k. p = rooted_path (take k (es @ [e]))" if rp: "r = Some p" for p
    proof -
      obtain k where "p = rooted_path (take k es)" using r(2) rp by blast
      then show ?thesis by (intro exI [of _ "min k (length es)"]) (simp add: min_def)
    qed
    then have "\<forall>p. r = Some p \<longrightarrow> stat (path_join [p, ''inner'', ''run.py'']) \<and> (\<exists>k. p = rooted_path (take k (es @ [e])))"
      using r(2) by simp
    with f show ?thesis by (intro exI [of _ r] conjI)
  qed
qed

text \<open>
  C40: The search for the root of the repository ends from every absolute working directory: the
  result is the configured root, the nearest of the directory and its ancestors that holds
  \<open>inner/run.py\<close>, or the directory itself.
\<close>

theorem repo_root_terminates:
  assumes "\<forall>e\<in>set es. plain_elem e"
  shows "\<exists>p. repoRoot env stat (rooted_path es) = Some p
    \<and> (p = env ''BACKLOT_ROOT'' \<or> p = rooted_path es \<or> stat (path_join [p, ''inner'', ''run.py'']) \<and> (\<exists>k. p = rooted_path (take k es)))"
proof -
  obtain r where "find_root stat (rooted_path es) = Some r"
    "\<forall>p. r = Some p \<longrightarrow> stat (path_join [p, ''inner'', ''run.py'']) \<and> (\<exists>k. p = rooted_path (take k es))"
    using find_root_terminates [OF assms] by blast
  then show ?thesis by (cases r) (auto simp: repoRoot_def)
qed

theorem repo_root_terminates_witness:
  "\<exists>p. repoRoot (\<lambda>k. []) (\<lambda>p. False) (rooted_path [''home'', ''me'']) = Some p \<and> (p = [] \<or> p = rooted_path [''home'', ''me''])"
  using repo_root_terminates [of "[''home'', ''me'']" "\<lambda>k. []" "\<lambda>p. False"] by (simp add: plain_elem_def)

text \<open>
  When \<open>os.Getwd\<close> fails the working directory is the empty string, whose parent is \<open>.\<close>, which is its own
  parent: the search does not end unless it finds the file.
\<close>

lemma path_dir_dot: "path_dir [] = ''.''" "path_dir ''.'' = ''.''"
  by (simp_all add: path_dir_def clean_path_def)

lemma find_root_dot:
  assumes "find_root stat p = Some r"
  shows "p \<in> {[], ''.''} \<Longrightarrow> \<exists>q. stat q"
proof (induction rule: find_root.raw_induct [OF _ assms, consumes 0, case_names step])
  case (step find_root stat p y)
  then show ?case by (auto simp: path_dir_dot split: if_splits)
qed

theorem repo_root_diverges: "repoRoot (\<lambda>k. []) (\<lambda>p. False) [] = None"
proof (cases "find_root (\<lambda>p. False) []")
  case (Some r)
  from find_root_dot [OF this] show ?thesis by simp
qed (simp add: repoRoot_def)

end
