(* ===== verification/M2Test.thy ===== *)
theory M2Test
  imports Bars ExecCodec WorldTheorems Mains
begin

text \<open>
  \<open>runtime/cmd/m2test\<close>: the acceptance test of one world on a KVM host. What it prints beside the verdict
  is not modelled, and neither is the removal of its working directory.
\<close>

section \<open>Helpers\<close>

text \<open>The results of opening \<open>/dev/kvm\<close> for writing and of closing it again.\<close>

definition kvmReadable :: "string option \<times> string option \<Rightarrow> string option" where
  "kvmReadable dev = (case fst dev of Some e \<Rightarrow> Some e | None \<Rightarrow> snd dev)"

text \<open>\<open>alive pid\<close> says that signal 0 can be sent to the process.\<close>

definition leftoverOur :: "(nat \<Rightarrow> bool) \<Rightarrow> nat \<Rightarrow> string list" where
  "leftoverOur alive pid = (if 0 < pid \<and> alive pid then [''vmm pid '' @ show_nat pid @ '' still alive''] else [])"

definition lastLine :: "string \<Rightarrow> string" where
  "lastLine s0 = (let s = trim_space s0 in
     if nl \<in> set s then trim_space (rev (takeWhile (\<lambda>c. c \<noteq> nl) (rev s))) else s)"

text \<open>
  The \<open>%q\<close> verb: \<open>uq\<close> is the text of a rune outside ASCII, whose form depends on Unicode's tables; a byte
  that is not part of a rune and the control characters are escaped.
\<close>

definition quote_byte :: "char \<Rightarrow> string" where
  "quote_byte c =
     (if c = CHR 0x22 \<or> c = CHR 0x5C then [CHR 0x5C, c]
      else if 32 \<le> byte c \<and> byte c < 127 then [c]
      else case map_of [(7, CHR ''a''), (8, CHR ''b''), (12, CHR ''f''), (10, CHR ''n''), (13, CHR ''r''), (9, CHR ''t''), (11, CHR ''v'')] (byte c) of
        Some l \<Rightarrow> [CHR 0x5C, l] | None \<Rightarrow> CHR 0x5C # CHR ''x'' # hex_encode [c])"

definition go_quote :: "(string \<Rightarrow> string) \<Rightarrow> string \<Rightarrow> string" where
  "go_quote uq s = CHR 0x22 # concat (map (\<lambda>(r, ok). case r of [c] \<Rightarrow> if ok then quote_byte c else CHR 0x5C # CHR ''x'' # hex_encode [c]
     | _ \<Rightarrow> uq r) (runes s)) @ [CHR 0x22]"

section \<open>The bars\<close>

text \<open>
  \<open>m2_vsock\<close> is the client of a world's guest, \<open>m2_events\<close> what can be read of an events file (nothing when it
  cannot be read), \<open>m2_alive\<close> the answer of signal 0 to a process, \<open>m2_sleep\<close> what happens in a pause.
\<close>

record 'e m2_env =
  m2_kvm :: "string option \<times> string option"
  m2_start :: start_env
  m2_lib :: "string \<Rightarrow> string"
  m2_wd :: string
  m2_tmp :: "(string, string) result"
  m2_vsock :: "World \<Rightarrow> 'e transport"
  m2_events :: "string \<Rightarrow> 'e \<Rightarrow> string"
  m2_sleep :: "nat \<Rightarrow> 'e \<Rightarrow> 'e"
  m2_alive :: "host \<times> 'e \<Rightarrow> nat \<Rightarrow> bool"
  m2_uquote :: "string \<Rightarrow> string"

definition m2_opts :: "'e m2_env \<Rightarrow> string \<Rightarrow> string \<Rightarrow> StartOpts" where
  "m2_opts v repo work =
     (let env = se_getenv (m2_start v) in
      \<lparr>so_ID = ''demo'', so_WorkDir = work, so_Kernel = path_join [repo, ''guest/artifacts/vmlinux-6.1.102''],
       so_Rootfs = path_join [repo, ''guest/artifacts/rootfs.ext4''],
       so_Firecracker = env_or env ''FIRECRACKER_BIN'' ''/usr/local/firecracker/v1.15.1/firecracker'',
       so_Jailer = env_or env ''JAILER_BIN'' ''/usr/local/firecracker/v1.15.1/jailer'',
       so_WaitKVM = env_or env ''BACKLOT_FC_WAITKVM'' (path_join [repo, ''runtime/bin/fc-waitkvm'']),
       so_GuestCID = 0, so_BareExec = True\<rparr>)"

text \<open>A command in the guest, jailed or not; the host keeps what it holds.\<close>

definition in_guest :: "('e \<Rightarrow> 'a \<times> 'e) \<Rightarrow> (host \<times> 'e, 'a) bar" where
  "in_guest f = bar_call (\<lambda>st. let (r, e') = f (snd st) in (r, fst st, e'))"

definition m2_exec :: "'e m2_env \<Rightarrow> World \<Rightarrow> string list \<Rightarrow> int \<Rightarrow> (host \<times> 'e, (string, ExecResult) result) bar" where
  "m2_exec v w argv t = in_guest (World_Exec (m2_vsock v w) w argv t)"

definition m2_bare :: "'e m2_env \<Rightarrow> World \<Rightarrow> string list \<Rightarrow> int \<Rightarrow> (host \<times> 'e, (string, ExecResult) result) bar" where
  "m2_bare v w argv t = in_guest (World_BareExec (m2_vsock v w) w argv t)"

definition exec_shows :: "string \<Rightarrow> (string, ExecResult) result \<Rightarrow> bool" where
  "exec_shows t r = (case r of Inl e \<Rightarrow> False | Inr x \<Rightarrow> xr_ExitCode x = 0 \<and> contains (xr_Stdout x) t)"

definition exec_hides :: "string \<Rightarrow> (string, ExecResult) result \<Rightarrow> bool" where
  "exec_hides t r = (case r of Inl e \<Rightarrow> False | Inr x \<Rightarrow> \<not> contains (xr_Stdout x) t)"

definition inner_ok :: "(string, ExecResult) result \<Rightarrow> bool" where
  "inner_ok r = (case r of Inl e \<Rightarrow> False | Inr x \<Rightarrow> xr_ExitCode x = 0 \<and> contains (xr_Stdout x @ xr_Stderr x) ''0 fail'')"

text \<open>The text of a key and its value, as in \<open>"kind":"start"\<close>.\<close>

definition quoted :: "string \<Rightarrow> string" where
  "quoted s = CHR 0x22 # s @ [CHR 0x22]"

definition kind_text :: "string \<Rightarrow> string" where
  "kind_text k = quoted ''kind'' @ '':'' @ quoted k"

definition decoy_logged :: "string \<Rightarrow> bool" where
  "decoy_logged log = (if \<not> contains log ''decoy_open'' \<and> \<not> contains log (kind_text ''decoy_open'') then contains log ''decoy_open'' else True)"

definition start_exit_logged :: "string \<Rightarrow> bool" where
  "start_exit_logged log =
     (if \<not> contains log (kind_text ''start'') \<and> \<not> contains log (kind_text ''exit'')
      then contains log (quoted ''start'') \<and> contains log (quoted ''exit'') else True)"

definition m2_probe :: "'e m2_env \<Rightarrow> World \<Rightarrow> string" where
  "m2_probe v w = ''if [ -e '' @ go_quote (m2_uquote v) (w_EventsPath w) @ '' ]; then echo HAS_HOST_JSONL; else echo NO_HOST_JSONL; fi''"

definition m2_bars :: "'e m2_env \<Rightarrow> World \<Rightarrow> (host \<times> 'e, unit) bar" where
  "m2_bars v w =
     bar_bind (bar_check ''M2-boot'' (w_Engine w = ''jailer'')) (\<lambda>_.
     bar_bind (m2_exec v w [''/usr/bin/ls'', ''/workspace''] 20) (\<lambda>res.
     bar_bind (bar_check ''M2-exec'' (exec_shows ''hello.txt'' res)) (\<lambda>_.
     bar_bind (m2_bare v w [''python3'', ''/opt/backlot/inner/tests/int/run_int.py''] 120) (\<lambda>inner.
     bar_bind (bar_check ''M2-inner'' (inner_ok inner)) (\<lambda>_.
     bar_bind (m2_exec v w [''/usr/bin/cat'', ''/opt/grok/CANARY.txt''] 20) (\<lambda>ignored.
     bar_bind (in_guest (\<lambda>e. ((), m2_sleep v 400 e))) (\<lambda>_.
     bar_bind (bar_get (\<lambda>st. m2_events v (w_EventsPath w) (snd st))) (\<lambda>hostLog.
     bar_bind (bar_check ''M2-decoy-host'' (decoy_logged hostLog)) (\<lambda>_.
     bar_bind (bar_check ''M2-start-exit'' (start_exit_logged hostLog)) (\<lambda>_.
     bar_bind (m2_exec v w [''/bin/sh'', ''-c'', ''if [ -e /dev/kvm ]; then echo HAS_KVM; else echo NO_KVM; fi''] 10) (\<lambda>kvm.
     bar_bind (bar_check ''M2-no-kvm'' (exec_hides ''HAS_KVM'' kvm)) (\<lambda>_.
     bar_bind (m2_exec v w [''/bin/sh'', ''-c'', m2_probe v w] 10) (\<lambda>aud.
     bar_check ''M2-no-audit'' (exec_hides ''HAS_HOST_JSONL'' aud))))))))))))))"

text \<open>
  What is done before the start: the repository and the working directory, or the end of the test.
  \<open>None\<close> when the search for the repository's root does not end.
\<close>

definition m2_work :: "'e m2_env \<Rightarrow> string \<Rightarrow> (verdict, string \<times> string) result" where
  "m2_work v repo =
     (if list_ex (\<lambda>p. se_err (m2_start v) SStat p \<noteq> None)
          [path_join [repo, ''guest/artifacts/vmlinux-6.1.102''], path_join [repo, ''guest/artifacts/rootfs.ext4'']]
      then Inl (FailedAt ''missing'')
      else case m2_tmp v of Inl err \<Rightarrow> Inl (FailedAt ''tmp'') | Inr work \<Rightarrow> Inr (repo, work))"

definition m2_setup :: "'e m2_env \<Rightarrow> (verdict, string \<times> string) result option" where
  "m2_setup v =
     (case kvmReadable (m2_kvm v) of Some err \<Rightarrow> Some (Inl (Skipped err))
      | None \<Rightarrow> map_option (m2_work v)
          (repoRoot (se_getenv (m2_start v)) (\<lambda>p. se_err (m2_start v) SStat p = None) (m2_wd v)))"

text \<open>The test of a world that runs: a bar that fails stops the world, and so does the end of the bars.\<close>

definition m2_world :: "'e m2_env \<Rightarrow> World \<Rightarrow> host \<times> 'e \<Rightarrow> verdict \<times> host \<times> 'e" where
  "m2_world v w st =
     (case m2_bars v w st of
        (Inl x, h2, e2) \<Rightarrow> (ended x, World_Stop w h2, e2)
      | (Inr u, h2, e2) \<Rightarrow>
          (let h3 = World_Stop w h2; e3 = m2_sleep v 500 e2 in
           (if leftoverOur (m2_alive v (h3, e3)) (CmdPid w) \<noteq> [] then FailedAt ''M2-orphan'' else AllPass, h3, e3)))"

definition m2_run :: "'e m2_env \<Rightarrow> host \<times> 'e \<Rightarrow> (verdict \<times> host \<times> 'e) option" where
  "m2_run v st =
     (case m2_setup v of None \<Rightarrow> None | Some (Inl vd) \<Rightarrow> Some (vd, st)
      | Some (Inr (repo, work)) \<Rightarrow>
          Some (case World_Start (m2_lib v) (m2_start v) (m2_opts v repo work) (fst st) of
            (Inl err, h1) \<Rightarrow> (FailedAt ''M2-boot'', h1, snd st)
          | (Inr w, h1) \<Rightarrow> m2_world v w (h1, snd st)))"

section \<open>Lemmas\<close>

interpretation same_host: effects "\<lambda>s t. fst t = fst s"
  by unfold_locales simp_all

lemma in_guest_host: "keeps (\<lambda>s t. fst t = fst s) (in_guest f)"
  by (simp add: keeps_def in_guest_def bar_call_def split_def Let_def)

lemma in_guest_Inr: "in_guest f st = (Inr x, st') \<longleftrightarrow> x = fst (f (snd st)) \<and> st' = (fst st, snd (f (snd st)))"
  by (auto simp: in_guest_def bar_call_def split_def Let_def)

lemma m2_bars_host: "keeps (\<lambda>s t. fst t = fst s) (m2_bars v w)"
  unfolding m2_bars_def m2_exec_def m2_bare_def
  by (rule same_host.keeps_bind in_guest_host same_host.keeps_simple)+

lemma m2_world_host:
  assumes "m2_world v w (h, e) = (vd, h', e')"
  shows "h' = World_Stop w h"
proof -
  obtain q h2 e2 where b: "m2_bars v w (h, e) = (q, h2, e2)" by (rule prod_cases3)
  have "h2 = h" using keepsD [OF m2_bars_host b] by simp
  with assms b show ?thesis by (cases q) (simp_all add: m2_world_def Let_def)
qed

lemma m2_world_pass:
  assumes "m2_world v w (h, e) = (AllPass, h', e')"
  shows "w_Engine w = ''jailer'' \<and> exec_shows ''hello.txt'' (fst (World_Exec (m2_vsock v w) w [''/usr/bin/ls'', ''/workspace''] 20 e))
    \<and> \<not> (0 < CmdPid w \<and> m2_alive v (h', e') (CmdPid w))"
proof -
  obtain q h2 e2 where b: "m2_bars v w (h, e) = (q, h2, e2)" by (rule prod_cases3)
  have "q = Inr ()" using assms b by (cases q) (simp_all add: m2_world_def)
  then have ok: "m2_bars v w (h, e) = (Inr (), h2, e2)" using b by simp
  have "w_Engine w = ''jailer''" using ok unfolding m2_bars_def by (elim bar_bindE) (simp only: bar_check_Inr)
  moreover have "exec_shows ''hello.txt'' (fst (World_Exec (m2_vsock v w) w [''/usr/bin/ls'', ''/workspace''] 20 e))"
    using ok unfolding m2_bars_def m2_exec_def by (elim bar_bindE) (simp only: bar_check_Inr in_guest_Inr fst_conv snd_conv)
  ultimately
  show ?thesis using assms ok by (auto simp: m2_world_def Let_def leftoverOur_def split: if_splits)
qed

lemma m2_no_panic: "no_panic (m2_bars v w)"
  unfolding m2_bars_def m2_exec_def m2_bare_def in_guest_def by (rule no_panic_bind no_panic_simple)+

lemma m2_world_status: "exit_status (fst (m2_world v w s)) \<noteq> 2"
proof -
  obtain q h2 e2 where b: "m2_bars v w s = (q, h2, e2)" by (rule prod_cases3)
  show ?thesis using b no_panicD [OF m2_no_panic] by (cases q) (fastforce simp: m2_world_def, simp add: m2_world_def Let_def)
qed

lemma m2_setup_cases:
  assumes "m2_setup v = Some r"
  obtains (not_run) err where "kvmReadable (m2_kvm v) = Some err" "r = Inl (Skipped err)"
  | (fails) b where "kvmReadable (m2_kvm v) = None" "r = Inl (FailedAt b)"
  | (ready) repo work where "kvmReadable (m2_kvm v) = None" "r = Inr (repo, work)"
proof (cases "kvmReadable (m2_kvm v)")
  case (Some err)
  with assms not_run show thesis by (simp add: m2_setup_def)
next
  case None
  with assms obtain repo where r: "r = m2_work v repo" by (auto simp: m2_setup_def)
  show thesis
  proof (cases r)
    case (Inl x)
    then have "x \<in> {FailedAt ''missing'', FailedAt ''tmp''}" using r by (auto simp: m2_work_def split: if_splits sum.splits)
    with Inl None fails show thesis by auto
  next
    case (Inr x)
    with None ready show thesis by (cases x) simp
  qed
qed

text \<open>
  C17: The test of a world leaves nothing on the host and passes only on what it is to show. However it
  ends, the host holds what it held before; status 2 means exactly that \<open>/dev/kvm\<close> cannot be read; and when it
  passes, a privileged start went through the jailer, the jailed listing of the workspace ended with 0
  and showed its file, and after the stop signal 0 no longer reaches the VMM.
\<close>

theorem m2_leaves_nothing:
  assumes "m2_run v (h, e) = Some (vd, h', e')"
  shows "h' = h \<and> (exit_status vd = 2 \<longleftrightarrow> kvmReadable (m2_kvm v) \<noteq> None)
    \<and> (if vd = AllPass then \<exists>repo work w h1. World_Start (m2_lib v) (m2_start v) (m2_opts v repo work) h = (Inr w, h1)
        \<and> se_euid (m2_start v) = 0 \<and> w_Engine w = ''jailer''
        \<and> exec_shows ''hello.txt'' (fst (World_Exec (m2_vsock v w) w [''/usr/bin/ls'', ''/workspace''] 20 e))
        \<and> \<not> (0 < CmdPid w \<and> m2_alive v (h', e') (CmdPid w)) else True)"
proof -
  obtain r where r: "m2_setup v = Some r" using assms by (auto simp: m2_run_def split: option.splits)
  then show ?thesis
  proof (cases rule: m2_setup_cases)
    case (ready repo work)
    obtain q h1 where st: "World_Start (m2_lib v) (m2_start v) (m2_opts v repo work) h = (q, h1)" by (rule prod.exhaust)
    show ?thesis
    proof (cases q)
      case (Inl err)
      with assms r ready st World_Start_host(1) [of "m2_lib v"] show ?thesis by (auto simp: m2_run_def)
    next
      case (Inr w)
      have w: "m2_world v w (h1, e) = (vd, h', e')" using assms r ready st Inr by (simp add: m2_run_def)
      have "h' = h" using m2_world_host [OF w] World_Start_host(2) [OF st [unfolded Inr]] World_Stop_footprint by simp
      moreover have "exit_status vd \<noteq> 2" using m2_world_status [of v w "(h1, e)"] w by simp
      ultimately show ?thesis
        using ready(1) st Inr m2_world_pass [of v w h1 e h' e'] w World_Start_ok [OF st [unfolded Inr]] by (auto split: if_splits)
    qed
  qed (use assms r in \<open>auto simp: m2_run_def\<close>)
qed

text \<open>A KVM host on which everything goes well, and a guest that answers every command alike.\<close>

definition good_reply :: string where
  "good_reply = render (execResp_tree 0 ''hello.txt 0 fail'' [])"

definition good_guest :: "unit transport" where
  "good_guest = \<lparr>tp_do = (\<lambda>c e. (Inr \<lparr>hp_code = 200, hp_status = [], hp_body = good_reply\<rparr>, e)), tp_url = (\<lambda>u. None), tp_json = (\<lambda>b. [])\<rparr>"

definition good_log :: string where
  "good_log = ''decoy_open'' @ kind_text ''start''"

definition good_host :: "unit m2_env" where
  "good_host = \<lparr>m2_kvm = (None, None), m2_start = sudo_env\<lparr>se_getenv := (\<lambda>k. if k = ''SUDO_UID'' then ''1000'' else if k = ''BACKLOT_ROOT'' then ''/b''
       else if k = ''BACKLOT_FC_WAITKVM'' then ''/b/waitkvm'' else [])\<rparr>,
     m2_lib = (\<lambda>s. []), m2_wd = ''/'', m2_tmp = Inr ''/tmp/m2'', m2_vsock = (\<lambda>w. good_guest),
     m2_events = (\<lambda>p e. good_log), m2_sleep = (\<lambda>n e. e), m2_alive = (\<lambda>s p. False), m2_uquote = (\<lambda>r. r)\<rparr>"

lemma good_reply_result: "unmarshal_with result_of good_reply = Some \<lparr>xr_ExitCode = 0, xr_Stdout = ''hello.txt 0 fail'', xr_Stderr = []\<rparr>"
  unfolding good_reply_def by (rule result_read(2)) (simp_all add: ascii_valid_utf8 ascii_string_def is_ascii_def)

lemma good_exec: "doExec good_guest url argv t e = (Inr \<lparr>xr_ExitCode = 0, xr_Stdout = ''hello.txt 0 fail'', xr_Stderr = []\<rparr>, e)"
  by (simp add: doExec_def send_def good_guest_def good_reply_result)

lemma good_texts:
  "contains ''hello.txt 0 fail'' ''hello.txt''" "contains ''hello.txt 0 fail'' ''0 fail''" "\<not> contains ''hello.txt 0 fail'' ''HAS_KVM''"
  "\<not> contains ''hello.txt 0 fail'' ''HAS_HOST_JSONL''"
  by (simp_all add: contains_def)

lemma good_log_ok: "decoy_logged good_log" "start_exit_logged good_log"
  by (simp_all add: decoy_logged_def start_exit_logged_def good_log_def kind_text_def quoted_def contains_def)

lemma good_bars: "w_Engine w = ''jailer'' \<Longrightarrow> m2_bars good_host w (h, ()) = (Inr (), h, ())"
  by (simp add: m2_bars_def bar_bind_def bar_check_def bar_defs m2_exec_def m2_bare_def in_guest_def World_Exec_def World_BareExec_def
      good_host_def good_exec exec_shows_def exec_hides_def inner_ok_def good_texts good_log_ok)

lemma good_start: "\<exists>w h'. World_Start lib (m2_start good_host) (m2_opts good_host repo ''/tmp/m2'') h = (Inr w, h')"
  by (simp add: World_Start_def start_folder_def prepare_jail_def launch_def startVMM_def good_host_def sudo_env_def m2_opts_def
      resolveWaitKVM_def dropIDs_def drop_uid_def drop_gid_def atoi_1000 copyFile_def chownTree_def prefix_err_def Let_def env_or_def
      effective_cid_def overlayHostKvm_def waitHealth_def)

theorem m2_leaves_nothing_witness: "m2_run good_host ({#}, ()) = Some (AllPass, {#}, ())"
proof -
  have s: "m2_setup good_host = Some (Inr (''/b'', ''/tmp/m2''))"
    by (simp add: m2_setup_def m2_work_def good_host_def kvmReadable_def repoRoot_def sudo_env_def)
  obtain w h1 where w: "World_Start (m2_lib good_host) (m2_start good_host) (m2_opts good_host ''/b'' ''/tmp/m2'') {#} = (Inr w, h1)"
    using good_start by blast
  have "se_euid (m2_start good_host) = 0" by (simp add: good_host_def sudo_env_def)
  then have "w_Engine w = ''jailer''" using World_Start_ok [OF w] by simp
  moreover have "m2_alive good_host x p = False" "m2_sleep good_host n u = u" for x p n u by (simp_all add: good_host_def)
  ultimately obtain h' where "m2_run good_host ({#}, ()) = Some (AllPass, h', ())"
    using s w good_bars [of w h1] by (simp add: m2_run_def m2_world_def leftoverOur_def Let_def)
  with m2_leaves_nothing [OF this] show ?thesis by blast
qed

end
