(* ===== verification/M3Test.thy ===== *)
theory M3Test
  imports Bars M2Test BossServer RouterServer
begin

text \<open>
  \<open>lot/cmd/m3test\<close>: the acceptance test of the fleet. In one process it serves a desk, a lot-boss and a router
  over them, and then acts as an agent of the router, with a look into lot-boss (\<open>SlotMeta\<close>, \<open>LiveIDs\<close>,
  \<open>StopAll\<close>). Its state is the router's over lot-boss's; the rest of the world is \<open>'d\<close>, the desk included.
  What it prints beside the verdict and the removal of its working directory are not modelled.
\<close>

type_synonym 'd m3_state = "'d boss_state rt_state"

section \<open>Helpers\<close>

definition m3_alt :: "string \<Rightarrow> string" where
  "m3_alt file = ''/home/pixnbits/projects/backlot/feature/m2.1-jailer/guest/artifacts/'' @ file"

text \<open>The artifacts in the repository, or else at another place if they are there.\<close>

definition resolveArtifact :: "(string \<Rightarrow> bool) \<Rightarrow> string \<Rightarrow> string \<Rightarrow> string" where
  "resolveArtifact stat repo file =
     (let p = path_join [repo, ''guest/artifacts/'' @ file] in if \<not> stat p \<and> stat (m3_alt file) then m3_alt file else p)"

definition resolveArtifacts :: "(string \<Rightarrow> bool) \<Rightarrow> string \<Rightarrow> (string, string \<times> string) result" where
  "resolveArtifacts stat repo =
     (let vmlinux = resolveArtifact stat repo ''vmlinux-6.1.102''; rootfs = resolveArtifact stat repo ''rootfs.ext4'' in
      if \<not> stat vmlinux then Inl (''missing '' @ vmlinux)
      else if \<not> stat rootfs then Inl (''missing '' @ rootfs) else Inr (vmlinux, rootfs))"

text \<open>
  A reply read as \<open>map[string]any\<close>, the decoder's error dropped: text that is not JSON and values that are
  no objects leave the map empty.
\<close>

definition reply_map :: "string \<Rightarrow> string \<rightharpoonup> jv" where
  "reply_map raw = (case parse_text raw of Some (JObj ms) \<Rightarrow> go_map ms | _ \<Rightarrow> Map.empty)"

text \<open>\<open>str\<close>: \<open>sprint\<close> is \<open>fmt.Sprint\<close> of a number, a slice or a map.\<close>

definition go_str :: "(jv \<Rightarrow> string) \<Rightarrow> jv \<Rightarrow> string" where
  "go_str sprint v = (case v of JNull \<Rightarrow> [] | JStr raw \<Rightarrow> unquote raw | JTrue \<Rightarrow> ''true'' | JFalse \<Rightarrow> ''false'' | _ \<Rightarrow> sprint v)"

text \<open>
  The integer a JSON number becomes as a \<open>float64\<close> converted to \<open>int\<close>. Integers up to \<open>2^53\<close> are exact; \<open>fint\<close> gives
  the rest, \<open>None\<close> for a number out of range, which the decoder turns into nil.
\<close>

definition float_int :: "(string \<Rightarrow> int option) \<Rightarrow> string \<Rightarrow> int option" where
  "float_int fint t = (case atoi t of Some n \<Rightarrow> if \<bar>n\<bar> \<le> 2 ^ 53 then Some n else fint t | None \<Rightarrow> fint t)"

definition intField :: "(string \<Rightarrow> int option) \<Rightarrow> (string \<rightharpoonup> jv) \<Rightarrow> string \<Rightarrow> int" where
  "intField fint m k = (case m k of Some (JNum t) \<Rightarrow> (case float_int fint t of Some n \<Rightarrow> n | None \<Rightarrow> - 999) | _ \<Rightarrow> - 999)"

definition eventsHaveKind :: "string \<Rightarrow> string \<Rightarrow> bool" where
  "eventsHaveKind body kind \<longleftrightarrow> contains body (kind_text kind) \<or> contains body (quoted ''kind'' @ '': '' @ quoted kind)"

definition truncate :: "string \<Rightarrow> nat \<Rightarrow> string" where
  "truncate s n = (if length s \<le> n then s else take n s @ ''...'')"

section \<open>The agent's calls\<close>

type_synonym call_result = "(string, (string \<rightharpoonup> jv) \<times> nat) result"

definition postJSON :: "'s transport \<Rightarrow> string \<Rightarrow> string \<Rightarrow> 's \<Rightarrow> call_result \<times> 's" where
  "postJSON tp url body s =
     (case send tp ''POST'' url body s of
        (BadRequest m, s') \<Rightarrow> (Inl m, s')
      | (NoReply m, s') \<Rightarrow> (Inl m, s')
      | (Reply r, s') \<Rightarrow> (Inr (reply_map (hp_body r), hp_code r), s'))"

definition execWorld :: "'s transport \<Rightarrow> string \<Rightarrow> string \<Rightarrow> string list \<Rightarrow> int \<Rightarrow> 's \<Rightarrow> call_result \<times> 's" where
  "execWorld tp base i argv timeout s =
     (case send tp ''POST'' (base @ ''/v1/worlds/'' @ i @ ''/exec'') (execBody argv timeout) s of
        (BadRequest m, s') \<Rightarrow> (Inl m, s')
      | (NoReply m, s') \<Rightarrow> (Inl m, s')
      | (Reply r, s') \<Rightarrow> (Inr (reply_map (hp_body r), hp_code r), s'))"

definition deleteWorld :: "'s transport \<Rightarrow> string \<Rightarrow> string \<Rightarrow> 's \<Rightarrow> (string, nat) result \<times> 's" where
  "deleteWorld tp base i s =
     (case send tp ''DELETE'' (base @ ''/v1/worlds/'' @ i) [] s of
        (BadRequest m, s') \<Rightarrow> (Inl m, s')
      | (NoReply m, s') \<Rightarrow> (Inl m, s')
      | (Reply r, s') \<Rightarrow> (Inr (hp_code r), s'))"

definition getEvents :: "'s transport \<Rightarrow> string \<Rightarrow> string \<Rightarrow> 's \<Rightarrow> (string, string) result \<times> 's" where
  "getEvents tp base i s =
     (case send tp ''GET'' (base @ ''/v1/worlds/'' @ i @ ''/events'') [] s of
        (BadRequest m, s') \<Rightarrow> (Inl m, s')
      | (NoReply m, s') \<Rightarrow> (Inl m, s')
      | (Reply r, s') \<Rightarrow>
          (if hp_code r \<noteq> 200 then Inl (''status '' @ show_nat (hp_code r) @ '': '' @ hp_body r) else Inr (hp_body r), s'))"

text \<open>The code of a reply whose error is dropped.\<close>

definition reply_code :: "call_result \<Rightarrow> nat" where
  "reply_code r = (case r of Inl e \<Rightarrow> 0 | Inr (m, code) \<Rightarrow> code)"

section \<open>The environment\<close>

text \<open>
  \<open>m3_front\<close> is the client of a router that is being served, \<open>m3_engine\<close> and \<open>m3_desk\<close> are the router's clients of
  lot-boss and of the desk, \<open>m3_net\<close> lot-boss's own; \<open>m3_store\<close> opens the desk's store, \<open>m3_listen\<close> gives the
  address of the desk (0), of lot-boss (1) and of the router (2). \<open>m3_order\<close> is the order in which a range over
  lot-boss's map meets its keys, which Go chooses anew each time, \<open>m3_sleep\<close> what happens in a pause, \<open>m3_alive\<close> the
  answer of signal 0.
\<close>

record 'd m3_env =
  m3_kvm :: "string option \<times> string option"
  m3_getenv :: environ
  m3_wd :: string
  m3_stat :: "string \<Rightarrow> bool"
  m3_tmp :: "(string, string) result"
  m3_store :: "string \<Rightarrow> 'd \<Rightarrow> string option \<times> 'd"
  m3_listen :: "nat \<Rightarrow> (string, string) result"
  m3_os :: boss_os
  m3_engine :: "'d boss_state transport"
  m3_desk :: "'d boss_state transport"
  m3_front :: "'d boss_state RouterServer \<Rightarrow> 'd m3_state transport"
  m3_net :: "'d boss_net"
  m3_order :: "nat \<Rightarrow> string list \<Rightarrow> string list"
  m3_sleep :: "nat \<Rightarrow> 'd m3_state \<Rightarrow> 'd m3_state"
  m3_alive :: "'d m3_state \<Rightarrow> nat \<Rightarrow> bool"
  m3_fint :: "string \<Rightarrow> int option"
  m3_sprint :: "jv \<Rightarrow> string"

abbreviation the_boss :: "'d m3_state \<Rightarrow> Boss" where
  "the_boss s \<equiv> fst (snd s)"

definition m3_live :: "'d m3_env \<Rightarrow> nat \<Rightarrow> ('d m3_state, string list) bar" where
  "m3_live v n = bar_get (\<lambda>s. LiveIDs (m3_order v n) (the_boss s))"

definition m3_pause :: "'d m3_env \<Rightarrow> nat \<Rightarrow> ('d m3_state, unit) bar" where
  "m3_pause v n = bar_do (m3_sleep v n)"

definition m3_exec :: "'d m3_state transport \<Rightarrow> string \<Rightarrow> string \<Rightarrow> string list \<Rightarrow> int \<Rightarrow> ('d m3_state, call_result) bar" where
  "m3_exec tp base i argv t = bar_call (execWorld tp base i argv t)"

definition m3_post :: "'d m3_state transport \<Rightarrow> string \<Rightarrow> ('d m3_state, call_result) bar" where
  "m3_post tp base = bar_call (postJSON tp (base @ ''/v1/worlds'') (render (JObj [(''profile'', jstr ''demo'')])))"

definition m3_events :: "'d m3_state transport \<Rightarrow> string \<Rightarrow> string \<Rightarrow> ('d m3_state, (string, string) result) bar" where
  "m3_events tp base i = bar_call (getEvents tp base i)"

text \<open>An exec that ended with 0, and one whose output also shows a text.\<close>

definition exec_zero :: "'d m3_env \<Rightarrow> call_result \<Rightarrow> bool" where
  "exec_zero v r = (case r of Inl e \<Rightarrow> False | Inr (m, code) \<Rightarrow> code = 200 \<and> intField (m3_fint v) m ''exit_code'' = 0)"

definition call_stdout :: "'d m3_env \<Rightarrow> call_result \<Rightarrow> string" where
  "call_stdout v r = (case r of Inl e \<Rightarrow> [] | Inr (m, code) \<Rightarrow> go_str (m3_sprint v) (any_get m ''stdout''))"

definition list_files :: "string list" where
  "list_files = [''/usr/bin/ls'', ''/workspace'']"

definition cat_canary :: "string list" where
  "cat_canary = [''/usr/bin/cat'', ''/opt/grok/CANARY.txt'']"

definition probe_kvm :: "string list" where
  "probe_kvm = [''/bin/sh'', ''-c'', ''if [ -e /dev/kvm ]; then echo HAS_KVM; else echo NO_KVM; fi'']"

section \<open>The bars\<close>

text \<open>M3-lease-3: three leases, each slot with a live jailed VMM and a CID of its own, and no fourth.\<close>

fun m3_leases :: "'d m3_env \<Rightarrow> 'd m3_state transport \<Rightarrow> string \<Rightarrow> nat \<Rightarrow> ('d m3_state, string list) bar" where
  "m3_leases v tp base 0 = bar_return []"
| "m3_leases v tp base (Suc n) =
     bar_bind (m3_post tp base) (\<lambda>r. case r of
         Inl e \<Rightarrow> bar_fail (Fails ''M3-lease-3'')
       | Inr (info, code) \<Rightarrow>
           bar_bind (bar_check ''M3-lease-3'' (code = 201)) (\<lambda>_.
           bar_bind (m3_leases v tp base n) (\<lambda>ids.
           bar_return (go_str (m3_sprint v) (any_get info ''id'') # ids))))"

fun m3_slots :: "'d m3_env \<Rightarrow> string list \<Rightarrow> u32 list \<Rightarrow> ('d m3_state, nat list) bar" where
  "m3_slots v [] cids = bar_return []"
| "m3_slots v (i # ids) cids =
     bar_bind (bar_get (\<lambda>s. SlotMeta i (the_boss s))) (\<lambda>meta. case meta of
         None \<Rightarrow> bar_fail (Fails ''M3-lease-3'')
       | Some (jail, pid, cid, eng) \<Rightarrow>
           bar_bind (bar_check ''M3-lease-3'' (0 < pid \<and> eng = ''jailer'' \<and> cid \<notin> set cids)) (\<lambda>_.
           bar_bind (bar_get (\<lambda>s. m3_alive v s pid)) (\<lambda>ok.
           bar_bind (bar_check ''M3-lease-3'' ok) (\<lambda>_.
           bar_bind (m3_slots v ids (cid # cids)) (\<lambda>pids. bar_return (pid # pids))))))"

definition m3_lease3 :: "'d m3_env \<Rightarrow> 'd m3_state transport \<Rightarrow> string \<Rightarrow> ('d m3_state, string list \<times> nat list) bar" where
  "m3_lease3 v tp base =
     bar_bind (m3_leases v tp base 3) (\<lambda>ids.
     bar_bind (m3_slots v ids []) (\<lambda>pids.
     bar_bind (m3_post tp base) (\<lambda>fourth.
     bar_bind (bar_check ''M3-lease-3'' (reply_code fourth = 503 \<or> reply_code fourth = 502)) (\<lambda>_.
     bar_return (ids, pids)))))"

definition m3_execs :: "'d m3_env \<Rightarrow> 'd m3_state transport \<Rightarrow> string \<Rightarrow> string list \<Rightarrow> ('d m3_state, unit) bar" where
  "m3_execs v tp base ids = bar_each (\<lambda>i.
     bar_bind (m3_exec tp base i list_files 30) (\<lambda>r.
     bar_check ''M3-exec'' (exec_zero v r \<and> contains (call_stdout v r) ''hello.txt''))) ids"

text \<open>M3-isolation and M3-decoy: what A does is on the desk under A and not under B, and an unknown world is refused.\<close>

definition m3_isolation :: "'d m3_env \<Rightarrow> 'd m3_state transport \<Rightarrow> string \<Rightarrow> string \<Rightarrow> string \<Rightarrow> ('d m3_state, unit) bar" where
  "m3_isolation v tp base a b =
     bar_bind (m3_exec tp base a cat_canary 30) (\<lambda>_.
     bar_bind (m3_pause v 800) (\<lambda>_.
     bar_bind (m3_events tp base a) (\<lambda>evA. case evA of Inl e \<Rightarrow> bar_fail (Fails ''M3-isolation'') | Inr textA \<Rightarrow>
     bar_bind (m3_events tp base b) (\<lambda>evB. case evB of Inl e \<Rightarrow> bar_fail (Fails ''M3-isolation'') | Inr textB \<Rightarrow>
     bar_bind (bar_check ''M3-isolation'' (eventsHaveKind textA ''decoy_open'')) (\<lambda>_.
     bar_bind (bar_check ''M3-isolation'' (\<not> eventsHaveKind textB ''decoy_open'')) (\<lambda>_.
     bar_bind (m3_exec tp base ''no-such-world'' [''/bin/true''] 10) (\<lambda>rX.
     bar_bind (bar_check ''M3-isolation'' (reply_code rX = 404 \<or> reply_code rX = 502)) (\<lambda>_.
     bar_bind (m3_exec tp base b [''/bin/true''] 20) (\<lambda>rB.
     bar_bind (bar_check ''M3-isolation'' (exec_zero v rB)) (\<lambda>_.
     bar_check ''M3-decoy'' (eventsHaveKind textA ''decoy_open'')))))))))))"

definition m3_scale_down :: "'d m3_env \<Rightarrow> 'd m3_state transport \<Rightarrow> string \<Rightarrow> string \<Rightarrow> nat \<Rightarrow> string list \<Rightarrow> ('d m3_state, unit) bar" where
  "m3_scale_down v tp base a pidA others =
     bar_bind (bar_call (deleteWorld tp base a)) (\<lambda>r.
     bar_bind (bar_check ''M3-scale-down'' (r = Inr 200)) (\<lambda>_.
     bar_bind (m3_pause v 500) (\<lambda>_.
     bar_bind (bar_get (\<lambda>s. m3_alive v s pidA)) (\<lambda>alive.
     bar_bind (bar_check ''M3-scale-down'' (\<not> alive)) (\<lambda>_.
     bar_each (\<lambda>i. bar_bind (m3_exec tp base i list_files 30) (\<lambda>r. bar_check ''M3-scale-down'' (exec_zero v r))) others)))))"

definition m3_demand :: "'d m3_env \<Rightarrow> 'd m3_state transport \<Rightarrow> string \<Rightarrow> ('d m3_state, unit) bar" where
  "m3_demand v tp base =
     bar_bind (m3_post tp base) (\<lambda>new.
     bar_bind (bar_check ''M3-demand'' (reply_code new = 201)) (\<lambda>_.
     bar_bind (m3_live v 0) (\<lambda>live.
     bar_bind (bar_check ''M3-demand'' (length live \<le> 3)) (\<lambda>_.
     bar_bind (m3_post tp base) (\<lambda>beyond.
     bar_check ''M3-demand'' (reply_code beyond \<noteq> 201))))))"

definition m3_no_kvm :: "'d m3_env \<Rightarrow> 'd m3_state transport \<Rightarrow> string \<Rightarrow> ('d m3_state, unit) bar" where
  "m3_no_kvm v tp base =
     bar_bind (m3_live v 1) (\<lambda>live. bar_each (\<lambda>i.
     bar_bind (m3_exec tp base i probe_kvm 15) (\<lambda>r.
     bar_check ''M3-no-kvm-guest'' (reply_code r = 200 \<and> \<not> contains (call_stdout v r) ''HAS_KVM''))) live)"

text \<open>
  M3-tenant-jail: a tenant that asks for no jail. The first of no live worlds is a panic, and so is a request
  that cannot be built, whose error is dropped.
\<close>

definition opt_out_body :: string where
  "opt_out_body = render (JObj [(''argv'', JArr (map jstr cat_canary)), (''jail'', JFalse), (''timeout'', jint 30)])"

definition m3_jail_reply :: "'d m3_env \<Rightarrow> 'd m3_state transport \<Rightarrow> string \<Rightarrow> string \<Rightarrow> http_reply \<Rightarrow> ('d m3_state, unit) bar" where
  "m3_jail_reply v tp base i p =
     (let r = Inr (reply_map (hp_body p), hp_code p) in
      bar_bind (bar_check ''M3-tenant-jail'' (exec_zero v r \<and> contains (call_stdout v r) ''CANARY'')) (\<lambda>_.
      bar_bind (m3_pause v 600) (\<lambda>_.
      bar_bind (m3_events tp base i) (\<lambda>ev.
      let text = (case ev of Inl e \<Rightarrow> [] | Inr t \<Rightarrow> t) in
      bar_check ''M3-tenant-jail'' (eventsHaveKind text ''decoy_open'' \<or> eventsHaveKind text ''start'')))))"

definition m3_tenant_jail :: "'d m3_env \<Rightarrow> 'd m3_state transport \<Rightarrow> string \<Rightarrow> ('d m3_state, unit) bar" where
  "m3_tenant_jail v tp base =
     bar_bind (m3_live v 2) (\<lambda>live. case live of [] \<Rightarrow> bar_fail Panics | i # _ \<Rightarrow>
     bar_bind (bar_call (send tp ''POST'' (base @ ''/v1/worlds/'' @ i @ ''/exec'') opt_out_body)) (\<lambda>sent. case sent of
         BadRequest m \<Rightarrow> bar_fail Panics
       | NoReply m \<Rightarrow> bar_fail (Fails ''M3-tenant-jail'')
       | Reply p \<Rightarrow> m3_jail_reply v tp base i p))"

definition m3_bars :: "'d m3_env \<Rightarrow> 'd m3_state transport \<Rightarrow> string \<Rightarrow> ('d m3_state, unit) bar" where
  "m3_bars v tp base =
     bar_bind (m3_lease3 v tp base) (\<lambda>(ids, pids).
     bar_bind (m3_execs v tp base ids) (\<lambda>_.
     bar_bind (m3_isolation v tp base (ids ! 0) (ids ! 1)) (\<lambda>_.
     bar_bind (m3_scale_down v tp base (ids ! 0) (pids ! 0) [ids ! 1, ids ! 2]) (\<lambda>_.
     bar_bind (m3_demand v tp base) (\<lambda>_.
     bar_bind (m3_no_kvm v tp base) (\<lambda>_.
     m3_tenant_jail v tp base))))))"

section \<open>The test\<close>

definition m3_stop :: "'d m3_env \<Rightarrow> 'd m3_state \<Rightarrow> 'd m3_state" where
  "m3_stop v s = (fst s, StopAll (m3_order v 5) (m3_net v) (snd s))"

text \<open>Every bar that fails stops all worlds; a panic does not. M3-orphan is what follows the bars.\<close>

definition m3_fleet :: "'d m3_env \<Rightarrow> 'd m3_state transport \<Rightarrow> string \<Rightarrow> 'd m3_state \<Rightarrow> verdict \<times> 'd m3_state" where
  "m3_fleet v tp base s =
     (case m3_bars v tp base s of
        (Inl Panics, s1) \<Rightarrow> (Crashed, s1)
      | (Inl (Fails b), s1) \<Rightarrow> (FailedAt b, m3_stop v s1)
      | (Inr u, s1) \<Rightarrow>
          (let live = LiveIDs (m3_order v 3) (the_boss s1);
               pids = map (\<lambda>(jail, pid, cid, eng). pid) (List.map_filter (\<lambda>i. SlotMeta i (the_boss s1)) live);
               s2 = m3_sleep v 800 (m3_stop v s1)
           in (if list_ex (m3_alive v s2) pids then FailedAt ''M3-orphan'' else AllPass, s2)))"

definition m3_config :: "string \<Rightarrow> string \<Rightarrow> string \<Rightarrow> string \<Rightarrow> string \<Rightarrow> Config" where
  "m3_config repo vmlinux rootfs work deskURL =
     \<lparr>cf_MaxWorlds = 3, cf_WarmPool = 0, cf_RequireKVM = True, cf_KVMPath = [], cf_WorkDir = path_join [work, ''worlds''], cf_Kernel = vmlinux,
      cf_Rootfs = rootfs, cf_Firecracker = [], cf_Jailer = [], cf_WaitKVM = path_join [repo, ''runtime/bin/fc-waitkvm''],
      cf_DeskURL = deskURL, cf_RequireJailer = True\<rparr>"

text \<open>What must hold before anything is served; \<open>None\<close> when the search for the root does not end.\<close>

definition m3_work :: "'d m3_env \<Rightarrow> string \<Rightarrow> (verdict, string \<times> string \<times> string \<times> string) result" where
  "m3_work v repo =
     (case resolveArtifacts (m3_stat v) repo of Inl e \<Rightarrow> Inl (FailedAt ''artifacts'')
      | Inr (vmlinux, rootfs) \<Rightarrow> (case m3_tmp v of Inl e \<Rightarrow> Inl (FailedAt ''tmp'') | Inr work \<Rightarrow> Inr (repo, vmlinux, rootfs, work)))"

definition m3_setup :: "'d m3_env \<Rightarrow> (verdict, string \<times> string \<times> string \<times> string) result option" where
  "m3_setup v =
     (case kvmReadable (m3_kvm v) of Some e \<Rightarrow> Some (Inl (Skipped e))
      | None \<Rightarrow>
          if bo_euid (m3_os v) \<noteq> 0 then Some (Inl (Skipped ''need euid=0 for jailer''))
          else if m3_getenv v ''SUDO_UID'' = [] \<and> m3_getenv v ''PKEXEC_UID'' = [] then Some (Inl (Skipped ''SUDO_UID/PKEXEC_UID unset''))
          else map_option (m3_work v) (repoRoot (m3_getenv v) (m3_stat v) (m3_wd v)))"

text \<open>The three servers, and the test of the fleet once they are served. No state before there is a lot-boss.\<close>

definition m3_serve :: "'d m3_env \<Rightarrow> string \<times> string \<times> string \<times> string \<Rightarrow> host \<Rightarrow> 'd \<Rightarrow> verdict \<times> 'd m3_state option" where
  "m3_serve v w h d =
     (let (repo, vmlinux, rootfs, work) = w in
      case m3_store v (path_join [work, ''desk'']) d of
        (Some e, d1) \<Rightarrow> (FailedAt ''desk store'', None)
      | (None, d1) \<Rightarrow> (case m3_listen v 0 of Inl e \<Rightarrow> (FailedAt ''desk listen'', None)
        | Inr deskAddr \<Rightarrow>
            (let deskURL = ''http://'' @ deskAddr;
                 boss = NewBossConfig (m3_getenv v) (m3_config repo vmlinux rootfs work deskURL);
                 s = (NewStickyMap, boss, h, d1) in
             if \<not> EngineReady (m3_os v) boss then (FailedAt ''engine'', Some s)
             else (case m3_listen v 1 of Inl e \<Rightarrow> (FailedAt ''lot listen'', Some s)
               | Inr lotAddr \<Rightarrow>
                   (let rt = NewServer (Some (HTTPEngine_engine (''http://'' @ lotAddr, m3_engine v))) deskURL (m3_desk v) in
                    case m3_listen v 2 of Inl e \<Rightarrow> (FailedAt ''router listen'', Some s)
                    | Inr addr \<Rightarrow> (let (vd, s') = m3_fleet v (m3_front v rt) (''http://'' @ addr) s in (vd, Some s')))))))"

definition m3_run :: "'d m3_env \<Rightarrow> host \<Rightarrow> 'd \<Rightarrow> (verdict \<times> 'd m3_state option) option" where
  "m3_run v h d = (case m3_setup v of None \<Rightarrow> None | Some (Inl vd) \<Rightarrow> Some (vd, None) | Some (Inr w) \<Rightarrow> Some (m3_serve v w h d))"

end
