(* ===== verification/Fleet.thy ===== *)
theory Fleet
  imports M3Test BossTheorems Composition
begin

text \<open>
  The fleet as one system: a relation kept by every exchange with lot-boss is kept by the router's engine
  client, by the router, and by the agent of the router. The relation is \<open>boss_moves\<close>: the state is reached
  by lot-boss's own steps.
\<close>

section \<open>Through the engine client and the router\<close>

text \<open>A router's engine and desk whose every call keeps the relation.\<close>

locale backend = effects R for R :: "'e \<Rightarrow> 'e \<Rightarrow> bool" +
  fixes E :: "'e Engine" and D :: "'e transport"
  assumes available: "en_Available E e = (a, e') \<Longrightarrow> R e e'"
    and lease: "en_Lease E lr e = (b, e') \<Longrightarrow> R e e'"
    and get: "en_Get E i e = (b, e') \<Longrightarrow> R e e'"
    and heartbeat: "en_Heartbeat E i e = (c, e') \<Longrightarrow> R e e'"
    and exec: "en_Exec E i body e = (x, e') \<Longrightarrow> R e e'"
    and destroy: "en_Destroy E i e = (c, e') \<Longrightarrow> R e e'"
    and network: "en_SetNetwork E i phase e = (b, e') \<Longrightarrow> R e e'"
    and desk: "send D m url body e = (sn, e') \<Longrightarrow> R e e'"
begin

lemma lease_new_moves:
  assumes "rs_Engine s = E" "lease_new s lr session st = (p, st')"
  shows "R (snd st) (snd st')"
proof -
  obtain m e where st: "st = (m, e)" by (cases st)
  obtain ok e1 where a: "en_Available E e = (ok, e1)" by (rule prod.exhaust)
  obtain r e2 where l: "en_Lease E (lr\<lparr>lr_SessionID := session\<rparr>) e1 = (r, e2)" by (rule prod.exhaust)
  have "snd st' = (if ok then e2 else e1)"
    using assms st a l by (auto simp: lease_new_def split: sum.splits option.splits if_splits)
  then show ?thesis using available [OF a] trans [OF available [OF a] lease [OF l]] st by simp
qed

lemma lease_moves:
  assumes s: "rs_Engine s = E" and l: "rt_handleLease s r st = (p, st')"
  shows "R (snd st) (snd st')"
proof -
  obtain m e where st: "st = (m, e)" by (cases st)
  define lr where "lr = ApplyLeaseDefaults (snd (lease_of (snd (body_members (request_json r)))))"
  define session where "session = lease_session r lr"
  consider "st' = st" | m' where "lease_new s lr session (m', e) = (p, st')"
    | m' w i e1 where "en_Get E w e = (i, e1)" "st' = (m', e1) \<or> lease_new s lr session (m', e1) = (p, st')"
  proof (cases "session = []")
    case True
    then show thesis using that(1,2) l st unfolding rt_handleLease_def lr_def [symmetric] session_def [symmetric] Let_def
      by (auto simp: lr_def [symmetric] session_def [symmetric] split: if_splits)
  next
    case False
    show thesis
    proof (cases "Sticky_Get session m")
      case None
      with False show thesis using that(1,2) l st
        by (auto simp: rt_handleLease_def Let_def lr_def [symmetric] session_def [symmetric] split: if_splits)
    next
      case (Some w)
      obtain i e1 where g: "en_Get E w e = (i, e1)" by (rule prod.exhaust)
      with False Some show thesis using that(1) that(3) [OF g] l st s
        by (auto simp: rt_handleLease_def Let_def lr_def [symmetric] session_def [symmetric] split: if_splits sum.splits option.splits)
    qed
  qed
  then show ?thesis
  proof cases
    case 1
    then show ?thesis by (simp add: refl)
  next
    case 2
    from lease_new_moves [OF s this] st show ?thesis by simp
  next
    case (3 m' w i e1)
    from 3(2) show ?thesis
    proof
      assume n: "lease_new s lr session (m', e1) = (p, st')"
      from trans [OF get [OF 3(1)]] lease_new_moves [OF s n] st show ?thesis by simp
    qed (use get [OF 3(1)] st in simp)
  qed
qed

lemma rt_serve_moves:
  assumes s: "rs_Engine s = E" "rs_desk s = D" and r: "rt_serve env s r st = (p, st')"
  shows "R (snd st) (snd st')"
proof -
  note laws = available get heartbeat exec network destroy desk
  note moves = laws [unfolded s [symmetric]]
  have health: "rt_handleHealth s st = (p, st') \<Longrightarrow> R (snd st) (snd st')" for p st'
    by (auto simp: rt_handleHealth_def dest: moves split: prod.splits)
  have h: "rt_handleGet s i st = (p, st') \<Longrightarrow> R (snd st) (snd st')" "rt_handleHeartbeat s i st = (p, st') \<Longrightarrow> R (snd st) (snd st')"
    "rt_handleDelete s i st = (p, st') \<Longrightarrow> R (snd st) (snd st')" for i p st'
    by (auto simp: rt_handleGet_def rt_handleHeartbeat_def rt_handleDelete_def dest: moves split: prod.splits sum.splits option.splits)
  have x: "rt_handleExec s r i st = (p, st') \<Longrightarrow> R (snd st) (snd st')" "rt_handleNetwork env s r i st = (p, st') \<Longrightarrow> R (snd st) (snd st')"
    "rt_handleEvents s r i st = (p, st') \<Longrightarrow> R (snd st) (snd st')" for i p st'
    by (auto simp: rt_handleExec_def rt_handleNetwork_def rt_handleEvents_def Let_def intro: refl dest: moves
        split: prod.splits sum.splits option.splits if_splits sent.splits)
  show ?thesis using r lease_moves [OF s(1)] health h x refl
    by (auto simp: rt_serve_def Let_def split: dispatch.splits rt_handler.splits)
qed

end
text \<open>An engine over HTTP keeps what its transport keeps.\<close>

context served
begin

lemma http_backend:
  assumes "served R D"
  shows "backend R (HTTPEngine_engine (base, tp)) D"
proof (rule backend.intro [OF effects_axioms backend_axioms.intro])
  fix m url body e sn e'
  show "send D m url body e = (sn, e') \<Longrightarrow> R e e'" by (rule served.send_keeps [OF assms])
qed (auto simp: HTTPEngine_engine_def HTTPEngine_Available_def HTTPEngine_Lease_def HTTPEngine_Get_def HTTPEngine_Heartbeat_def
    HTTPEngine_Exec_def HTTPEngine_Destroy_def HTTPEngine_SetNetwork_def dest: send_keeps split: prod.splits sent.splits if_splits)

end

section \<open>lot-boss's steps\<close>

text \<open>A change of lot-boss's state that is a run of its steps, whatever else was going on.\<close>

definition boss_moves :: "(string \<Rightarrow> string) \<Rightarrow> (nat \<Rightarrow> nat \<Rightarrow> nat \<Rightarrow> nat) \<Rightarrow> 'd boss_state \<Rightarrow> 'd boss_state \<Rightarrow> bool" where
  "boss_moves lib fmul st st' \<longleftrightarrow> (\<forall>s. lot_state s = st \<longrightarrow> (\<exists>iss. runs_to lib fmul s iss st'))"

lemma boss_movesI: "(\<And>s. lot_state s = st \<Longrightarrow> \<exists>iss. runs_to lib fmul s iss st') \<Longrightarrow> boss_moves lib fmul st st'"
  unfolding boss_moves_def by iprover

lemma boss_movesD: "boss_moves lib fmul st st' \<Longrightarrow> lot_state s = st \<Longrightarrow> \<exists>iss. runs_to lib fmul s iss st'"
  unfolding boss_moves_def by iprover

lemma boss_moves_refl: "boss_moves lib fmul st st"
proof (rule boss_movesI)
  fix s :: "'a lot"
  assume "lot_state s = st"
  with runs_to_refl [of lib fmul s] show "\<exists>iss. runs_to lib fmul s iss st" by (intro exI [of _ "[]"]) simp
qed

lemma runs_toE:
  assumes "runs_to lib fmul s iss st"
  obtains s' where "lot_run lib fmul s s'" "lot_state s' = st" "lt_starting s' = lt_starting s" "lt_started s' = lt_started s"
    "lt_dying s' = lt_dying s" "lt_issued s' = lt_issued s @ iss"
  using assms unfolding runs_to_def by iprover

lemma boss_moves_trans:
  assumes "boss_moves lib fmul st tu" "boss_moves lib fmul tu uv"
  shows "boss_moves lib fmul st uv"
proof (rule boss_movesI)
  fix s :: "'a lot"
  assume "lot_state s = st"
  from boss_movesD [OF assms(1) this] obtain iss where "runs_to lib fmul s iss tu" by iprover
  then obtain s' where s': "lot_run lib fmul s s'" "lot_state s' = tu" "lt_starting s' = lt_starting s" "lt_started s' = lt_started s"
    "lt_dying s' = lt_dying s" "lt_issued s' = lt_issued s @ iss" by (rule runs_toE)
  from boss_movesD [OF assms(2) s'(2)] obtain jss where "runs_to lib fmul s' jss uv" by iprover
  then obtain t where t: "lot_run lib fmul s' t" "lot_state t = uv" "lt_starting t = lt_starting s'" "lt_started t = lt_started s'"
    "lt_dying t = lt_dying s'" "lt_issued t = lt_issued s' @ jss" by (rule runs_toE)
  have "runs_to lib fmul s (iss @ jss) uv"
    by (rule runs_toI [OF rtranclp_trans [OF s'(1) t(1)] t(2)]) (simp_all only: t s' append.assoc)
  then show "\<exists>iss. runs_to lib fmul s iss uv" ..
qed

interpretation moves: effects "boss_moves lib fmul" for lib fmul
  by unfold_locales (rule boss_moves_refl boss_moves_trans; assumption?)+

lemma serve_moves: "boss_serve v r st = (resp, st') \<Longrightarrow> boss_moves (bv_lib v) (bv_fmul v) st st'"
  by (rule boss_movesI) (simp add: boss_serve_runs)

lemma outside_moves: "boss_moves lib fmul (b, h, e) (b, h, e')"
  by (rule boss_movesI, rule exI, rule outside_runs)

lemma StopAll_moves: "boss_moves lib fmul st (StopAll order net st)"
  by (rule boss_movesI, rule exI [of _ "[]"]) (simp add: StopAll_runs)

section \<open>The servers as transports\<close>

text \<open>
  How a request reaches a server: \<open>wr_arrive\<close> is the request the server sees for a call, \<open>wr_lost\<close> a reply that does not
  come back although the request was served, for instance because the client's time was over.
\<close>

record 's wire =
  wr_arrive :: "http_call \<Rightarrow> Request"
  wr_lost :: "http_call \<Rightarrow> 's \<Rightarrow> string option"

text \<open>The usual reading of a URL: the path after the server's address, cut at the slashes.\<close>

definition by_path :: "string \<Rightarrow> http_call \<Rightarrow> Request" where
  "by_path base c = arrives c (tl (split_on (CHR ''/'') (before_sep (CHR ''?'') (drop (length base) (hc_url c)))))"

definition plain_id :: "string \<Rightarrow> bool" where
  "plain_id i \<longleftrightarrow> i \<noteq> [] \<and> CHR ''/'' \<notin> set i \<and> CHR ''?'' \<notin> set i"

lemma by_path_exec:
  assumes "plain_id i"
  shows "by_path base \<lparr>hc_method = m, hc_url = base @ ''/v1/worlds/'' @ i @ ''/exec'', hc_body = b\<rparr> =
    arrives \<lparr>hc_method = m, hc_url = base @ ''/v1/worlds/'' @ i @ ''/exec'', hc_body = b\<rparr> [''v1'', ''worlds'', i, ''exec'']"
proof -
  let ?p = "''/v1/worlds/'' @ i @ ''/exec''"
  have "list_all (\<lambda>c. c \<noteq> CHR ''?'') ?p" using assms by (auto simp: plain_id_def list_all_iff)
  then have q: "before_sep (CHR ''?'') ?p = ?p" unfolding before_sep_def by (rule takeWhile_list_all)
  have "split_on (CHR ''/'') (''/v1/worlds'' @ CHR ''/'' # i @ CHR ''/'' # ''exec'') =
      split_on (CHR ''/'') ''/v1/worlds'' @ split_on (CHR ''/'') i @ split_on (CHR ''/'') ''exec''"
    by (simp only: split_on_append_sep)
  then have "split_on (CHR ''/'') ?p = [[], ''v1'', ''worlds'', i, ''exec'']"
    using assms by (simp add: plain_id_def split_on_no_sep)
  with q show ?thesis by (simp add: by_path_def)
qed

text \<open>
  lot-boss behind its address. The environment of each request, clock, random bytes and system calls included,
  is read off the outside world, which \<open>nx\<close> moves on.
\<close>

definition boss_front :: "'d boss_state wire \<Rightarrow> ('d \<Rightarrow> 'd boss_env) \<Rightarrow> ('d \<Rightarrow> 'd) \<Rightarrow> 'd boss_state transport" where
  "boss_front wr en nx = \<lparr>tp_do = (\<lambda>c st.
       let (p, b, h, e) = boss_serve (en (snd (snd st))) (wr_arrive wr c) st; st' = (b, h, nx e) in
       (case wr_lost wr c st' of Some m \<Rightarrow> Inl m | None \<Rightarrow> Inr (answers p), st')),
     tp_url = (\<lambda>u. None), tp_json = (\<lambda>b. [])\<rparr>"

text \<open>The desk behind its address, served on the outside world alone.\<close>

definition desk_front :: "'d transport \<Rightarrow> 'd boss_state transport" where
  "desk_front tp = \<lparr>tp_do = (\<lambda>c (b, h, e). let (x, e') = tp_do tp c e in (x, b, h, e')), tp_url = tp_url tp, tp_json = tp_json tp\<rparr>"

text \<open>The router behind its address; a handler's panic closes the connection.\<close>

definition router_front :: "'e rt_state wire \<Rightarrow> environ \<Rightarrow> 'e RouterServer \<Rightarrow> 'e rt_state transport" where
  "router_front wr env rt = \<lparr>tp_do = (\<lambda>c st. case rt_serve env rt (wr_arrive wr c) st of
       (None, st') \<Rightarrow> (Inl ''EOF'', st')
     | (Some p, st') \<Rightarrow> (case wr_lost wr c st' of Some m \<Rightarrow> Inl m | None \<Rightarrow> Inr (answers p), st')),
     tp_url = (\<lambda>u. None), tp_json = (\<lambda>b. [])\<rparr>"

definition same_lib :: "(string \<Rightarrow> string) \<Rightarrow> (nat \<Rightarrow> nat \<Rightarrow> nat \<Rightarrow> nat) \<Rightarrow> ('d \<Rightarrow> 'd boss_env) \<Rightarrow> bool" where
  "same_lib lib fmul en \<longleftrightarrow> (\<forall>d. bv_lib (en d) = lib \<and> bv_fmul (en d) = fmul)"

lemma boss_front_moves:
  assumes "same_lib lib fmul en" "tp_do (boss_front wr en nx) c st = (x, st')"
  shows "boss_moves lib fmul st st'"
proof -
  obtain p b h e where s: "boss_serve (en (snd (snd st))) (wr_arrive wr c) st = (p, b, h, e)" by (rule prod_cases4)
  have "boss_moves lib fmul st (b, h, e)" using serve_moves [OF s] assms(1) by (simp add: same_lib_def)
  moreover have "st' = (b, h, nx e)" using assms(2) s by (simp add: boss_front_def Let_def)
  ultimately show ?thesis using boss_moves_trans [OF _ outside_moves] by simp
qed

lemma served_boss: "same_lib lib fmul en \<Longrightarrow> served (boss_moves lib fmul) (boss_front wr en nx)"
  by (rule served.intro [OF moves.effects_axioms served_axioms.intro]) (rule boss_front_moves)

lemma served_desk: "served (boss_moves lib fmul) (desk_front tp)"
  by (rule served.intro [OF moves.effects_axioms served_axioms.intro])
    (auto simp: desk_front_def outside_moves split: prod.splits)

lemma backend_boss:
  assumes "same_lib lib fmul en"
  shows "backend (boss_moves lib fmul) (HTTPEngine_engine (base, boss_front wr en nx)) (desk_front tp)"
  by (rule served.http_backend [OF served_boss [OF assms] served_desk])

text \<open>The agent's view: everything the router does to lot-boss is lot-boss's steps.\<close>

abbreviation fleet_moves :: "(string \<Rightarrow> string) \<Rightarrow> (nat \<Rightarrow> nat \<Rightarrow> nat \<Rightarrow> nat) \<Rightarrow> 'd m3_state \<Rightarrow> 'd m3_state \<Rightarrow> bool" where
  "fleet_moves lib fmul s t \<equiv> boss_moves lib fmul (snd s) (snd t)"

interpretation fleet: effects "fleet_moves lib fmul" for lib fmul
  by unfold_locales (rule boss_moves_refl boss_moves_trans; assumption?)+

lemma served_router:
  assumes "same_lib lib fmul en" "rs_Engine rt = HTTPEngine_engine (base, boss_front wr en nx)" "rs_desk rt = desk_front dk"
  shows "served (fleet_moves lib fmul) (router_front ar env rt)"
proof (rule served.intro [OF fleet.effects_axioms served_axioms.intro])
  fix c st x st'
  assume d: "tp_do (router_front ar env rt) c st = (x, st')"
  obtain p st1 where r: "rt_serve env rt (wr_arrive ar c) st = (p, st1)" by (rule prod.exhaust)
  have "st' = st1" using d r by (auto simp: router_front_def split: option.splits)
  then show "fleet_moves lib fmul st st'" using backend.rt_serve_moves [OF backend_boss [OF assms(1)] assms(2,3) r] by simp
qed

end
