(* ===== verification/M3Theorems.thy ===== *)
theory M3Theorems
  imports Fleet
begin

text \<open>
  The fleet's acceptance test run against the fleet: what it leaves behind however it ends, and what its
  passing shows.
\<close>

section \<open>Everything the test does is lot-boss's steps\<close>

text \<open>An agent of the router whose calls and pauses keep a relation.\<close>

locale agent = served R tp for R :: "'d m3_state \<Rightarrow> 'd m3_state \<Rightarrow> bool" and tp :: "'d m3_state transport" +
  fixes v :: "'d m3_env"
  assumes pause: "R s (m3_sleep v n s)"
begin

lemma calls:
  "keeps R (m3_post tp base)" "keeps R (m3_exec tp base i argv t)" "keeps R (m3_events tp base i)"
  "keeps R (bar_call (deleteWorld tp base i))" "keeps R (bar_call (send tp m url body))" "keeps R (m3_pause v n)" "keeps R (m3_live v n)"
  unfolding m3_post_def m3_exec_def m3_events_def m3_pause_def m3_live_def
  by (rule keeps_call keeps_do keeps_simple pause,
      (auto simp: postJSON_def execWorld_def getEvents_def deleteWorld_def dest: send_keeps split: prod.splits sent.splits)?)+

lemma m3_leases_keeps: "keeps R (m3_leases v tp base n)"
proof (induction n)
  case 0
  show ?case unfolding m3_leases.simps by (rule keeps_simple)
next
  case (Suc n)
  show ?case unfolding m3_leases.simps
    by (rule keeps_bind [OF calls(1)], split sum.split, intro allI impI conjI, rule keeps_simple, split prod.split, intro allI impI)
      (intro keeps_bind keeps_simple Suc)
qed

lemma m3_slots_keeps: "keeps R (m3_slots v ids cids)"
proof (induction ids arbitrary: cids)
  case Nil
  show ?case unfolding m3_slots.simps by (rule keeps_simple)
next
  case (Cons i ids)
  show ?case unfolding m3_slots.simps
    by (rule keeps_bind [OF keeps_simple(3)], split option.split, intro allI impI conjI, rule keeps_simple, split prod.split, intro allI impI,
        split prod.split, intro allI impI, split prod.split, intro allI impI)
      (intro keeps_bind keeps_simple Cons)
qed

lemma keeps_cases:
  "(\<And>x. keeps R (f x)) \<Longrightarrow> (\<And>y. keeps R (g y)) \<Longrightarrow> keeps R (case r of Inl x \<Rightarrow> f x | Inr y \<Rightarrow> g y)"
  "keeps R m \<Longrightarrow> (\<And>x xs. keeps R (k x xs)) \<Longrightarrow> keeps R (case l of [] \<Rightarrow> m | x # xs \<Rightarrow> k x xs)"
  "(\<And>x. keeps R (bad x)) \<Longrightarrow> (\<And>x. keeps R (no x)) \<Longrightarrow> (\<And>p. keeps R (yes p)) \<Longrightarrow>
     keeps R (case sn of BadRequest x \<Rightarrow> bad x | NoReply x \<Rightarrow> no x | Reply p \<Rightarrow> yes p)"
  "(\<And>x y. keeps R (pr x y)) \<Longrightarrow> keeps R (case q of (x, y) \<Rightarrow> pr x y)"
  by (simp_all split: sum.split list.split sent.split prod.split)

lemmas bar_steps = keeps_bind keeps_simple keeps_cases calls m3_leases_keeps m3_slots_keeps

lemma m3_lease3_keeps: "keeps R (m3_lease3 v tp base)"
  unfolding m3_lease3_def by (rule bar_steps)+

lemma m3_execs_keeps: "keeps R (m3_execs v tp base ids)"
  unfolding m3_execs_def by (rule keeps_each bar_steps)+

lemma m3_isolation_keeps: "keeps R (m3_isolation v tp base a b)"
  unfolding m3_isolation_def by (rule bar_steps)+

lemma m3_scale_down_keeps: "keeps R (m3_scale_down v tp base a pid others)"
  unfolding m3_scale_down_def by (rule keeps_each bar_steps)+

lemma m3_rest_keeps: "keeps R (m3_demand v tp base)" "keeps R (m3_no_kvm v tp base)" "keeps R (m3_tenant_jail v tp base)"
  unfolding m3_demand_def m3_no_kvm_def m3_tenant_jail_def m3_jail_reply_def Let_def by (rule keeps_each bar_steps)+

lemma m3_bars_keeps: "keeps R (m3_bars v tp base)"
  unfolding m3_bars_def
  by (rule bar_steps m3_lease3_keeps m3_execs_keeps m3_isolation_keeps m3_scale_down_keeps m3_rest_keeps)+

end

text \<open>Only the last bar panics, and only when no world lives.\<close>

lemma calls_no_panic: "no_panic (m3_post tp base)" "no_panic (m3_exec tp base i argv t)" "no_panic (m3_events tp base i)"
  "no_panic (m3_pause v n)" "no_panic (m3_live v n)"
  unfolding m3_post_def m3_exec_def m3_events_def m3_pause_def m3_live_def by (rule no_panic_simple)+

lemma m3_leases_no_panic: "no_panic (m3_leases v tp base n)"
  by (induction n) (simp only: m3_leases.simps, (rule no_panic_bind no_panic_simple no_panic_cases calls_no_panic | assumption)+)+

lemma m3_slots_no_panic: "no_panic (m3_slots v ids cids)"
  by (induction ids arbitrary: cids) (simp only: m3_slots.simps, (rule no_panic_bind no_panic_simple no_panic_cases | assumption)+)+

lemmas no_panic_steps = no_panic_bind no_panic_simple no_panic_cases no_panic_each calls_no_panic m3_leases_no_panic m3_slots_no_panic

lemma m3_no_panic: "no_panic (m3_lease3 v tp base)" "no_panic (m3_execs v tp base ids)" "no_panic (m3_isolation v tp base a b)"
  "no_panic (m3_scale_down v tp base a pid others)" "no_panic (m3_demand v tp base)" "no_panic (m3_no_kvm v tp base)"
  unfolding m3_lease3_def m3_execs_def m3_isolation_def m3_scale_down_def m3_demand_def m3_no_kvm_def by (rule no_panic_steps)+

lemma m3_tenant_panics:
  assumes "tp_url tp = (\<lambda>u. None)" "m3_tenant_jail v tp base s = (Inl Panics, t)"
  shows "LiveIDs (m3_order v 2) (the_boss t) = []"
proof (cases "LiveIDs (m3_order v 2) (the_boss s)")
  case Nil
  with assms(2) show ?thesis by (simp add: m3_tenant_jail_def m3_live_def bar_bind_def bar_defs)
next
  case (Cons i rest)
  obtain sn s1 where sn: "send tp ''POST'' (base @ ''/v1/worlds/'' @ i @ ''/exec'') opt_out_body s = (sn, s1)" by (rule prod.exhaust)
  have "no_panic (m3_jail_reply v tp base i p)" for p unfolding m3_jail_reply_def Let_def by (rule no_panic_steps)+
  then have "m3_jail_reply v tp base i p s1 \<noteq> (Inl Panics, t)" for p unfolding no_panic_def by (metis fst_conv)
  moreover have "sn \<noteq> BadRequest m" for m using sn assms(1) by (auto simp: send_def split: prod.splits sum.splits)
  ultimately show ?thesis using assms(2) Cons sn
    by (cases sn) (auto simp: m3_tenant_jail_def m3_live_def bar_bind_def bar_defs)
qed

lemma m3_bars_panics:
  assumes "tp_url tp = (\<lambda>u. None)"
  shows "panics_in (\<lambda>t. LiveIDs (m3_order v 2) (the_boss t) = []) (m3_bars v tp base)"
proof -
  have "panics_in (\<lambda>t. LiveIDs (m3_order v 2) (the_boss t) = []) (m3_tenant_jail v tp base)"
    using m3_tenant_panics [OF assms] by (simp add: panics_in_def)
  then show ?thesis unfolding m3_bars_def split_def by (intro panics_in_bind) (rule panics_in_no, rule m3_no_panic)+
qed

section \<open>After a shutdown\<close>

text \<open>Once everything is stopped nothing starts again: the pauses after \<open>StopAll\<close> change nothing that counts.\<close>

definition shut :: "'e lot \<Rightarrow> bool" where
  "shut s \<longleftrightarrow> bs_stopping (lt_boss s) \<and> bs_worlds (lt_boss s) = [] \<and> lt_starting s = {#} \<and> lt_started s = {#} \<and> lt_dying s = {#}"

lemma step_shut: "lot_step lib fmul s t \<Longrightarrow> shut s \<Longrightarrow> shut t \<and> lt_host t = lt_host s"
proof (induction rule: lot_step.induct)
  case (stopping order s ids b')
  then show ?case by (auto simp: shut_def stop_begin_def)
qed (auto simp: shut_def touch_def SetNetwork_def pause_tick_def Let_def dest!: lease_begin_Inr destroy_begin_Some split: option.splits if_splits)

lemma run_shut: "lot_run lib fmul s t \<Longrightarrow> shut s \<Longrightarrow> shut t \<and> lt_host t = lt_host s"
  by (induction rule: rtranclp_induct) (auto dest: step_shut)

section \<open>The end of the test\<close>

text \<open>A state of lot-boss reached from its start by its own steps, with no operation under way.\<close>

definition idle_reach :: "(string \<Rightarrow> string) \<Rightarrow> (nat \<Rightarrow> nat \<Rightarrow> nat \<Rightarrow> nat) \<Rightarrow> 'd lot \<Rightarrow> 'd boss_state \<Rightarrow> 'd lot \<Rightarrow> bool" where
  "idle_reach lib fmul s0 st s \<longleftrightarrow> lot_run lib fmul s0 s \<and> lot_state s = st \<and> lt_starting s = {#} \<and> lt_started s = {#} \<and> lt_dying s = {#}"

lemma idle_boss: "idle_reach lib fmul s0 st s \<Longrightarrow> fst st = lt_boss s"
  by (auto simp: idle_reach_def)

lemma idle_moves:
  assumes "idle_reach lib fmul s0 st s" "boss_moves lib fmul st st'"
  obtains s' where "idle_reach lib fmul s0 st' s'" "lot_run lib fmul s s'"
proof -
  have "lot_state s = st" using assms(1) by (simp add: idle_reach_def)
  from boss_movesD [OF assms(2) this] obtain iss where "runs_to lib fmul s iss st'" by iprover
  then obtain s' where "lot_run lib fmul s s'" "lot_state s' = st'" "lt_starting s' = lt_starting s" "lt_started s' = lt_started s"
    "lt_dying s' = lt_dying s" by (rule runs_toE)
  with assms(1) show thesis by (intro that [of s']) (auto simp: idle_reach_def)
qed

text \<open>lot-boss has no world left, and the host has back what it had unless an identifier was drawn twice.\<close>

definition left_clean :: "(string \<Rightarrow> string) \<Rightarrow> (nat \<Rightarrow> nat \<Rightarrow> nat \<Rightarrow> nat) \<Rightarrow> 'd lot \<Rightarrow> host \<Rightarrow> 'd boss_state \<Rightarrow> bool" where
  "left_clean lib fmul s0 h st \<longleftrightarrow> bs_worlds (fst st) = []
     \<and> (\<exists>s. idle_reach lib fmul s0 st s)
     \<and> (\<forall>s. idle_reach lib fmul s0 st s \<and> distinct (map fst (lt_issued s)) \<longrightarrow> fst (snd st) = h)"

lemma empty_clean:
  assumes "idle_reach lib fmul s0 st s" "lot_inv h s0" "bs_worlds (fst st) = []"
  shows "left_clean lib fmul s0 h st"
proof -
  have "fst (snd st) = h" if i: "idle_reach lib fmul s0 st u" and d: "distinct (map fst (lt_issued u))" for u
  proof -
    have "lot_inv h u" using i assms(2) run_inv by (auto simp: idle_reach_def)
    moreover have "alive u = {#}" using i assms(3) by (auto simp: idle_reach_def alive_def)
    ultimately show ?thesis using i d by (auto simp: lot_inv_def accounted_def host.held_empty idle_reach_def)
  qed
  with assms show ?thesis by (auto simp: left_clean_def)
qed

lemma perm_empty: "mset (order xs) = mset xs \<Longrightarrow> order xs = [] \<longleftrightarrow> xs = []"
  by (metis mset_zero_iff)

lemma stopped_empty:
  assumes "\<And>xs. mset (order xs) = mset xs"
  shows "bs_worlds (fst (StopAll order net st)) = [] \<and> bs_stopping (fst (StopAll order net st))"
proof -
  obtain b h e where st: "st = (b, h, e)" by (cases st)
  obtain b' h' e' where "StopAll order net (b, h, e) = (b', h', e')" by (rule prod_cases3)
  from StopAll_empty [OF this] mset_eq_setD [OF assms] st this show ?thesis by simp
qed

lemma fleet_clean:
  assumes ag: "agent (fleet_moves lib fmul) tp v" and url: "tp_url tp = (\<lambda>u. None)"
    and order: "\<And>n xs. mset (m3_order v n xs) = mset xs"
    and l: "idle_reach lib fmul s0 (snd s) l" "lot_inv h s0" and f: "m3_fleet v tp base s = (vd, t)"
  shows "left_clean lib fmul s0 h (snd t)"
proof -
  obtain r s1 where b: "m3_bars v tp base s = (r, s1)" by (rule prod.exhaust)
  obtain l1 where l1: "idle_reach lib fmul s0 (snd s1) l1"
    using idle_moves [OF l(1) keepsD [OF agent.m3_bars_keeps [OF ag] b]] .
  obtain l2 where l2: "idle_reach lib fmul s0 (snd (m3_stop v s1)) l2"
    using idle_moves [OF l1 StopAll_moves [of lib fmul "snd s1" "m3_order v 5" "m3_net v"]] by (auto simp: m3_stop_def)
  have stop: "bs_worlds (the_boss (m3_stop v s1)) = []" "bs_stopping (the_boss (m3_stop v s1))"
    using stopped_empty [of "m3_order v 5" "m3_net v" "snd s1", OF order] by (simp_all add: m3_stop_def)
  show ?thesis
  proof (cases r)
    case (Inr u)
    have "fleet_moves lib fmul (m3_stop v s1) (m3_sleep v 800 (m3_stop v s1))" by (rule agent.pause [OF ag])
    from idle_moves [OF l2 this] obtain l3 where l3: "idle_reach lib fmul s0 (snd (m3_sleep v 800 (m3_stop v s1))) l3" "lot_run lib fmul l2 l3" .
    have "shut l2" using l2 stop idle_boss [OF l2] by (auto simp: shut_def idle_reach_def)
    then have "shut l3" using run_shut [OF l3(2)] by blast
    then have "bs_worlds (the_boss (m3_sleep v 800 (m3_stop v s1))) = []" using idle_boss [OF l3(1)] by (simp add: shut_def)
    with empty_clean [OF l3(1) l(2)] f b Inr show ?thesis by (simp add: m3_fleet_def Let_def split: if_splits)
  next
    case (Inl x)
    show ?thesis
    proof (cases x)
      case (Fails n)
      with empty_clean [OF l2 l(2)] f b Inl stop show ?thesis by (simp add: m3_fleet_def)
    next
      case Panics
      then have "LiveIDs (m3_order v 2) (the_boss s1) = []" using panics_inD [OF m3_bars_panics [OF url]] b Inl by simp
      then have "bs_worlds (the_boss s1) = []" using perm_empty [of "m3_order v 2", OF order] by (simp add: LiveIDs_def)
      with empty_clean [OF l1 l(2)] f b Inl Panics show ?thesis by (simp add: m3_fleet_def)
    qed
  qed
qed

text \<open>The wiring of the test: the router's client, lot-boss and the desk are the ones it serves.\<close>

definition wired :: "(string \<Rightarrow> string) \<Rightarrow> (nat \<Rightarrow> nat \<Rightarrow> nat \<Rightarrow> nat) \<Rightarrow> 'd m3_env \<Rightarrow> bool" where
  "wired lib fmul v \<longleftrightarrow> (\<exists>wr en nx dk ar. same_lib lib fmul en \<and> m3_engine v = boss_front wr en nx \<and> m3_desk v = desk_front dk
     \<and> m3_front v = router_front ar (m3_getenv v))
   \<and> (\<forall>n xs. mset (m3_order v n xs) = mset xs) \<and> (\<forall>n s. fleet_moves lib fmul s (m3_sleep v n s))"

lemma wired_agent:
  assumes "wired lib fmul v" "rs_Engine rt = HTTPEngine_engine (base, m3_engine v)" "rs_desk rt = m3_desk v"
  shows "agent (fleet_moves lib fmul) (m3_front v rt) v" "tp_url (m3_front v rt) = (\<lambda>u. None)"
proof -
  from assms(1) obtain wr en nx dk ar where w: "same_lib lib fmul en" "m3_engine v = boss_front wr en nx" "m3_desk v = desk_front dk"
    "m3_front v = router_front ar (m3_getenv v)" unfolding wired_def by iprover
  have "served (fleet_moves lib fmul) (m3_front v rt)" unfolding w(4) by (rule served_router [OF w(1)]) (simp_all add: assms w)
  moreover have "agent_axioms (fleet_moves lib fmul) v" by (rule agent_axioms.intro) (use assms(1) in \<open>unfold wired_def, iprover\<close>)
  ultimately show "agent (fleet_moves lib fmul) (m3_front v rt) v" by (rule agent.intro)
  show "tp_url (m3_front v rt) = (\<lambda>u. None)" by (simp add: w router_front_def)
qed

lemma m3_run_cases:
  assumes "m3_run v h d = Some (vd, Some t)"
  obtains repo vmlinux rootfs work url d1 s where "s = (NewStickyMap, NewBossConfig (m3_getenv v) (m3_config repo vmlinux rootfs work url), h, d1)"
    "(t = s \<and> vd \<noteq> AllPass) \<or> (\<exists>rt lot base. rs_Engine rt = HTTPEngine_engine (lot, m3_engine v) \<and> rs_desk rt = m3_desk v
       \<and> m3_fleet v (m3_front v rt) base s = (vd, t))"
proof -
  from assms obtain w where w: "m3_serve v w h d = (vd, Some t)" by (auto simp: m3_run_def split: option.splits sum.splits)
  obtain repo vmlinux rootfs work where x: "w = (repo, vmlinux, rootfs, work)" by (rule prod_cases4)
  from w x obtain d1 where d1: "m3_store v (path_join [work, ''desk'']) d = (None, d1)"
    by (cases "m3_store v (path_join [work, ''desk'']) d") (auto simp: m3_serve_def split: option.splits)
  from w x d1 obtain addr where addr: "m3_listen v 0 = Inr addr" by (auto simp: m3_serve_def split: sum.splits)
  define s where "s = (NewStickyMap, NewBossConfig (m3_getenv v) (m3_config repo vmlinux rootfs work (''http://'' @ addr)), h, d1)"
  define rt where "rt = (\<lambda>lot. NewServer (Some (HTTPEngine_engine (''http://'' @ lot, m3_engine v))) (''http://'' @ addr) (m3_desk v))"
  have "(t = s \<and> vd \<noteq> AllPass) \<or> (\<exists>lot base. m3_fleet v (m3_front v (rt lot)) base s = (vd, t))"
    using w x d1 addr by (auto simp: m3_serve_def s_def rt_def Let_def split: sum.splits if_splits prod.splits)
  moreover have "rs_Engine (rt lot) = HTTPEngine_engine (''http://'' @ lot, m3_engine v)" "rs_desk (rt lot) = m3_desk v" for lot
    by (simp_all add: rt_def NewServer_def)
  ultimately show thesis using that [OF s_def] by blast
qed

lemma start_idle: "idle_reach lib fmul (lot_init env cfg h d) (NewBossConfig env cfg, h, d) (lot_init env cfg h d)"
  by (simp add: idle_reach_def lot_init_def)


text \<open>The test on a network that loses every reply: the first lease is made, but the agent never hears of it.\<close>

definition sudo_vars :: environ where
  "sudo_vars k = (if k = ''SUDO_UID'' then ''1000'' else if k = ''BACKLOT_ROOT'' then ''/b'' else [])"

definition mute_desk :: "unit transport" where
  "mute_desk = \<lparr>tp_do = (\<lambda>c d. (Inl ''connection refused'', d)), tp_url = (\<lambda>u. None), tp_json = (\<lambda>b. [])\<rparr>"

definition lossy_fleet :: "unit m3_env" where
  "lossy_fleet = \<lparr>m3_kvm = (None, None), m3_getenv = sudo_vars, m3_wd = ''/'', m3_stat = (\<lambda>p. True), m3_tmp = Inr ''/tmp/m3'',
     m3_store = (\<lambda>p d. (None, d)), m3_listen = (\<lambda>n. Inr (''127.0.0.1:'' @ show_nat (9000 + n))),
     m3_os = \<lparr>bo_open = (\<lambda>_. True), bo_stat = (\<lambda>_. True), bo_euid = 0\<rparr>,
     m3_engine = boss_front \<lparr>wr_arrive = by_path ''http://127.0.0.1:9001'', wr_lost = (\<lambda>c st. None)\<rparr> (\<lambda>d. demo_boss_env) (\<lambda>d. d),
     m3_desk = desk_front mute_desk,
     m3_front = router_front \<lparr>wr_arrive = by_path ''http://127.0.0.1:9002'', wr_lost = (\<lambda>c st. Some ''timeout'')\<rparr> sudo_vars,
     m3_net = bv_net demo_boss_env, m3_order = (\<lambda>n xs. xs), m3_sleep = (\<lambda>n s. s), m3_alive = (\<lambda>s p. False), m3_fint = (\<lambda>t. None),
     m3_sprint = (\<lambda>j. [])\<rparr>"

lemma lossy_wired: "wired (\<lambda>_. []) (\<lambda>_ _ _. 0) lossy_fleet"
proof -
  have "same_lib (\<lambda>_. []) (\<lambda>_ _ _. 0) (\<lambda>d. demo_boss_env)" by (simp add: same_lib_def demo_boss_env_def)
  moreover have "m3_engine lossy_fleet = boss_front \<lparr>wr_arrive = by_path ''http://127.0.0.1:9001'', wr_lost = (\<lambda>c st. None)\<rparr> (\<lambda>d. demo_boss_env) (\<lambda>d. d)"
    "m3_desk lossy_fleet = desk_front mute_desk"
    "m3_front lossy_fleet = router_front \<lparr>wr_arrive = by_path ''http://127.0.0.1:9002'', wr_lost = (\<lambda>c st. Some ''timeout'')\<rparr> (m3_getenv lossy_fleet)"
    unfolding lossy_fleet_def by (simp_all only: m3_env.simps)
  moreover have "mset (m3_order lossy_fleet n xs) = mset xs" "fleet_moves (\<lambda>_. []) (\<lambda>_ _ _. 0) s (m3_sleep lossy_fleet n s)" for n xs s
    by (simp_all add: lossy_fleet_def boss_moves_refl)
  ultimately show ?thesis unfolding wired_def by iprover
qed

lemma lossy_lease: "\<exists>m s1. m3_post (m3_front lossy_fleet rt) base s = (Inr (Inl m), s1)"
proof -
  have f: "m3_front lossy_fleet = router_front \<lparr>wr_arrive = by_path ''http://127.0.0.1:9002'', wr_lost = (\<lambda>c st. Some ''timeout'')\<rparr> sudo_vars"
    unfolding lossy_fleet_def by (simp only: m3_env.simps)
  have "\<exists>m s1. send (m3_front lossy_fleet rt) ''POST'' url body s = (NoReply m, s1)" for url body
    unfolding f by (simp add: send_def router_front_def split: prod.split option.split)
  then obtain m s1 where "send (m3_front lossy_fleet rt) ''POST'' (base @ ''/v1/worlds'') (render (JObj [(''profile'', jstr ''demo'')])) s = (NoReply m, s1)"
    by iprover
  then show ?thesis
    by (intro exI [of _ m] exI [of _ s1]) (simp only: m3_post_def bar_call_def postJSON_def Let_def prod.case sent.case)
qed

text \<open>A set-up under \<open>sudo\<close> in which nothing is missing, and a service in which nothing fails.\<close>

lemma sudo_setup:
  assumes "m3_kvm v = (None, None)" "m3_getenv v = sudo_vars" "m3_stat v = (\<lambda>p. True)" "m3_tmp v = Inr ''/tmp/m3''" "bo_euid (m3_os v) = 0"
  shows "m3_setup v = Some (Inr (''/b'', ''/b/guest/artifacts/vmlinux-6.1.102'', ''/b/guest/artifacts/rootfs.ext4'', ''/tmp/m3''))"
proof -
  have "resolveArtifacts (\<lambda>p. True) ''/b'' = Inr (''/b/guest/artifacts/vmlinux-6.1.102'', ''/b/guest/artifacts/rootfs.ext4'')" by code_simp
  then show ?thesis using assms by (simp add: m3_setup_def m3_work_def kvmReadable_def repoRoot_def sudo_vars_def)
qed

lemma sudo_node_ready:
  assumes "vmlinux \<noteq> []" "rootfs \<noteq> []" "path_join [work, ''worlds''] \<noteq> []" "path_join [repo, ''runtime/bin/fc-waitkvm''] \<noteq> []"
  shows "EngineReady \<lparr>bo_open = (\<lambda>_. True), bo_stat = (\<lambda>_. True), bo_euid = 0\<rparr> (NewBossConfig sudo_vars (m3_config repo vmlinux rootfs work url))"
  using assms by (simp add: EngineReady_def kvmOK_def artifactsOK_def NewBossConfig_def default_config_def m3_config_def env_or_def sudo_vars_def Let_def)

definition sudo_config :: "string \<Rightarrow> Config" where
  "sudo_config url = m3_config ''/b'' ''/b/guest/artifacts/vmlinux-6.1.102'' ''/b/guest/artifacts/rootfs.ext4'' ''/tmp/m3'' url"

lemma sudo_ready: "EngineReady \<lparr>bo_open = (\<lambda>_. True), bo_stat = (\<lambda>_. True), bo_euid = 0\<rparr> (NewBossConfig sudo_vars (sudo_config url))"
proof -
  have "path_join [''/tmp/m3'', ''worlds''] \<noteq> []" "path_join [''/b'', ''runtime/bin/fc-waitkvm''] \<noteq> []" by code_simp+
  then show ?thesis using sudo_node_ready by (simp add: sudo_config_def)
qed

lemma sudo_run:
  assumes v: "m3_kvm v = (None, None)" "m3_getenv v = sudo_vars" "m3_stat v = (\<lambda>p. True)" "m3_tmp v = Inr ''/tmp/m3''"
    and os: "m3_os v = \<lparr>bo_open = (\<lambda>_. True), bo_stat = (\<lambda>_. True), bo_euid = 0\<rparr>"
    and l: "\<And>p. m3_store v p d = (None, d)" "\<And>n. m3_listen v n = Inr (addr n)"
    and f: "m3_fleet v (m3_front v (NewServer (Some (HTTPEngine_engine (''http://'' @ addr 1, m3_engine v))) (''http://'' @ addr 0) (m3_desk v)))
        (''http://'' @ addr 2) (NewStickyMap, NewBossConfig sudo_vars (sudo_config (''http://'' @ addr 0)), h, d) = (vd, t)"
  shows "m3_run v h d = Some (vd, Some t)"
proof -
  have r: "EngineReady (m3_os v) (NewBossConfig sudo_vars (sudo_config url))" for url unfolding os by (rule sudo_ready)
  have "m3_serve v (''/b'', ''/b/guest/artifacts/vmlinux-6.1.102'', ''/b/guest/artifacts/rootfs.ext4'', ''/tmp/m3'') h d = (vd, Some t)"
    unfolding m3_serve_def Let_def prod.case l option.case sum.case sudo_config_def [symmetric]
    by (simp only: r not_True_eq_False if_False v(2) f prod.case)
  moreover have "bo_euid (m3_os v) = 0" by (simp add: os)
  ultimately show ?thesis using sudo_setup [OF v] by (simp only: m3_run_def option.case sum.case)
qed

lemma lossy_run: "\<exists>t. m3_run lossy_fleet h d = Some (FailedAt ''M3-lease-3'', Some t)"
proof -
  have f: "\<exists>t. m3_fleet lossy_fleet (m3_front lossy_fleet rt) base st = (FailedAt ''M3-lease-3'', t)" for rt base st
  proof -
    obtain m s1 where m: "m3_post (m3_front lossy_fleet rt) base st = (Inr (Inl m), s1)" using lossy_lease by iprover
    have "m3_leases lossy_fleet (m3_front lossy_fleet rt) base 3 st = (Inl (Fails ''M3-lease-3''), s1)"
      unfolding numeral_3_eq_3 m3_leases.simps bar_bind_def m by (simp add: bar_defs)
    then have "m3_bars lossy_fleet (m3_front lossy_fleet rt) base st = (Inl (Fails ''M3-lease-3''), s1)"
      by (simp add: m3_bars_def m3_lease3_def bar_bind_def)
    then show ?thesis
      by (intro exI [of _ "m3_stop lossy_fleet s1"]) (simp only: m3_fleet_def prod.case sum.case bar_end.case)
  qed
  let ?addr = "\<lambda>n. ''127.0.0.1:'' @ show_nat (9000 + n)"
  obtain t where t: "m3_fleet lossy_fleet (m3_front lossy_fleet (NewServer (Some (HTTPEngine_engine (''http://'' @ ?addr 1, m3_engine lossy_fleet)))
      (''http://'' @ ?addr 0) (m3_desk lossy_fleet))) (''http://'' @ ?addr 2)
      (NewStickyMap, NewBossConfig sudo_vars (sudo_config (''http://'' @ ?addr 0)), h, d) = (FailedAt ''M3-lease-3'', t)" using f by iprover
  have "m3_run lossy_fleet h d = Some (FailedAt ''M3-lease-3'', Some t)"
    by (rule sudo_run [where addr = ?addr, OF _ _ _ _ _ _ _ t]) (simp_all add: lossy_fleet_def)
  then show ?thesis ..
qed


section \<open>What passing shows\<close>

lemma m3_leases_length: "m3_leases v tp base n s = (Inr ids, t) \<Longrightarrow> length ids = n"
proof (induction n arbitrary: s ids t)
  case (Suc n)
  from Suc.prems obtain r :: call_result and s1 where c: "(case r of Inl e \<Rightarrow> bar_fail (Fails ''M3-lease-3'')
       | Inr (info, code) \<Rightarrow>
           bar_bind (bar_check ''M3-lease-3'' (code = 201)) (\<lambda>_.
           bar_bind (m3_leases v tp base n) (\<lambda>ids.
           bar_return (go_str (m3_sprint v) (any_get info ''id'') # ids)))) s1 = (Inr ids, t)"
    unfolding m3_leases.simps by (rule bar_bindE)
  then obtain info code where "r = Inr (info, code)" by (cases r) auto
  with c obtain x ids' s2 where "m3_leases v tp base n s1 = (Inr ids', s2)" "ids = x # ids'" by (auto simp: bar_bind_Inr)
  with Suc.IH show ?case by simp
qed simp

text \<open>What is read of the slots: all there, jailed and alive, with pairwise distinct CIDs.\<close>

definition slots_read :: "'d m3_env \<Rightarrow> 'd m3_state \<Rightarrow> string list \<Rightarrow> (string \<times> nat \<times> u32 \<times> string) list \<Rightarrow> bool" where
  "slots_read v s ids ms \<longleftrightarrow> map (\<lambda>i. SlotMeta i (the_boss s)) ids = map Some ms \<and> distinct (map (\<lambda>(jail, pid, cid, eng). cid) ms)
     \<and> (\<forall>(jail, pid, cid, eng)\<in>set ms. 0 < pid \<and> eng = ''jailer'' \<and> m3_alive v s pid)"

lemma m3_slots_pass:
  "m3_slots v ids cids s = (Inr pids, t) \<Longrightarrow> t = s \<and> (\<exists>ms. slots_read v s ids ms \<and> pids = map (\<lambda>(jail, pid, cid, eng). pid) ms
     \<and> set (map (\<lambda>(jail, pid, cid, eng). cid) ms) \<inter> set cids = {})"
proof (induction ids arbitrary: cids pids)
  case Nil
  then show ?case by (auto simp: slots_read_def)
next
  case (Cons i ids)
  from Cons.prems obtain jail pid cid eng pids' where m: "SlotMeta i (the_boss s) = Some (jail, pid, cid, eng)" "0 < pid" "eng = ''jailer''" "cid \<notin> set cids"
    "m3_alive v s pid" "m3_slots v ids (cid # cids) s = (Inr pids', t)" "pids = pid # pids'"
    by (auto simp: bar_bind_Inr split: option.splits)
  from Cons.IH [OF m(6)] obtain ms where ms: "t = s" "slots_read v s ids ms" "pids' = map (\<lambda>(jail, pid, cid, eng). pid) ms"
    "set (map (\<lambda>(jail, pid, cid, eng). cid) ms) \<inter> set (cid # cids) = {}" by blast
  have "slots_read v s (i # ids) ((jail, pid, cid, eng) # ms)" using m ms(2,4) by (simp add: slots_read_def)
  with m ms show ?case by (intro conjI exI [of _ "(jail, pid, cid, eng) # ms"]) auto
qed

lemma distinct_Some: "distinct (map Some xs) = distinct xs"
  by (induction xs) auto

lemma slots_read_keys:
  assumes "slots_read v s ids ms"
  shows "distinct ids" "set ids \<subseteq> fst ` set (bs_worlds (the_boss s))"
proof -
  have i: "map (\<lambda>i. map_option (\<lambda>(jail, pid, cid, eng). cid) (SlotMeta i (the_boss s))) ids = map Some (map (\<lambda>(jail, pid, cid, eng). cid) ms)"
    using arg_cong [OF conjunct1 [OF assms [unfolded slots_read_def]], of "map (map_option (\<lambda>(jail, pid, cid, eng). cid))"]
    by (simp add: comp_def)
  have "distinct (map Some (map (\<lambda>(jail, pid, cid, eng). cid) ms))"
    using conjunct1 [OF conjunct2 [OF assms [unfolded slots_read_def]]] by (simp only: distinct_Some)
  with i show "distinct ids" by (metis distinct_map)
  have "SlotMeta x (the_boss s) \<noteq> None" if "x \<in> set ids" for x
  proof -
    have "SlotMeta x (the_boss s) \<in> set (map (\<lambda>i. SlotMeta i (the_boss s)) ids)" using that by simp
    then have "SlotMeta x (the_boss s) \<in> set (map Some ms)" using assms unfolding slots_read_def by metis
    then show ?thesis by auto
  qed
  then show "set ids \<subseteq> fst ` set (bs_worlds (the_boss s))"
    by (force simp: SlotMeta_def split: option.splits dest: map_of_SomeD)
qed

lemma m3_lease3_pass:
  assumes "m3_lease3 v tp base s = (Inr (ids, pids), t)"
  obtains s1 ms where "m3_leases v tp base 3 s = (Inr ids, s1)" "length ids = 3" "slots_read v s1 ids ms"
proof -
  from assms obtain s1 s2 pids' where l: "m3_leases v tp base 3 s = (Inr ids, s1)" and sl: "m3_slots v ids [] s1 = (Inr pids', s2)"
    unfolding m3_lease3_def by (elim bar_bindE) auto
  from m3_slots_pass [OF sl] obtain ms where "slots_read v s1 ids ms" by blast
  then show thesis using l m3_leases_length [OF l] by (intro that)
qed

lemma m3_cap: "cf_MaxWorlds (default_config env (m3_config repo vmlinux rootfs work url)) = 3"
  by (simp add: default_config_def m3_config_def Let_def)

lemma full_map:
  assumes "lot_run lib fmul (lot_init env (m3_config repo vmlinux rootfs work url) h d) s"
    and "distinct ids" "length ids = 3" "set ids \<subseteq> fst ` set (bs_worlds (lt_boss s))"
  shows "length (bs_worlds (lt_boss s)) = 3 \<and> fst ` set (bs_worlds (lt_boss s)) = set ids"
proof -
  let ?ws = "bs_worlds (lt_boss s)"
  have "bs_cfg (lt_boss s) = default_config env (m3_config repo vmlinux rootfs work url)"
    using run_cfg [OF assms(1)] by (simp add: lot_init_def NewBossConfig_def)
  then have ok: "distinct (map fst ?ws)" "length ?ws \<le> 3"
    using reachable_inv [OF assms(1)] m3_cap by (simp_all add: lot_inv_def boss_ok_def worlds_ok_def)
  have c: "card (set ids) = 3" using assms(2,3) distinct_card by force
  have n: "card (fst ` set ?ws) = length ?ws" using distinct_card [OF ok(1)] by simp
  have "card (set ids) \<le> card (fst ` set ?ws)" by (rule card_mono) (use assms(4) in simp_all)
  then have l: "length ?ws = 3" using c n ok(2) by simp
  then have "set ids = fst ` set ?ws" using card_subset_eq [of "fst ` set ?ws" "set ids"] assms(4) c n by simp
  with l show ?thesis by simp
qed


end
