(* ===== verification/LotCommand.thy ===== *)
theory LotCommand
  imports M3Theorems Mains
begin

text \<open>
  The command \<open>lot/cmd/lot-boss\<close> from its start to its exit: it serves requests while the pause loop ticks, until the
  listener fails or a signal comes; the signal's goroutine stops the worlds and then the server. Requests are taken one
  after another here; \<open>BossSteps\<close> has their interleaving, and \<open>lease_survives_shutdown\<close> what escapes a shutdown.
\<close>

section \<open>The life of the command\<close>

text \<open>What happens while it serves: a request with the environment it meets, a tick of the pause loop, a change outside.\<close>

datatype 'd lot_event = Served "'d boss_env" Request | PauseTick "string list \<Rightarrow> string list" "World \<Rightarrow> 'd transport" int | Outside 'd

definition lot_event :: "'d lot_event \<Rightarrow> 'd boss_state \<Rightarrow> 'd boss_state" where
  "lot_event x st =
     (case x of
        Served v r \<Rightarrow> snd (boss_serve v r st)
      | PauseTick order fc now \<Rightarrow>
          (let (b, h, e) = st in case pause_tick order fc now b e of None \<Rightarrow> (b, h, e) | Some (b', e') \<Rightarrow> (b', h, e'))
      | Outside e' \<Rightarrow> (let (b, h, e) = st in (b, h, e')))"

text \<open>
  How it ends: \<open>ListenAndServe\<close> fails, which is fatal, or a signal comes. After the signal the worlds are stopped in some
  order, and requests are still served until the server is.
\<close>

datatype 'd lot_end = ServeFailed string | Signalled "string list \<Rightarrow> string list" "'d boss_net" "'d lot_event list"

definition lot_command :: "environ \<Rightarrow> (string \<Rightarrow> bool) \<Rightarrow> string \<Rightarrow> string \<Rightarrow> lot_flags \<Rightarrow> 'd lot_event list \<Rightarrow> 'd lot_end \<Rightarrow> host \<Rightarrow> 'd
    \<Rightarrow> (int \<times> 'd boss_state) option" where
  "lot_command env stat wd tmp f es fin h d =
     (case lot_main env stat wd tmp f of None \<Rightarrow> None
      | Some b \<Rightarrow>
          (let st = fold lot_event es (b, h, d) in
           case fin of ServeFailed err \<Rightarrow> Some (1, st)
           | Signalled order net late \<Rightarrow> Some (0, fold lot_event late (StopAll order net st))))"

section \<open>Its events are steps of lot-boss\<close>

definition event_lib :: "(string \<Rightarrow> string) \<Rightarrow> (nat \<Rightarrow> nat \<Rightarrow> nat \<Rightarrow> nat) \<Rightarrow> 'd lot_event \<Rightarrow> bool" where
  "event_lib lib fmul x = (case x of Served v r \<Rightarrow> bv_lib v = lib \<and> bv_fmul v = fmul | _ \<Rightarrow> True)"

lemma tick_moves: "pause_tick order fc now b e = Some (b', e') \<Longrightarrow> boss_moves lib fmul (b, h, e) (b', h, e')"
proof (rule boss_movesI)
  fix s :: "'a lot"
  assume "pause_tick order fc now b e = Some (b', e')" and s: "lot_state s = (b, h, e)"
  then have "lot_step lib fmul s (s\<lparr>lt_boss := b', lt_env := e'\<rparr>)" by (auto intro: lot_step.tick)
  then have "runs_to lib fmul s [] (b', lt_host s, e')" by (rule step_runs)
  then have "runs_to lib fmul s [] (b', h, e')" using s by simp
  then show "\<exists>iss. runs_to lib fmul s iss (b', h, e')" ..
qed

lemma event_moves: "event_lib lib fmul x \<Longrightarrow> boss_moves lib fmul st (lot_event x st)"
proof (cases x)
  case (Served v r)
  assume "event_lib lib fmul x"
  with Served serve_moves [of v r st "fst (boss_serve v r st)" "snd (boss_serve v r st)"] show ?thesis
    by (simp add: event_lib_def lot_event_def)
next
  case (PauseTick order fc now)
  obtain b h e where "st = (b, h, e)" by (rule prod_cases3)
  with PauseTick show ?thesis
    by (cases "pause_tick order fc now b e") (auto simp: lot_event_def boss_moves_refl intro: tick_moves)
next
  case (Outside e')
  obtain b h e where "st = (b, h, e)" by (rule prod_cases3)
  with Outside show ?thesis by (simp add: lot_event_def outside_moves)
qed

lemma events_move: "list_all (event_lib lib fmul) es \<Longrightarrow> boss_moves lib fmul st (fold lot_event es st)"
proof (induction es arbitrary: st)
  case (Cons x es)
  then have "boss_moves lib fmul st (lot_event x st)" "boss_moves lib fmul (lot_event x st) (fold lot_event es (lot_event x st))"
    by (simp_all add: event_moves)
  from boss_moves_trans [OF this] show ?case by simp
qed (simp add: boss_moves_refl)

lemma events_shut:
  assumes "idle_reach lib fmul s0 st s" "shut s" "list_all (event_lib lib fmul) es"
  obtains s' where "idle_reach lib fmul s0 (fold lot_event es st) s'" "shut s'"
proof -
  obtain s' where s': "idle_reach lib fmul s0 (fold lot_event es st) s'" "lot_run lib fmul s s'"
    using idle_moves [OF assms(1) events_move [OF assms(3)]] .
  from run_shut [OF s'(2) assms(2)] show thesis by (intro that [OF s'(1)]) (rule conjunct1)
qed

section \<open>What the command leaves\<close>


text \<open>A node for one world: a world is leased, then the signal comes.\<close>

definition node_flags :: lot_flags where
  "node_flags = \<lparr>lf_addr = '':8070'', lf_max = 1, lf_warm = 0, lf_work = ''/work'', lf_kernel = ''/k'', lf_rootfs = ''/r'', lf_desk = [],
     lf_requireJailer = False\<rparr>"

definition node_boss_env :: "unit boss_env" where
  "node_boss_env = demo_boss_env\<lparr>bv_os := \<lparr>bo_open = (\<lambda>_. True), bo_stat = (\<lambda>_. True), bo_euid = 1000\<rparr>\<rparr>"

lemma node_root: "repoRoot sudo_vars stat wd = Some ''/b''"
  by (simp add: repoRoot_def sudo_vars_def)

lemma first_lease: "map fst (bs_worlds (fst (lot_event (Served node_boss_env lease_post)
    (NewBossConfig sudo_vars (lot_config ''/b'' ''/tmp'' node_flags), {#}, ())))) = [''w01020304'']"
proof -
  let ?b = "NewBossConfig sudo_vars (lot_config ''/b'' ''/tmp'' node_flags)" and ?i = "''w01020304''"
  have c: "cf_DeskURL (bs_cfg ?b) = []" "cf_MaxWorlds (bs_cfg ?b) = 1" "EngineReady (bv_os node_boss_env) ?b"
    by (simp_all add: NewBossConfig_def default_config_def lot_config_def node_flags_def EngineReady_def kvmOK_def artifactsOK_def
        node_boss_env_def env_or_def Let_def)
  have b: "\<not> bs_stopping ?b" "\<not> at_cap ?b" "bs_nextCID ?b = 3" "bs_worlds ?b = []" using c(2) by (simp_all add: NewBossConfig_def at_cap_def)
  obtain p st where p: "boss_handleLease node_boss_env lease_post (?b, {#}, ()) = (p, st)" by (rule prod.exhaust)
  have "map fst (bs_worlds (fst st)) = [?i]"
    using p c(3) plain_lease [OF b(1,2), where i = ?i and bytes = "[CHR 0x01, CHR 0x02, CHR 0x03, CHR 0x04]" and pid = 7 and e = "()"
        and w = "plain_world 7 (lease_opts (bs_cfg ?b) ?i (bs_nextCID ?b))" and h = "{#}" and lib = "\<lambda>_. []" and fmul = "\<lambda>_ _ _. 0"
        and now = 0 and body = demo_body and net = undefined]
    by (auto simp: boss_handleLease_def lease_post_body b c demo_id effective_cid_def node_boss_env_def demo_boss_env_def Let_def)
  then show ?thesis using p by (simp add: lot_event_def boss_serve_def lease_post_dispatch)
qed


text \<open>
  A listener that fails takes the command down without the shutdown of the signal: a world leased before is left behind,
  with nobody to stop it.
\<close>

theorem serve_failure_leaves_worlds:
  "\<exists>st. lot_command sudo_vars (\<lambda>_. False) ''/'' ''/tmp'' node_flags [Served node_boss_env lease_post] (ServeFailed ''accept'') {#} () = Some (1, st)
     \<and> map fst (bs_worlds (fst st)) = [''w01020304'']"
  using first_lease by (simp add: lot_command_def lot_main_def node_root)

end
