(* ===== verification/ExecChain.thy ===== *)
theory ExecChain
  imports Fleet GuestTheorems
begin

text \<open>
  A tenant's command from the router to the guest and back: the router passes it to lot-boss, lot-boss to the
  agent in the world, the agent to the inner ring, and the result returns the same way.
\<close>

section \<open>The agent as a transport\<close>

text \<open>The vsock client of one world: the agent's handlers, on the agent's state, which is read by \<open>rd\<close> and written by \<open>wr\<close>.\<close>

definition guest_front :: "environ \<Rightarrow> guest_env \<Rightarrow> ('d \<Rightarrow> guest) \<Rightarrow> (guest \<Rightarrow> 'd \<Rightarrow> 'd) \<Rightarrow> 'd transport" where
  "guest_front env v rd wr = \<lparr>tp_do = (\<lambda>c e. let (p, g) = guest_serve env v (by_path ''http://vsock'' c) (rd e) in (Inr (answers p), wr g e)),
     tp_url = (\<lambda>u. None), tp_json = (\<lambda>b. [])\<rparr>"

text \<open>The command the agent runs for a tenant.\<close>

definition tenant_command :: "string \<Rightarrow> string list \<Rightarrow> int \<Rightarrow> command" where
  "tenant_command i argv t = \<lparr>cm_name = ''python3'',
     cm_args = [innerRun, ''--workspace'', workspace, ''--audit'', audit_path i, ''--sandbox-id'', i, ''--''] @ argv,
     cm_dir = workspace, cm_stdin = [], cm_timeout = exec_timeout t\<rparr>"

definition after_command :: "(guest \<Rightarrow> 'd \<Rightarrow> 'd) \<Rightarrow> guest \<Rightarrow> command \<Rightarrow> 'd \<Rightarrow> emitter \<Rightarrow> 'd" where
  "after_command wr g c e em = wr \<lparr>gs_emit = em, gs_ran = gs_ran g @ [c]\<rparr> e"

definition sendable :: "string list \<Rightarrow> int \<Rightarrow> bool" where
  "sendable argv t \<longleftrightarrow> argv \<noteq> [] \<and> (\<forall>s\<in>set argv. valid_utf8 s) \<and> 1 \<le> t \<and> t < 2 ^ 63"

lemma guest_parses:
  assumes "sendable argv t"
  shows "parseExecReq derr (arrives \<lparr>hc_method = m, hc_url = u, hc_body = execBody argv t\<rparr> p) =
    Inr (\<lparr>gq_Argv = argv, gq_Stdin = [], gq_Timeout = t\<rparr>, exec_timeout t)"
proof -
  have "decode_body (render (JObj (exec_members argv t))) = BodyVal (JObj (exec_members argv t))"
    by (rule decode_rendered) (use exec_members_wf [of argv t] jdepth_JObj_le in simp_all)
  moreover have "guest_execReq_of (exec_members argv t) = (True, \<lparr>gq_Argv = argv, gq_Stdin = [], gq_Timeout = t\<rparr>)"
    by (rule execReq_members(2)) (use assms in \<open>simp_all add: sendable_def\<close>)
  ultimately show ?thesis using assms
    by (simp add: parseExecReq_def request_json_def arrives_def execBody_members body_members_def as_members_def Let_def sendable_def
        del: render_JObj)
qed

lemma guest_exec:
  assumes "sendable argv t" "plain_id i" "gv_run v (tenant_command i argv t) = Exited n out err"
  shows "\<exists>em. tp_do (guest_front env v rd wr) \<lparr>hc_method = ''POST'', hc_url = execURL i False, hc_body = execBody argv t\<rparr> e =
    (Inr (answers (writeJSON 200 (Some (execResp_tree n out err)))), after_command wr (rd e) (tenant_command i argv t) e em)"
proof -
  let ?c = "\<lparr>hc_method = ''POST'', hc_url = ''http://vsock'' @ ''/v1/worlds/'' @ i @ ''/exec'', hc_body = execBody argv t\<rparr>"
  let ?r = "arrives ?c [''v1'', ''worlds'', i, ''exec'']"
  have u: "execURL i False = ''http://vsock'' @ ''/v1/worlds/'' @ i @ ''/exec''" by (simp add: execURL_def)
  have "dispatch (guest_routes env) ?r = Serve GExec [i]"
    using assms(2) by (simp add: dispatch_def guest_routes_def arrives_def match_method_def plain_id_def)
  then have "guest_serve env v ?r (rd e) = guest_handleExec v ?r i (rd e)" by (simp add: guest_serve_def)
  also have "\<dots> = respondExec v (tenantExecArgs i (audit_path i) argv) (\<lparr>gq_Argv = argv, gq_Stdin = [], gq_Timeout = t\<rparr>, exec_timeout t) (audit_path i) (rd e)"
    by (simp add: guest_handleExec_def guest_parses [OF assms(1)])
  finally have serve: "guest_serve env v (by_path ''http://vsock'' ?c) (rd e) =
      respondExec v (tenantExecArgs i (audit_path i) argv) (\<lparr>gq_Argv = argv, gq_Stdin = [], gq_Timeout = t\<rparr>, exec_timeout t) (audit_path i) (rd e)"
    unfolding by_path_exec [OF assms(2), of "''http://vsock''"] .
  have front: "tp_do (guest_front env v rd wr) c e = (let (p, g) = guest_serve env v (by_path ''http://vsock'' c) (rd e) in (Inr (answers p), wr g e))" for c
    unfolding guest_front_def transport.simps ..
  show ?thesis
    unfolding u front serve using assms(3)
    by (intro exI [of _ "if audit_path i = [] then gs_emit (rd e) else forwardAudit v (gv_audit v (audit_path i) (tenant_command i argv t)) (gs_emit (rd e))"])
      (simp add: respondExec_def tenantExecArgs_def tenant_command_def after_command_def Let_def)
qed

section \<open>lot-boss to the agent\<close>

text \<open>A world in lot-boss's map that runs, under its own identifier.\<close>

definition running_slot :: "string \<Rightarrow> Boss \<Rightarrow> slot \<Rightarrow> bool" where
  "running_slot i b s \<longleftrightarrow> map_of (bs_worlds b) i = Some s \<and> \<not> sl_paused s \<and> w_ID (sl_w s) = i \<and> plain_id i"

lemma World_Exec_guest:
  assumes "sendable argv t" "plain_id (w_ID w)" "gv_run v (tenant_command (w_ID w) argv t) = Exited n out err"
    and "- (2 ^ 63) \<le> n" "n < 2 ^ 63" "valid_utf8 out" "valid_utf8 err"
  shows "\<exists>em. World_Exec (guest_front env v rd wr) w argv t e =
    (Inr \<lparr>xr_ExitCode = n, xr_Stdout = out, xr_Stderr = err\<rparr>, after_command wr (rd e) (tenant_command (w_ID w) argv t) e em)"
proof -
  obtain em where "tp_do (guest_front env v rd wr) \<lparr>hc_method = ''POST'', hc_url = execURL (w_ID w) False, hc_body = execBody argv t\<rparr> e =
    (Inr (answers (writeJSON 200 (Some (execResp_tree n out err)))), after_command wr (rd e) (tenant_command (w_ID w) argv t) e em)"
    using guest_exec [OF assms(1-3)] by iprover
  moreover have "tp_url (guest_front env v rd wr) u = None" for u by (simp add: guest_front_def)
  ultimately show ?thesis using result_read(1) [OF assms(4-7)]
    by (intro exI [of _ em]) (simp add: World_Exec_def doExec_def send_def answers_def writeJSON_def)
qed

text \<open>A slot after activity: its idle time starts anew.\<close>

definition used :: "int \<Rightarrow> string \<Rightarrow> slot \<Rightarrow> Boss \<Rightarrow> Boss" where
  "used now i s b = b\<lparr>bs_worlds := slot_update i (s\<lparr>sl_paused := False, sl_info := (sl_info s)\<lparr>bw_State := ''running''\<rparr>, sl_lastActive := now\<rparr>)
     (bs_worlds b)\<rparr>"

lemma boss_exec_guest:
  assumes s: "running_slot i b s" and body: "unmarshal_with execReq_of body = Some (argv, t)" and q: "sendable argv t"
    and r: "gv_run v (tenant_command i argv t) = Exited n out err"
    and x: "- (2 ^ 63) \<le> n" "n < 2 ^ 63" "valid_utf8 out" "valid_utf8 err"
    and net: "bn_vsock net = (\<lambda>w. guest_front env v (rd (w_ID w)) (wr (w_ID w)))"
  shows "\<exists>em. Boss_Exec net now i body (b, e) =
    (Inr (200, render (result_tree \<lparr>xr_ExitCode = n, xr_Stdout = out, xr_Stderr = err\<rparr>)), used now i s b,
     after_command (wr i) (rd i e) (tenant_command i argv t) e em)"
proof -
  have a: "onActivity (bn_fc net (sl_w s)) now s e = (s\<lparr>sl_paused := False, sl_info := (sl_info s)\<lparr>bw_State := ''running''\<rparr>, sl_lastActive := now\<rparr>, e)"
    using s by (simp add: running_slot_def onActivity_def)
  have w: "w_ID (sl_w s) = i" "plain_id i" "map_of (bs_worlds b) i = Some s" using s by (simp_all add: running_slot_def)
  have "\<exists>em. World_Exec (guest_front env v (rd i) (wr i)) (sl_w s) argv t e =
    (Inr \<lparr>xr_ExitCode = n, xr_Stdout = out, xr_Stderr = err\<rparr>, after_command (wr i) (rd i e) (tenant_command (w_ID (sl_w s)) argv t) e em)"
    by (rule World_Exec_guest [OF q _ _ x]) (simp_all only: w r)
  then obtain em where "World_Exec (guest_front env v (rd i) (wr i)) (sl_w s) argv t e =
    (Inr \<lparr>xr_ExitCode = n, xr_Stdout = out, xr_Stderr = err\<rparr>, after_command (wr i) (rd i e) (tenant_command (w_ID (sl_w s)) argv t) e em)" ..
  then show ?thesis using q body
    by (intro exI [of _ em]) (simp add: Boss_Exec_def touch_def used_def w a net sendable_def)
qed

section \<open>The whole way\<close>

lemma boss_front_url: "tp_url (boss_front wr en nx) u = None"
  by (simp add: boss_front_def)

abbreviation direct :: "string \<Rightarrow> 's wire" where
  "direct base \<equiv> \<lparr>wr_arrive = by_path base, wr_lost = (\<lambda>c st. None)\<rparr>"

text \<open>lot-boss behind its address answers a request as its handler does.\<close>

lemma boss_front_do:
  assumes "boss_serve (en e) (by_path base c) (b, h, e) = (p, b', h', e')"
  shows "tp_do (boss_front (direct base) en nx) c (b, h, e) = (Inr (answers p), b', h', nx e')"
  using assms by (simp only: boss_front_def transport.simps wire.simps Let_def prod.case snd_conv option.case)

lemma engine_exec_guest:
  assumes en: "bn_vsock (bv_net (en e)) = (\<lambda>w. guest_front genv v (rd (w_ID w)) (wr (w_ID w)))"
    and s: "running_slot i b s" and body: "unmarshal_with execReq_of body = Some (argv, t)" and q: "sendable argv t"
    and r: "gv_run v (tenant_command i argv t) = Exited n out err"
    and x: "- (2 ^ 63) \<le> n" "n < 2 ^ 63" "valid_utf8 out" "valid_utf8 err"
  shows "\<exists>em. HTTPEngine_Exec (base, boss_front (direct base) en nx) i body (b, h, e) =
    (Inr (200, render (result_tree \<lparr>xr_ExitCode = n, xr_Stdout = out, xr_Stderr = err\<rparr>)),
     used (bv_now (en e)) i s b, h, nx (after_command (wr i) (rd i e) (tenant_command i argv t) e em))"
proof -
  let ?c = "\<lparr>hc_method = ''POST'', hc_url = base @ ''/v1/worlds/'' @ i @ ''/exec'', hc_body = body\<rparr>"
  let ?r = "arrives ?c [''v1'', ''worlds'', i, ''exec'']"
  let ?o = "render (result_tree \<lparr>xr_ExitCode = n, xr_Stdout = out, xr_Stderr = err\<rparr>)"
  have i: "plain_id i" "i \<noteq> []" using s by (simp_all add: running_slot_def plain_id_def)
  obtain em where b: "Boss_Exec (bv_net (en e)) (bv_now (en e)) i body (b, e) =
    (Inr (200, ?o), used (bv_now (en e)) i s b, after_command (wr i) (rd i e) (tenant_command i argv t) e em)"
    using boss_exec_guest [where rd = rd and wr = wr, OF s body q r x en] by blast
  define e' where "e' = after_command (wr i) (rd i e) (tenant_command i argv t) e em"
  define b' where "b' = used (bv_now (en e)) i s b"
  note b = b [folded e'_def b'_def]
  have "dispatch boss_routes ?r = Serve BExec [i]"
    using i by (simp add: dispatch_def boss_routes_def arrives_def match_method_def)
  then have "boss_serve (en e) ?r (b, h, e) = (\<lparr>rs_code = 200, rs_body = ?o\<rparr>, b', h, e')"
    using b by (simp add: boss_serve_def boss_handleExec_def arrives_def)
  then have "boss_serve (en e) (by_path base ?c) (b, h, e) = (\<lparr>rs_code = 200, rs_body = ?o\<rparr>, b', h, e')"
    unfolding by_path_exec [OF i(1)] .
  from boss_front_do [where en = en and e = e, OF this, of nx] show ?thesis unfolding e'_def b'_def
    by (intro exI [of _ em]) (simp add: HTTPEngine_Exec_def send_def boss_front_url answers_def)
qed

lemma router_exec_dispatch:
  "i \<noteq> [] \<Longrightarrow> dispatch rt_routes (arrives \<lparr>hc_method = ''POST'', hc_url = u, hc_body = body\<rparr> [''v1'', ''worlds'', i, ''exec'']) = Serve RExec [i]"
  by (simp add: dispatch_def rt_routes_def arrives_def match_method_def)


text \<open>A listing in the world of the first example, whose agent answers with one file.\<close>

definition no_link :: "guest transport" where
  "no_link = \<lparr>tp_do = (\<lambda>c g. (Inl ''connection refused'', g)), tp_url = (\<lambda>u. None), tp_json = (\<lambda>b. [])\<rparr>"

definition listing_guest :: guest_env where
  "listing_guest = quiet_guest\<lparr>gv_run := (\<lambda>c. Exited 0 ''hello.txt'' [])\<rparr>"

definition guest_lot :: "guest boss_env" where
  "guest_lot = \<lparr>bv_lib = (\<lambda>_. []), bv_fmul = (\<lambda>_ _ _. 0),
     bv_net = \<lparr>bn_fc = (\<lambda>w. no_link), bn_vsock = (\<lambda>w. guest_front (\<lambda>_. []) listing_guest (\<lambda>g. g) (\<lambda>g' g. g')), bn_desk = no_link\<rparr>,
     bv_os = \<lparr>bo_open = (\<lambda>_. False), bo_stat = (\<lambda>_. True), bo_euid = 1000\<rparr>, bv_start = plain_env 7,
     bv_rnd = Inl ''no random bytes'', bv_now = 0, bv_order = id\<rparr>"

definition guest_router :: "guest boss_state RouterServer" where
  "guest_router = NewServer (Some (HTTPEngine_engine (''http://lot:8070'', boss_front (direct ''http://lot:8070'') (\<lambda>g. guest_lot) (\<lambda>g. g))))
     [] (desk_front no_link)"

definition one_world :: Boss where
  "one_world = \<lparr>bs_cfg = default_config (\<lambda>_. []) demo_config,
     bs_worlds = [(''w01020304'', \<lparr>sl_info = lease_info demo_body ''w01020304'' demo_world, sl_w = demo_world, sl_lastActive = 0,
       sl_ttlPause = 15 * minute, sl_paused = False\<rparr>)],
     bs_nextCID = 4, bs_stopping = False, bs_fwd = {#}\<rparr>"

abbreviation fresh_guest :: guest where
  "fresh_guest \<equiv> \<lparr>gs_emit = \<lparr>em_conn = None, em_room = None, em_count = 0\<rparr>, gs_ran = []\<rparr>"


end
