(* ===== verification/FleetCalls.thy ===== *)
theory FleetCalls
  imports ExecChain
begin

text \<open>
  What the calls of an agent do when the router and lot-boss are reached directly: each call of the agent, through the
  router's handler and its engine client, is the operation of lot-boss.
\<close>

section \<open>Paths\<close>

lemma by_path_plain:
  assumes "CHR ''?'' \<notin> set p"
  shows "by_path base \<lparr>hc_method = m, hc_url = base @ p, hc_body = b\<rparr> =
    arrives \<lparr>hc_method = m, hc_url = base @ p, hc_body = b\<rparr> (tl (split_on (CHR ''/'') p))"
proof -
  have "before_sep (CHR ''?'') p = p" using assms by (auto simp: before_sep_def intro!: takeWhile_list_all simp: list_all_iff)
  then show ?thesis by (simp add: by_path_def)
qed

lemma split_world:
  assumes "plain_id i"
  shows "split_on (CHR ''/'') (''/v1/worlds/'' @ i) = [[], ''v1'', ''worlds'', i]"
    "split_on (CHR ''/'') (''/v1/worlds/'' @ i @ ''/events'') = [[], ''v1'', ''worlds'', i, ''events'']"
proof -
  have "split_on (CHR ''/'') (''/v1/worlds'' @ CHR ''/'' # i) = [[], ''v1'', ''worlds''] @ [i]"
    unfolding split_on_append_sep using assms by (simp add: plain_id_def split_on_no_sep)
  then show "split_on (CHR ''/'') (''/v1/worlds/'' @ i) = [[], ''v1'', ''worlds'', i]" by simp
  have "split_on (CHR ''/'') (''/v1/worlds'' @ CHR ''/'' # i @ CHR ''/'' # ''events'') = [[], ''v1'', ''worlds''] @ [i] @ [''events'']"
    unfolding split_on_append_sep using assms by (simp add: plain_id_def split_on_no_sep)
  then show "split_on (CHR ''/'') (''/v1/worlds/'' @ i @ ''/events'') = [[], ''v1'', ''worlds'', i, ''events'']" by simp
qed

lemma by_path_worlds:
  "by_path base \<lparr>hc_method = m, hc_url = base @ ''/v1/worlds'', hc_body = b\<rparr> =
     arrives \<lparr>hc_method = m, hc_url = base @ ''/v1/worlds'', hc_body = b\<rparr> [''v1'', ''worlds'']"
  "by_path base \<lparr>hc_method = m, hc_url = base @ ''/health'', hc_body = b\<rparr> =
     arrives \<lparr>hc_method = m, hc_url = base @ ''/health'', hc_body = b\<rparr> [''health'']"
  by (subst by_path_plain; simp)+

lemma by_path_world:
  assumes "plain_id i"
  shows "by_path base \<lparr>hc_method = m, hc_url = base @ ''/v1/worlds/'' @ i, hc_body = b\<rparr> =
      arrives \<lparr>hc_method = m, hc_url = base @ ''/v1/worlds/'' @ i, hc_body = b\<rparr> [''v1'', ''worlds'', i]"
    "by_path base \<lparr>hc_method = m, hc_url = base @ ''/v1/worlds/'' @ i @ ''/events'', hc_body = b\<rparr> =
      arrives \<lparr>hc_method = m, hc_url = base @ ''/v1/worlds/'' @ i @ ''/events'', hc_body = b\<rparr> [''v1'', ''worlds'', i, ''events'']"
proof -
  have q: "CHR ''?'' \<notin> set (''/v1/worlds/'' @ i)" "CHR ''?'' \<notin> set (''/v1/worlds/'' @ i @ ''/events'')"
    using assms by (auto simp: plain_id_def)
  show "by_path base \<lparr>hc_method = m, hc_url = base @ ''/v1/worlds/'' @ i, hc_body = b\<rparr> =
      arrives \<lparr>hc_method = m, hc_url = base @ ''/v1/worlds/'' @ i, hc_body = b\<rparr> [''v1'', ''worlds'', i]"
    unfolding by_path_plain [OF q(1)] split_world(1) [OF assms] list.sel ..
  show "by_path base \<lparr>hc_method = m, hc_url = base @ ''/v1/worlds/'' @ i @ ''/events'', hc_body = b\<rparr> =
      arrives \<lparr>hc_method = m, hc_url = base @ ''/v1/worlds/'' @ i @ ''/events'', hc_body = b\<rparr> [''v1'', ''worlds'', i, ''events'']"
    unfolding by_path_plain [OF q(2)] split_world(2) [OF assms] list.sel ..
qed

section \<open>The engine client on lot-boss\<close>

definition health_members :: "'e boss_env \<Rightarrow> Boss \<Rightarrow> members" where
  "health_members v b = [(''engine_ready'', jbool (EngineReady (bv_os v) b)), (''euid'', jint (bo_euid (bv_os v))),
     (''max_worlds'', jint (cf_MaxWorlds (bs_cfg b))), (''ok'', JTrue), (''phase'', jnat 3), (''service'', jstr ''lot-boss''),
     (''warm_pool'', jint (cf_WarmPool (bs_cfg b)))]"

lemma jbool_simps [simp]: "jwf (jbool c)" "jdepth (jbool c) = 0" "dec_bool_ptr d (jbool c) = (True, Some c)"
  by (simp_all add: jbool_def dec_bool_ptr_def)

lemma health_members_wf: "wf_members (health_members v b)" "low_members (health_members v b)"
  by (simp_all add: health_members_def maxNestingDepth_def)

lemma health_read: "unmarshal_with health_of (render (JObj (health_members v b)) @ [nl]) = Some (Some (EngineReady (bv_os v) b), True)"
proof (rule unmarshal_members(2) [OF health_members_wf])
  have keys: "\<forall>m\<in>set (health_members v b). plain_key (fst m)" "distinct (map fst (health_members v b))"
    by (simp_all add: health_members_def)
  have "field_bool_ptr ''engine_ready'' None (health_members v b) = (True, Some (EngineReady (bv_os v) b))"
    by (rule field_with_map_of [OF keys]) (auto simp: health_members_def)
  moreover have "field_bool ''ok'' False (health_members v b) = (True, True)"
    by (rule field_with_map_of [OF keys]) (auto simp: health_members_def dec_bool_def)
  ultimately show "health_of (health_members v b) = (True, (Some (EngineReady (bv_os v) b), True))"
    by (simp add: health_of_def)
qed

lemma engine_available:
  "HTTPEngine_Available (base, boss_front (direct base) en nx) (b, h, e) = (EngineReady (bv_os (en e)) b, b, h, nx e)"
proof -
  let ?c = "\<lparr>hc_method = ''GET'', hc_url = base @ ''/health'', hc_body = []\<rparr>"
  let ?p = "writeJSON 200 (Some (JObj (health_members (en e) b)))"
  have "dispatch boss_routes (arrives ?c [''health'']) = Serve BHealth []"
    by (simp add: dispatch_def boss_routes_def arrives_def match_method_def)
  then have "boss_serve (en e) (by_path base ?c) (b, h, e) = (?p, b, h, e)"
    unfolding by_path_worlds by (simp add: boss_serve_def boss_handleHealth_def health_members_def)
  from boss_front_do [where en = en and e = e, OF this, of nx] show ?thesis
    by (simp add: HTTPEngine_Available_def send_def boss_front_url answers_def) (simp add: writeJSON_def health_read del: render_JObj)
qed

lemma engine_lease_direct:
  assumes "EngineReady (bv_os (en e)) b" "utf8_lease lr"
  shows "HTTPEngine_Lease (base, boss_front (direct base) en nx) lr (b, h, e) =
    (case Lease (bv_lib (en e)) (bv_fmul (en e)) (bv_net (en e)) (bv_start (en e)) (bv_rnd (en e)) (bv_now (en e))
        (lease_defaults (boss_body lr)) (b, h, e) of
       (Inr info, b', h', e') \<Rightarrow> (Inr (Some (info_view info)), b', h', nx e')
     | (Inl err, b', h', e') \<Rightarrow> (Inl (if contains err ''cap'' then ErrEngineUnavailable
         else EngineError (''lot-boss lease: : '' @ rs_body (httpError 502 err))), b', h', nx e'))"
proof -
  let ?c = "\<lparr>hc_method = ''POST'', hc_url = base @ ''/v1/worlds'', hc_body = render (lease_tree lr)\<rparr>"
  let ?f = "\<lambda>(b, h, e). (b, h, nx e)"
  obtain p b' h' e' where h: "boss_handleLease (en e) (arrives ?c [''v1'', ''worlds'']) (b, h, e) = (p, b', h', e')"
    by (rule prod_cases4)
  have "dispatch boss_routes (arrives ?c [''v1'', ''worlds'']) = Serve BLease []"
    by (simp add: dispatch_def boss_routes_def arrives_def match_method_def)
  then have "boss_serve (en e) (by_path base ?c) (b, h, e) = (p, b', h', e')"
    using h unfolding by_path_worlds by (simp add: boss_serve_def)
  from boss_front_do [where en = en and e = e, OF this, of nx]
  have "send (boss_front (direct base) en nx) ''POST'' (base @ ''/v1/worlds'') (render (lease_tree lr)) (b, h, e) =
      (let (p, st') = boss_handleLease (en e) (arrives ?c [''v1'', ''worlds'']) (b, h, e) in (Reply (answers p), ?f st'))"
    by (simp add: send_def boss_front_url h)
  from engine_lease [where f = ?f, OF _ assms(2) this] assms(1) show ?thesis
    by (auto split: sum.split prod.split)
qed

lemma engine_destroy_direct:
  assumes "plain_id i" "Destroy (bv_net (en e)) i (b, h, e) = (None, b', h', e')"
  shows "HTTPEngine_Destroy (base, boss_front (direct base) en nx) i (b, h, e) = (None, b', h', nx e')"
proof -
  let ?c = "\<lparr>hc_method = ''DELETE'', hc_url = base @ ''/v1/worlds/'' @ i, hc_body = []\<rparr>"
  let ?p = "writeJSON 200 (Some (JObj [(''destroyed'', JTrue), (''id'', jstr i), (''ok'', JTrue)]))"
  have "i \<noteq> []" using assms(1) by (simp add: plain_id_def)
  then have "dispatch boss_routes (arrives ?c [''v1'', ''worlds'', i]) = Serve BDestroy [i]"
    by (simp add: dispatch_def boss_routes_def arrives_def match_method_def)
  then have "boss_serve (en e) (by_path base ?c) (b, h, e) = (?p, b', h', e')"
    unfolding by_path_world(1) [OF assms(1)] using assms(2) by (simp add: boss_serve_def boss_handleDestroy_def)
  from boss_front_do [where en = en and e = e, OF this, of nx] show ?thesis
    by (simp add: HTTPEngine_Destroy_def send_def boss_front_url answers_def)
qed

lemma engine_exec_unknown:
  assumes "plain_id i" "map_of (bs_worlds b) i = None"
  shows "\<exists>body'. HTTPEngine_Exec (base, boss_front (direct base) en nx) i body (b, h, e) = (Inr (404, body'), b, h, nx e)"
proof -
  let ?c = "\<lparr>hc_method = ''POST'', hc_url = base @ ''/v1/worlds/'' @ i @ ''/exec'', hc_body = body\<rparr>"
  have "i \<noteq> []" using assms(1) by (simp add: plain_id_def)
  then have "dispatch boss_routes (arrives ?c [''v1'', ''worlds'', i, ''exec'']) = Serve BExec [i]"
    by (simp add: dispatch_def boss_routes_def arrives_def match_method_def)
  then have "boss_serve (en e) (by_path base ?c) (b, h, e) = (httpError 404 ''world not found'', b, h, e)"
    unfolding by_path_exec [OF assms(1)] using assms(2)
    by (simp add: boss_serve_def boss_handleExec_def arrives_def Boss_Exec_def touch_def contains_def)
  from boss_front_do [where en = en and e = e, OF this, of nx] show ?thesis
    by (simp add: HTTPEngine_Exec_def send_def boss_front_url answers_def)
qed

section \<open>The agent's calls\<close>

lemma router_front_url: "tp_url (router_front wr env rt) u = None"
  by (simp add: router_front_def)

lemma router_front_do:
  assumes "rt_serve env rt (by_path base c) st = (Some p, st')"
  shows "tp_do (router_front (direct base) env rt) c st = (Inr (answers p), st')"
  using assms by (simp only: router_front_def transport.simps wire.simps prod.case option.case)

lemma send_router:
  assumes "rt_serve env rt (by_path base \<lparr>hc_method = m, hc_url = u, hc_body = body\<rparr>) st = (Some p, st')"
  shows "send (router_front (direct base) env rt) m u body st = (Reply (answers p), st')"
  using router_front_do [OF assms] by (simp add: send_def router_front_url)

text \<open>The request of the tests: a profile and nothing else, completed by the router.\<close>

definition demo_request :: LeaseRequest where
  "demo_request = ApplyLeaseDefaults \<lparr>lr_Profile = ''demo'', lr_TTLPause = [], lr_TTLStore = [], lr_TTLPrune = [], lr_SessionID = []\<rparr>"

lemma demo_request_utf8: "utf8_lease demo_request"
  by (simp add: demo_request_def ApplyLeaseDefaults_def utf8_lease_def DefaultTTLPause_def DefaultTTLStore_def DefaultTTLPrune_def default_texts
      ascii_valid_utf8 ascii_string_def is_ascii_def)

lemma demo_request_session: "lr_SessionID demo_request = []"
  by (simp add: demo_request_def ApplyLeaseDefaults_def)

abbreviation demo_post :: string where
  "demo_post \<equiv> render (JObj [(''profile'', jstr ''demo'')])"

lemma demo_request_read:
  "request_json (arrives \<lparr>hc_method = m, hc_url = u, hc_body = demo_post\<rparr> p) = BodyVal (JObj [(''profile'', jstr ''demo'')])"
proof -
  have "decode_body demo_post = BodyVal (JObj [(''profile'', jstr ''demo'')])"
    by (rule decode_rendered) (simp, rule jdepth_JObj_le, simp add: maxNestingDepth_def)
  then show ?thesis by (simp add: request_json_def arrives_def del: render_JObj)
qed

lemma demo_lease_of: "lease_of [(''profile'', jstr ''demo'')] =
    (True, \<lparr>lr_Profile = ''demo'', lr_TTLPause = [], lr_TTLStore = [], lr_TTLPrune = [], lr_SessionID = []\<rparr>)"
proof -
  have "field_str k [] [(''profile'', jstr ''demo'')] = (True, if k = ''profile'' then ''demo'' else [])" if "plain_key k" for k
    by (rule field_with_map_of) (use that in \<open>auto simp: ascii_valid_utf8 ascii_string_def is_ascii_def split: if_splits\<close>)
  then show ?thesis by (simp add: lease_of_def)
qed

lemma router_lease:
  assumes "rs_Engine rt = HTTPEngine_engine (lot, boss_front (direct lot) en nx)" "EngineReady (bv_os (en e)) b"
  shows "rt_serve env rt (by_path base \<lparr>hc_method = ''POST'', hc_url = base @ ''/v1/worlds'', hc_body = demo_post\<rparr>) (m, b, h, e) =
    (case HTTPEngine_Lease (lot, boss_front (direct lot) en nx) demo_request (b, h, nx e) of
       (Inl err, st) \<Rightarrow> (Some (engine_failure 502 err), m, st)
     | (Inr None, st) \<Rightarrow> (Some (writeJSON 201 (Some JNull)), m, st)
     | (Inr (Some info), st) \<Rightarrow> (Some (writeJSON 201 (Some (info_tree info))), m, st))"
proof -
  let ?r = "arrives \<lparr>hc_method = ''POST'', hc_url = base @ ''/v1/worlds'', hc_body = demo_post\<rparr> [''v1'', ''worlds'']"
  have d: "dispatch rt_routes ?r = Serve RLease []"
    by (simp add: dispatch_def rt_routes_def arrives_def match_method_def)
  have s: "lease_session ?r demo_request = []" by (simp add: lease_session_def arrives_def demo_request_session)
  have "rt_serve env rt ?r (m, b, h, e) = lease_new rt demo_request [] (m, b, h, e)"
    using s by (simp add: rt_serve_def d rt_handleLease_def demo_request_read body_members_def as_members_def demo_lease_of
        demo_request_def [symmetric] Let_def del: render_JObj)
  also have "\<dots> = (case HTTPEngine_Lease (lot, boss_front (direct lot) en nx) demo_request (b, h, nx e) of
       (Inl err, st) \<Rightarrow> (Some (engine_failure 502 err), m, st)
     | (Inr None, st) \<Rightarrow> (Some (writeJSON 201 (Some JNull)), m, st)
     | (Inr (Some info), st) \<Rightarrow> (Some (writeJSON 201 (Some (info_tree info))), m, st))"
  proof -
    have "demo_request\<lparr>lr_SessionID := []\<rparr> = demo_request" by (simp add: demo_request_def ApplyLeaseDefaults_def)
    then show ?thesis using assms
      by (simp add: lease_new_def HTTPEngine_engine_def engine_available split: prod.split sum.split option.split)
  qed
  finally show ?thesis unfolding by_path_worlds .
qed

lemma reply_id:
  assumes "utf8_info i"
  shows "any_get (reply_map (render (info_tree i) @ [nl])) ''id'' = jstr (wi_ID i)"
proof -
  obtain ms where ms: "info_tree i = JObj ((''id'', jstr (wi_ID i)) # ms)" "wf_members ms" "low_members ms"
    "\<forall>m\<in>set ms. plain_key (fst m) \<and> fst m \<noteq> ''id''"
    by (simp add: info_tree_def) (auto simp: omit_str_def maxNestingDepth_def)
  have "parse_text (render (info_tree i) @ [nl]) = Some (JObj ((''id'', jstr (wi_ID i)) # ms))"
    unfolding ms(1) by (rule parse_text_line) (use ms in \<open>simp, intro jdepth_JObj_le, simp add: maxNestingDepth_def\<close>)
  moreover have "map_of (rev (map (\<lambda>(k, v). (unquote k, v)) ms)) ''id'' = None"
    using ms(4) by (force simp: map_of_eq_None_iff unquote_plain_key)
  ultimately show ?thesis
    by (simp add: reply_map_def go_map_def any_get_def map_add_def unquote_plain_key)
qed

text \<open>A lease that succeeds, and one on a full node.\<close>

lemma agent_leases:
  assumes rt: "rs_Engine rt = HTTPEngine_engine (lot, boss_front (direct lot) en nx)"
    and ready: "EngineReady (bv_os (en e)) b" "EngineReady (bv_os (en (nx e))) b"
    and l: "Lease (bv_lib (en (nx e))) (bv_fmul (en (nx e))) (bv_net (en (nx e))) (bv_start (en (nx e))) (bv_rnd (en (nx e))) (bv_now (en (nx e)))
        (lease_defaults (boss_body demo_request)) (b, h, nx e) = (Inr info, b', h', e')"
  shows "\<exists>mp. m3_post (router_front (direct base) env rt) base (m, b, h, e) = (Inr (Inr (mp, 201)), m, b', h', nx e')
    \<and> any_get mp ''id'' = jstr (bw_ID info)"
proof -
  have u: "utf8_info (info_view info)" by (rule lease_info_utf8 [OF demo_request_utf8 l])
  have "HTTPEngine_Lease (lot, boss_front (direct lot) en nx) demo_request (b, h, nx e) = (Inr (Some (info_view info)), b', h', nx e')"
    using engine_lease_direct [where en = en and e = "nx e", OF ready(2) demo_request_utf8, of lot nx h] l by simp
  with router_lease [OF rt ready(1)]
  have "rt_serve env rt (by_path base \<lparr>hc_method = ''POST'', hc_url = base @ ''/v1/worlds'', hc_body = demo_post\<rparr>) (m, b, h, e) =
      (Some (writeJSON 201 (Some (info_tree (info_view info)))), m, b', h', nx e')" by simp
  from send_router [OF this] reply_id [OF u] show ?thesis
    by (simp add: m3_post_def bar_call_def postJSON_def answers_def writeJSON_def info_view_def del: render_JObj)
qed

lemma agent_lease_full:
  assumes rt: "rs_Engine rt = HTTPEngine_engine (lot, boss_front (direct lot) en nx)"
    and ready: "EngineReady (bv_os (en e)) b" "EngineReady (bv_os (en (nx e))) b" and full: "\<not> bs_stopping b" "at_cap b"
  shows "\<exists>mp. m3_post (router_front (direct base) env rt) base (m, b, h, e) = (Inr (Inr (mp, 503)), m, b, h, nx (nx e))"
proof -
  have l: "Lease lib fmul net se rnd now body (b, h, nx e) = (Inl (cap_error b), b, h, nx e)" for lib fmul net se rnd now body
    using full by (simp add: Lease_def lease_begin_def)
  have "contains (cap_error b) ''cap''" by (simp add: cap_error_def contains_def)
  then have "HTTPEngine_Lease (lot, boss_front (direct lot) en nx) demo_request (b, h, nx e) = (Inl ErrEngineUnavailable, b, h, nx (nx e))"
    using engine_lease_direct [where en = en and e = "nx e", OF ready(2) demo_request_utf8, of lot nx h] by (simp add: l)
  with router_lease [OF rt ready(1)]
  have "rt_serve env rt (by_path base \<lparr>hc_method = ''POST'', hc_url = base @ ''/v1/worlds'', hc_body = demo_post\<rparr>) (m, b, h, e) =
      (Some (httpError 503 ''world engine unavailable''), m, b, h, nx (nx e))" by (simp add: engine_failure_def)
  from send_router [OF this] show ?thesis
    by (simp add: m3_post_def bar_call_def postJSON_def answers_def)
qed

text \<open>A command in a running world: the reply read by the agent shows its exit code and its output.\<close>

lemma result_reply:
  assumes "n = 0" "valid_utf8 out" "valid_utf8 err"
  shows "exec_zero v (Inr (reply_map (render (result_tree \<lparr>xr_ExitCode = n, xr_Stdout = out, xr_Stderr = err\<rparr>)), 200))"
    "call_stdout v (Inr (reply_map (render (result_tree \<lparr>xr_ExitCode = n, xr_Stdout = out, xr_Stderr = err\<rparr>)), 200)) = out"
proof -
  have t: "result_tree \<lparr>xr_ExitCode = n, xr_Stdout = out, xr_Stderr = err\<rparr> = JObj (result_members n out err)"
    by (simp add: result_tree_def result_members_def)
  have "parse_text (render (JObj (result_members n out err))) = Some (JObj (result_members n out err))"
    by (rule parse_rendered) (simp_all only: jwf_JObj result_members_wf jdepth_JObj_le)
  then have m: "reply_map (render (result_tree \<lparr>xr_ExitCode = n, xr_Stdout = out, xr_Stderr = err\<rparr>)) = go_map (result_members n out err)"
    unfolding t by (simp add: reply_map_def del: render_JObj)
  have "go_map (result_members n out err) = [''stderr'' \<mapsto> jstr err, ''stdout'' \<mapsto> jstr out, ''exit_code'' \<mapsto> jint n]"
    by (simp add: go_map_def result_members_def unquote_plain_key fun_upd_twist)
  moreover have "atoi (show_int 0) = Some 0" by (rule atoi_show_int) simp_all
  moreover have "unquote (quote out) = out" by (rule unquote_quote [OF assms(2)])
  ultimately show "exec_zero v (Inr (reply_map (render (result_tree \<lparr>xr_ExitCode = n, xr_Stdout = out, xr_Stderr = err\<rparr>)), 200))"
    "call_stdout v (Inr (reply_map (render (result_tree \<lparr>xr_ExitCode = n, xr_Stdout = out, xr_Stderr = err\<rparr>)), 200)) = out"
    using assms(1) unfolding m by (simp_all add: exec_zero_def call_stdout_def intField_def float_int_def jint_def any_get_def go_str_def jstr_def)
qed

lemma router_exec:
  assumes rt: "rs_Engine rt = HTTPEngine_engine (lot, boss_front (direct lot) en nx)" and i: "plain_id i"
    and x: "HTTPEngine_Exec (lot, boss_front (direct lot) en nx) i body (b, h, e) = (Inr (code, resp), st)" and c: "writable code"
  shows "send (router_front (direct base) env rt) ''POST'' (base @ ''/v1/worlds/'' @ i @ ''/exec'') body (m, b, h, e) =
    (Reply (answers \<lparr>rs_code = code, rs_body = resp\<rparr>), m, st)"
proof (rule send_router)
  have "i \<noteq> []" using i by (simp add: plain_id_def)
  from router_exec_dispatch [OF this] x c
  show "rt_serve env rt (by_path base \<lparr>hc_method = ''POST'', hc_url = base @ ''/v1/worlds/'' @ i @ ''/exec'', hc_body = body\<rparr>) (m, b, h, e) =
      (Some \<lparr>rs_code = code, rs_body = resp\<rparr>, m, st)"
    unfolding by_path_exec [OF i]
    by (simp add: rt_serve_def rt_handleExec_def rt HTTPEngine_engine_def write_raw_def arrives_def)
qed

lemma agent_exec_body:
  assumes rt: "rs_Engine rt = HTTPEngine_engine (lot, boss_front (direct lot) en nx)"
    and en: "bn_vsock (bv_net (en e)) = (\<lambda>w. guest_front genv v (rd (w_ID w)) (wr (w_ID w)))"
    and s: "running_slot i b s" and body: "unmarshal_with execReq_of body = Some (argv, t)" and q: "sendable argv t"
    and r: "gv_run v (tenant_command i argv t) = Exited n out err"
    and x: "- (2 ^ 63) \<le> n" "n < 2 ^ 63" "valid_utf8 out" "valid_utf8 err"
  shows "\<exists>em. send (router_front (direct base) env rt) ''POST'' (base @ ''/v1/worlds/'' @ i @ ''/exec'') body (m, b, h, e) =
    (Reply (answers \<lparr>rs_code = 200, rs_body = render (result_tree \<lparr>xr_ExitCode = n, xr_Stdout = out, xr_Stderr = err\<rparr>)\<rparr>),
     m, used (bv_now (en e)) i s b, h, nx (after_command (wr i) (rd i e) (tenant_command i argv t) e em))"
proof -
  have i: "plain_id i" using s by (simp add: running_slot_def)
  from engine_exec_guest [where en = en and e = e and rd = rd and wr = wr, OF en s body q r x, of lot nx h] obtain em where
    x: "HTTPEngine_Exec (lot, boss_front (direct lot) en nx) i body (b, h, e) =
      (Inr (200, render (result_tree \<lparr>xr_ExitCode = n, xr_Stdout = out, xr_Stderr = err\<rparr>)),
       used (bv_now (en e)) i s b, h, nx (after_command (wr i) (rd i e) (tenant_command i argv t) e em))" ..
  have "writable 200" by (simp add: writable_def)
  from router_exec [OF rt i x this] show ?thesis ..
qed

lemma agent_exec_unknown:
  assumes rt: "rs_Engine rt = HTTPEngine_engine (lot, boss_front (direct lot) en nx)" and i: "plain_id i" "map_of (bs_worlds b) i = None"
  shows "\<exists>mp. m3_exec (router_front (direct base) env rt) base i argv t (m, b, h, e) = (Inr (Inr (mp, 404)), m, b, h, nx e)"
proof -
  obtain resp where x: "HTTPEngine_Exec (lot, boss_front (direct lot) en nx) i (execBody argv t) (b, h, e) = (Inr (404, resp), b, h, nx e)"
    using engine_exec_unknown [OF i] by iprover
  have "writable 404" by (simp add: writable_def)
  from router_exec [OF rt i(1) x this] show ?thesis
    by (simp add: m3_exec_def bar_call_def execWorld_def answers_def)
qed

lemma agent_deletes:
  assumes rt: "rs_Engine rt = HTTPEngine_engine (lot, boss_front (direct lot) en nx)" and i: "plain_id i"
    and d: "Destroy (bv_net (en e)) i (b, h, e) = (None, b', h', e')"
  shows "deleteWorld (router_front (direct base) env rt) base i (m, b, h, e) = (Inr 200, UnbindWorld i m, b', h', nx e')"
proof -
  let ?c = "\<lparr>hc_method = ''DELETE'', hc_url = base @ ''/v1/worlds/'' @ i, hc_body = []\<rparr>"
  have "i \<noteq> []" using i by (simp add: plain_id_def)
  then have "dispatch rt_routes (arrives ?c [''v1'', ''worlds'', i]) = Serve RDelete [i]"
    by (simp add: dispatch_def rt_routes_def arrives_def match_method_def)
  then have "rt_serve env rt (by_path base ?c) (m, b, h, e) =
      (Some (writeJSON 200 (Some (JObj [(''destroyed'', JTrue), (''id'', jstr i), (''ok'', JTrue)]))), UnbindWorld i m, b', h', nx e')"
    unfolding by_path_world(1) [OF i] using engine_destroy_direct [where en = en and e = e, OF i d, of lot nx]
    by (simp add: rt_serve_def rt_handleDelete_def rt HTTPEngine_engine_def)
  from send_router [OF this] show ?thesis by (simp add: deleteWorld_def answers_def)
qed

lemma agent_events:
  assumes rt: "rs_desk rt = desk_front dk" "rs_DeskURL rt = url" "url \<noteq> []" "tp_url dk = (\<lambda>u. None)" and i: "plain_id i"
    and d: "tp_do dk \<lparr>hc_method = ''GET'', hc_url = url @ ''/v1/events?world_id='' @ i, hc_body = []\<rparr> e =
      (Inr \<lparr>hp_code = 200, hp_status = st, hp_body = txt\<rparr>, e')"
  shows "m3_events (router_front (direct base) env rt) base i (m, b, h, e) = (Inr (Inr txt), m, b, h, e')"
proof -
  let ?c = "\<lparr>hc_method = ''GET'', hc_url = base @ ''/v1/worlds/'' @ i @ ''/events'', hc_body = []\<rparr>"
  have "i \<noteq> []" using i by (simp add: plain_id_def)
  then have c: "dispatch rt_routes (arrives ?c [''v1'', ''worlds'', i, ''events'']) = Serve REvents [i]"
    by (simp add: dispatch_def rt_routes_def arrives_def match_method_def)
  have "send (rs_desk rt) ''GET'' (url @ ''/v1/events?world_id='' @ i) [] (b, h, e) =
      (Reply \<lparr>hp_code = 200, hp_status = st, hp_body = txt\<rparr>, b, h, e')"
    using d rt(4) unfolding rt(1) by (simp add: send_def desk_front_def)
  then have "rt_serve env rt (by_path base ?c) (m, b, h, e) = (Some \<lparr>rs_code = 200, rs_body = txt\<rparr>, m, b, h, e')"
    unfolding by_path_world(2) [OF i] using c rt(2,3)
    by (simp add: rt_serve_def rt_handleEvents_def Let_def arrives_def write_raw_def writable_def)
  from send_router [OF this] show ?thesis by (simp add: m3_events_def bar_call_def getEvents_def answers_def)
qed

end
