(* ===== verification/GoodNode.thy ===== *)
theory GoodNode
  imports M3Theorems FleetCalls
begin

text \<open>
  A fleet on which everything goes well: the three servers reached directly, a host on which every start
  succeeds under the jailer, guests that answer every command alike, and a desk that shows for each world whether its
  guest opened the decoy. The fleet's test passes on it.
\<close>

section \<open>The node\<close>

text \<open>The outside world: how many requests lot-boss has served, and the agent of each world.\<close>

record node =
  nd_tick :: nat
  nd_guests :: "string \<Rightarrow> guest"

definition tick :: "node \<Rightarrow> node" where
  "tick d = d\<lparr>nd_tick := Suc (nd_tick d)\<rparr>"

definition set_guest :: "string \<Rightarrow> guest \<Rightarrow> node \<Rightarrow> node" where
  "set_guest i g d = d\<lparr>nd_guests := (nd_guests d)(i := g)\<rparr>"

definition node_link :: "node transport" where
  "node_link = \<lparr>tp_do = (\<lambda>c d. (Inr \<lparr>hp_code = 200, hp_status = [], hp_body = []\<rparr>, d)), tp_url = (\<lambda>u. None), tp_json = (\<lambda>b. [])\<rparr>"

definition node_shown :: string where
  "node_shown = ''hello.txt CANARY''"

definition node_guest :: guest_env where
  "node_guest = quiet_guest\<lparr>gv_run := (\<lambda>c. Exited 0 node_shown [])\<rparr>"

definition node_net :: "node boss_net" where
  "node_net = \<lparr>bn_fc = (\<lambda>w. node_link), bn_vsock = (\<lambda>w. guest_front (\<lambda>_. []) node_guest (\<lambda>d. nd_guests d (w_ID w)) (set_guest (w_ID w))),
     bn_desk = node_link\<rparr>"

definition node_os :: boss_os where
  "node_os = \<lparr>bo_open = (\<lambda>_. True), bo_stat = (\<lambda>_. True), bo_euid = 0\<rparr>"

text \<open>Random bytes and process identifiers are drawn from the count of requests.\<close>

definition node_env :: "node \<Rightarrow> node boss_env" where
  "node_env d = \<lparr>bv_lib = (\<lambda>_. []), bv_fmul = (\<lambda>_ _ _. 0), bv_net = node_net, bv_os = node_os, bv_start = sudo_env\<lparr>se_pid := 100 + nd_tick d\<rparr>,
     bv_rnd = Inr [CHR 0x00, CHR 0x00, CHR 0x00, char_of (nd_tick d)], bv_now = 0, bv_order = (\<lambda>xs. xs)\<rparr>"

definition wid :: "nat \<Rightarrow> string" where
  "wid n = CHR ''w'' # hex_encode [CHR 0x00, CHR 0x00, CHR 0x00, char_of n]"

lemma wid_inject: "wid m = wid n \<longleftrightarrow> (char_of m :: char) = char_of n"
  by (simp add: wid_def)

lemma hex_encode_plain: "c \<in> set (hex_encode s) \<Longrightarrow> c \<noteq> CHR ''/'' \<and> c \<noteq> CHR ''?''"
proof -
  assume "c \<in> set (hex_encode s)"
  then obtain x where "c = hex_digit (byte x div 16) \<or> c = hex_digit (byte x mod 16)" by (auto simp: hex_encode_def)
  moreover have "byte x div 16 < 16" "byte x mod 16 < 16" using nat_of_char_less_256 [of x] by (auto intro: less_mult_imp_div_less)
  ultimately obtain n where "n < 16" "c = hex_digit n" by iprover
  then have "byte c \<noteq> 47 \<and> byte c \<noteq> 63" using byte_hex_digit [of n] by (auto split: if_splits)
  then show ?thesis by auto
qed

lemma wid_plain: "plain_id (wid n)"
  using hex_encode_plain by (auto simp: plain_id_def wid_def)

definition canary :: string where
  "canary = ''/opt/grok/CANARY.txt''"

definition opened :: "guest \<Rightarrow> bool" where
  "opened g \<longleftrightarrow> list_ex (\<lambda>c. last (cm_args c) = canary) (gs_ran g)"

definition kind_event :: "string \<Rightarrow> string" where
  "kind_event k = ''[{'' @ kind_text k @ ''}]''"

definition node_desk :: "string \<Rightarrow> node transport" where
  "node_desk url = \<lparr>tp_do = (\<lambda>c d. (Inr \<lparr>hp_code = 200, hp_status = [],
       hp_body = kind_event (if opened (nd_guests d (drop (length (url @ ''/v1/events?world_id='')) (hc_url c))) then ''decoy_open'' else ''start'')\<rparr>, d)),
     tp_url = (\<lambda>u. None), tp_json = (\<lambda>b. [])\<rparr>"

lemma node_events: "eventsHaveKind (kind_event ''decoy_open'') ''decoy_open''" "\<not> eventsHaveKind (kind_event ''start'') ''decoy_open''"
  by (simp_all add: eventsHaveKind_def kind_event_def kind_text_def quoted_def contains_def)

section \<open>The state between calls\<close>

text \<open>A slot as it was leased: its identifier, process and CID.\<close>

type_synonym lease = "string \<times> nat \<times> u32"

definition slot_is :: "string \<times> slot \<Rightarrow> lease \<Rightarrow> bool" where
  "slot_is x l \<longleftrightarrow> fst x = fst l \<and> \<not> sl_paused (snd x) \<and> w_ID (sl_w (snd x)) = fst l \<and> w_cmd (sl_w (snd x)) = Some (fst (snd l))
     \<and> w_GuestCID (sl_w (snd x)) = snd (snd l) \<and> w_Engine (sl_w (snd x)) = ''jailer''"

text \<open>After \<open>n\<close> requests, with the next CID, the worlds leased and the worlds whose decoy was opened.\<close>

definition good :: "Config \<Rightarrow> nat \<Rightarrow> u32 \<Rightarrow> lease list \<Rightarrow> string set \<Rightarrow> node m3_state \<Rightarrow> bool" where
  "good cfg n c ws C s \<longleftrightarrow> (case s of (m, b, h, d) \<Rightarrow> \<not> bs_stopping b \<and> bs_cfg b = cfg \<and> bs_nextCID b = c
     \<and> list_all2 slot_is (bs_worlds b) ws \<and> nd_tick d = n \<and> (\<forall>i. opened (nd_guests d i) \<longleftrightarrow> i \<in> C))"

lemma slots_keys: "list_all2 slot_is bs ws \<Longrightarrow> map fst bs = map fst ws"
  by (induction rule: list_all2_induct) (auto simp: slot_is_def)

lemma slots_get:
  assumes "list_all2 slot_is bs ws" "distinct (map fst ws)" "l \<in> set ws"
  shows "\<exists>s. map_of bs (fst l) = Some s \<and> slot_is (fst l, s) l"
  using assms
proof (induction rule: list_all2_induct)
  case (Cons x xs y ys)
  have x: "fst x = fst y" using Cons.hyps by (simp add: slot_is_def)
  show ?case
  proof (cases "l = y")
    case True
    with x Cons.hyps show ?thesis by (cases x) (simp add: slot_is_def)
  next
    case False
    with Cons.prems have "l \<in> set ys" "fst l \<noteq> fst y" by (auto simp: rev_image_eqI)
    with x Cons.IH Cons.prems show ?thesis by (cases x) simp
  qed
qed simp

lemma slots_update:
  assumes "list_all2 slot_is bs ws" "distinct (map fst ws)" "l \<in> set ws" "slot_is (fst l, s) l"
  shows "list_all2 slot_is (slot_update (fst l) s bs) ws"
  using assms
proof (induction rule: list_all2_induct)
  case (Cons x xs y ys)
  have x: "fst x = fst y" using Cons.hyps by (simp add: slot_is_def)
  show ?case
  proof (cases "l = y")
    case True
    with x Cons show ?thesis by simp
  next
    case False
    with Cons.prems have "l \<in> set ys" "fst l \<noteq> fst y" by (auto simp: rev_image_eqI)
    with x Cons show ?thesis by simp
  qed
qed simp

lemma slots_delete: "list_all2 slot_is bs ws \<Longrightarrow> list_all2 slot_is (slot_delete i bs) (filter (\<lambda>l. fst l \<noteq> i) ws)"
  by (induction rule: list_all2_induct) (auto simp: slot_is_def)

lemma slots_alive: "list_all2 slot_is bs ws \<Longrightarrow> list_ex (\<lambda>x. w_cmd (sl_w (snd x)) = Some p) bs \<longleftrightarrow> p \<in> (\<lambda>l. fst (snd l)) ` set ws"
  by (induction rule: list_all2_induct) (auto simp: slot_is_def)

section \<open>The calls\<close>

definition good_stack :: "Config \<Rightarrow> node boss_state RouterServer \<Rightarrow> string \<Rightarrow> string \<Rightarrow> bool" where
  "good_stack cfg rt lot url \<longleftrightarrow> rs_Engine rt = HTTPEngine_engine (lot, boss_front (direct lot) node_env tick) \<and> rs_desk rt = desk_front (node_desk url)
     \<and> rs_DeskURL rt = url \<and> url \<noteq> [] \<and> cf_MaxWorlds cfg = 3 \<and> cf_WaitKVM cfg \<noteq> [] \<and> (\<forall>b. bs_cfg b = cfg \<longrightarrow> EngineReady node_os b)"

lemma node_env_simps [simp]: "bv_net (node_env d) = node_net" "bv_os (node_env d) = node_os" "bv_now (node_env d) = 0"
  by (simp_all add: node_env_def)

lemma node_start:
  assumes "cf_WaitKVM cfg \<noteq> []" "3 \<le> c"
  shows "\<exists>w h'. World_Start lib (sudo_env\<lparr>se_pid := p\<rparr>) (lease_opts cfg i c) h = (Inr w, h') \<and> w_ID w = i \<and> w_cmd w = Some p
    \<and> w_GuestCID w = c \<and> w_Engine w = ''jailer''"
proof -
  have "\<not> c < 3" using assms(2) by (rule leD)
  moreover have "c \<noteq> 0" using assms(2) by (cases "c = 0") simp_all
  ultimately show ?thesis using assms(1)
    by (simp add: World_Start_def start_folder_def prepare_jail_def launch_def startVMM_def sudo_env_def lease_opts_def new_world_def
        resolveWaitKVM_def dropIDs_def drop_uid_def drop_gid_def atoi_1000 copyFile_def chownTree_def prefix_err_def Let_def
        effective_cid_def overlayHostKvm_def waitHealth_def)
qed

lemma node_commit: "snd (commitDesk node_link cfg i k p e) = e"
  by (simp add: commitDesk_def commitDeskRaw_def send_def node_link_def)

lemma node_lease:
  assumes "\<not> bs_stopping b" "cf_MaxWorlds (bs_cfg b) = 3" "length (bs_worlds b) < 3" "cf_WaitKVM (bs_cfg b) \<noteq> []" "3 \<le> bs_nextCID b"
    and n: "nd_tick d = n" "wid n \<notin> fst ` set (bs_worlds b)"
  shows "\<exists>info s b' h'. Lease (bv_lib (node_env d)) (bv_fmul (node_env d)) node_net (bv_start (node_env d)) (bv_rnd (node_env d)) 0 body (b, h, d)
      = (Inr info, b', h', d) \<and> bw_ID info = wid n \<and> b' = b\<lparr>bs_nextCID := bs_nextCID b + 1, bs_fwd := add_mset (wid n) (bs_fwd b),
          bs_worlds := bs_worlds b @ [(wid n, s)]\<rparr>
      \<and> slot_is (wid n, s) (wid n, 100 + n, bs_nextCID b)"
proof -
  obtain w h' where w: "World_Start (bv_lib (node_env d)) (bv_start (node_env d)) (lease_opts (bs_cfg b) (wid n) (bs_nextCID b)) h = (Inr w, h')"
    "w_ID w = wid n" "w_cmd w = Some (100 + n)" "w_GuestCID w = bs_nextCID b" "w_Engine w = ''jailer''"
    using node_start [OF assms(4,5), of "\<lambda>_. []" "100 + n" "wid n" h] n(1) by (auto simp: node_env_def)
  let ?s = "\<lparr>sl_info = lease_info body (wid n) w, sl_w = w, sl_lastActive = 0,
    sl_ttlPause = parseTTLPause (bv_fmul (node_env d)) (lb_TTLPause body), sl_paused = False\<rparr>"
  have "lease_begin (bv_rnd (node_env d)) b = (Inr (wid n, bs_nextCID b), b\<lparr>bs_nextCID := bs_nextCID b + 1\<rparr>)"
    using assms(1-3) n(1) by (simp add: lease_begin_def at_cap_def newWorldID_def node_env_def wid_def)
  moreover have "lease_finish (bv_fmul (node_env d)) node_net 0 body (wid n) w (lease_forward (wid n) (b\<lparr>bs_nextCID := bs_nextCID b + 1\<rparr>), h', d) =
    (Inr (lease_info body (wid n) w), b\<lparr>bs_nextCID := bs_nextCID b + 1, bs_fwd := add_mset (wid n) (bs_fwd b),
      bs_worlds := bs_worlds b @ [(wid n, ?s)]\<rparr>, h', d)"
    using assms(2,3) slot_update_fresh [OF n(2)]
    by (simp add: lease_finish_def lease_forward_def at_cap_def Let_def split_def node_commit node_net_def)
  ultimately have "Lease (bv_lib (node_env d)) (bv_fmul (node_env d)) node_net (bv_start (node_env d)) (bv_rnd (node_env d)) 0 body (b, h, d) =
    (Inr (lease_info body (wid n) w), b\<lparr>bs_nextCID := bs_nextCID b + 1, bs_fwd := add_mset (wid n) (bs_fwd b),
      bs_worlds := bs_worlds b @ [(wid n, ?s)]\<rparr>, h', d)"
    using w(1) by (simp add: Lease_def)
  moreover have "bw_ID (lease_info body (wid n) w) = wid n" "slot_is (wid n, ?s) (wid n, 100 + n, bs_nextCID b)"
    using w by (simp_all add: lease_info_def slot_is_def)
  ultimately show ?thesis by blast
qed

lemma goodE:
  assumes "good cfg n c ws C s"
  obtains m b h d where "s = (m, b, h, d)" "\<not> bs_stopping b" "bs_cfg b = cfg" "bs_nextCID b = c" "list_all2 slot_is (bs_worlds b) ws"
    "nd_tick d = n" "\<And>i. opened (nd_guests d i) \<longleftrightarrow> i \<in> C"
  using assms by (cases s) (auto simp: good_def)

lemma tick_simps [simp]: "nd_tick (tick d) = Suc (nd_tick d)" "nd_guests (tick d) = nd_guests d"
  by (simp_all add: tick_def)

lemma good_lease:
  assumes st: "good_stack cfg rt lot url" and n: "length ws < 3" "3 \<le> c" "wid (Suc n) \<notin> fst ` set ws"
  shows "passes (good cfg n c ws C) (m3_post (router_front (direct base) env rt) base)
    (\<lambda>r s. (\<exists>mp. r = Inr (mp, 201) \<and> any_get mp ''id'' = jstr (wid (Suc n))) \<and> good cfg (Suc (Suc n)) (c + 1) (ws @ [(wid (Suc n), 101 + n, c)]) C s)"
proof (rule passesI)
  fix s
  assume "good cfg n c ws C s"
  then obtain m b h d where s: "s = (m, b, h, d)" "\<not> bs_stopping b" "bs_cfg b = cfg" "bs_nextCID b = c" "list_all2 slot_is (bs_worlds b) ws"
    "nd_tick d = n" "\<And>i. opened (nd_guests d i) \<longleftrightarrow> i \<in> C" by (rule goodE) blast
  have ready: "EngineReady (bv_os (node_env x)) b" for x using st s(3) by (simp add: good_stack_def)
  have fresh: "wid (Suc n) \<notin> fst ` set (bs_worlds b)" using n(3) slots_keys [OF s(5)] by (metis set_map)
  have len: "length (bs_worlds b) < 3" using n(1) list_all2_lengthD [OF s(5)] by simp
  obtain info sl b' h' where l: "Lease (bv_lib (node_env (tick d))) (bv_fmul (node_env (tick d))) node_net (bv_start (node_env (tick d)))
      (bv_rnd (node_env (tick d))) 0 (lease_defaults (boss_body demo_request)) (b, h, tick d) = (Inr info, b', h', tick d)"
    "bw_ID info = wid (Suc n)" "b' = b\<lparr>bs_nextCID := c + 1, bs_fwd := add_mset (wid (Suc n)) (bs_fwd b), bs_worlds := bs_worlds b @ [(wid (Suc n), sl)]\<rparr>"
    "slot_is (wid (Suc n), sl) (wid (Suc n), 101 + n, c)"
    using node_lease [where b = b and d = "tick d" and n = "Suc n" and h = h and body = "lease_defaults (boss_body demo_request)"] s len fresh n(2) st by (auto simp: good_stack_def)
  have "good cfg (Suc (Suc n)) (c + 1) (ws @ [(wid (Suc n), 101 + n, c)]) C (m, b', h', tick (tick d))"
    using s l(3,4) by (auto simp: good_def intro!: list_all2_appendI)
  moreover obtain mp where "m3_post (router_front (direct base) env rt) base s = (Inr (Inr (mp, 201)), m, b', h', tick (tick d))"
    "any_get mp ''id'' = jstr (wid (Suc n))"
    using agent_leases [where en = node_env and e = d and nx = tick and b = b and h = h and rt = rt and lot = lot] l ready st s(1)
    unfolding good_stack_def by fastforce
  ultimately show "\<exists>r t. m3_post (router_front (direct base) env rt) base s = (Inr r, t)
    \<and> (\<exists>mp. r = Inr (mp, 201) \<and> any_get mp ''id'' = jstr (wid (Suc n))) \<and> good cfg (Suc (Suc n)) (c + 1) (ws @ [(wid (Suc n), 101 + n, c)]) C t"
    by blast
qed

lemma good_full:
  assumes st: "good_stack cfg rt lot url" and n: "length ws = 3"
  shows "passes (good cfg n c ws C) (m3_post (router_front (direct base) env rt) base) (\<lambda>r s. reply_code r = 503 \<and> good cfg (Suc (Suc n)) c ws C s)"
proof (rule passesI)
  fix s
  assume "good cfg n c ws C s"
  then obtain m b h d where s: "s = (m, b, h, d)" "\<not> bs_stopping b" "bs_cfg b = cfg" "bs_nextCID b = c" "list_all2 slot_is (bs_worlds b) ws"
    "nd_tick d = n" "\<And>i. opened (nd_guests d i) \<longleftrightarrow> i \<in> C" by (rule goodE) blast
  have ready: "EngineReady (bv_os (node_env x)) b" for x using st s(3) by (simp add: good_stack_def)
  have cap: "at_cap b" using n list_all2_lengthD [OF s(5)] s(3) st by (simp add: at_cap_def good_stack_def)
  obtain mp where "m3_post (router_front (direct base) env rt) base s = (Inr (Inr (mp, 503)), m, b, h, tick (tick d))"
    using agent_lease_full [where en = node_env and e = d and nx = tick and b = b and h = h and rt = rt and lot = lot] st ready s(1,2) cap
    unfolding good_stack_def by blast
  then show "\<exists>r t. m3_post (router_front (direct base) env rt) base s = (Inr r, t) \<and> reply_code r = 503 \<and> good cfg (Suc (Suc n)) c ws C t"
    using s by (auto simp: good_def reply_code_def)
qed

definition shown :: "node m3_env \<Rightarrow> call_result \<Rightarrow> bool" where
  "shown v r \<longleftrightarrow> exec_zero v r \<and> call_stdout v r = node_shown \<and> reply_code r = 200"

definition node_result :: ExecResult where
  "node_result = \<lparr>xr_ExitCode = 0, xr_Stdout = node_shown, xr_Stderr = []\<rparr>"

lemma node_result_shown: "shown v (Inr (reply_map (render (result_tree node_result)), 200))"
  using result_reply [of 0 node_shown "[]" v]
  by (simp add: shown_def node_result_def reply_code_def node_shown_def ascii_valid_utf8 ascii_string_def is_ascii_def)

lemma opened_command: "argv \<noteq> [] \<Longrightarrow> opened (\<lparr>gs_emit = em, gs_ran = gs_ran g @ [tenant_command i argv t]\<rparr>) \<longleftrightarrow> opened g \<or> last argv = canary"
  by (simp add: opened_def tenant_command_def)

lemma good_send:
  assumes st: "good_stack cfg rt lot url" and g: "good cfg n c ws C s"
    and l: "l \<in> set ws" "distinct (map fst ws)" "plain_id (fst l)"
    and body: "unmarshal_with execReq_of body = Some (argv, t)" and q: "sendable argv t"
  shows "\<exists>s'. send (router_front (direct base) env rt) ''POST'' (base @ ''/v1/worlds/'' @ fst l @ ''/exec'') body s =
      (Reply (answers \<lparr>rs_code = 200, rs_body = render (result_tree node_result)\<rparr>), s')
    \<and> good cfg (Suc n) c ws (if last argv = canary then insert (fst l) C else C) s'"
proof -
  from g obtain m b h d where s: "s = (m, b, h, d)" "\<not> bs_stopping b" "bs_cfg b = cfg" "bs_nextCID b = c" "list_all2 slot_is (bs_worlds b) ws"
    "nd_tick d = n" "\<And>i. opened (nd_guests d i) \<longleftrightarrow> i \<in> C" by (rule goodE) blast
  obtain sl where sl: "map_of (bs_worlds b) (fst l) = Some sl" "slot_is (fst l, sl) l" using slots_get [OF s(5) l(2,1)] by blast
  have run: "running_slot (fst l) b sl" using sl l(3) by (simp add: running_slot_def slot_is_def)
  have en: "bn_vsock (bv_net (node_env d)) = (\<lambda>w. guest_front (\<lambda>_. []) node_guest (\<lambda>d. nd_guests d (w_ID w)) (set_guest (w_ID w)))"
    by (simp add: node_net_def)
  have r: "gv_run node_guest (tenant_command (fst l) argv t) = Exited 0 node_shown []" by (simp add: node_guest_def)
  have u: "valid_utf8 node_shown" "valid_utf8 []" by (simp_all add: node_shown_def ascii_valid_utf8 ascii_string_def is_ascii_def)
  have e: "rs_Engine rt = HTTPEngine_engine (lot, boss_front (direct lot) node_env tick)" using st by (simp add: good_stack_def)
  obtain em where x: "send (router_front (direct base) env rt) ''POST'' (base @ ''/v1/worlds/'' @ fst l @ ''/exec'') body s =
      (Reply (answers \<lparr>rs_code = 200, rs_body = render (result_tree node_result)\<rparr>), m, used 0 (fst l) sl b, h,
        tick (after_command (set_guest (fst l)) (nd_guests d (fst l)) (tenant_command (fst l) argv t) d em))"
    using agent_exec_body [where en = node_env and e = d and rd = "\<lambda>i d. nd_guests d i" and wr = set_guest, OF e en run body q r _ _ u, of base env m h]
    unfolding node_result_def s(1) by auto
  have "argv \<noteq> []" using q by (simp add: sendable_def)
  moreover have "list_all2 slot_is (bs_worlds (used 0 (fst l) sl b)) ws"
    using slots_update [OF s(5) l(2,1)] sl(2) by (simp add: used_def slot_is_def)
  ultimately have "good cfg (Suc n) c ws (if last argv = canary then insert (fst l) C else C)
      (m, used 0 (fst l) sl b, h, tick (after_command (set_guest (fst l)) (nd_guests d (fst l)) (tenant_command (fst l) argv t) d em))"
    using s(2-4,6,7) by (auto simp: good_def used_def after_command_def set_guest_def opened_command)
  with x show ?thesis by blast
qed

lemma good_world_exec:
  assumes "good_stack cfg rt lot url" "l \<in> set ws" "distinct (map fst ws)" "plain_id (fst l)" "sendable argv t"
  shows "passes (good cfg n c ws C) (m3_exec (router_front (direct base) env rt) base (fst l) argv t)
    (\<lambda>r s. shown v r \<and> good cfg (Suc n) c ws (if last argv = canary then insert (fst l) C else C) s)"
  unfolding m3_exec_def
proof (rule passes_call)
  fix s
  assume g: "good cfg n c ws C s"
  have "unmarshal_with execReq_of (execBody argv t) = Some (argv, t)"
    by (rule execBody_read) (use assms(5) in \<open>simp_all add: sendable_def\<close>)
  from good_send [OF assms(1) g assms(2-4) this assms(5), of base env] node_result_shown [of v]
  show "\<exists>r s'. execWorld (router_front (direct base) env rt) base (fst l) argv t s = (r, s')
    \<and> shown v r \<and> good cfg (Suc n) c ws (if last argv = canary then insert (fst l) C else C) s'"
    by (auto simp: execWorld_def answers_def)
qed

lemma good_unknown:
  assumes "good_stack cfg rt lot url" "plain_id i" "i \<notin> fst ` set ws"
  shows "passes (good cfg n c ws C) (m3_exec (router_front (direct base) env rt) base i argv t) (\<lambda>r s. reply_code r = 404 \<and> good cfg (Suc n) c ws C s)"
proof (rule passesI)
  fix s
  assume "good cfg n c ws C s"
  then obtain m b h d where s: "s = (m, b, h, d)" "\<not> bs_stopping b" "bs_cfg b = cfg" "bs_nextCID b = c" "list_all2 slot_is (bs_worlds b) ws"
    "nd_tick d = n" "\<And>i. opened (nd_guests d i) \<longleftrightarrow> i \<in> C" by (rule goodE) blast
  have "map_of (bs_worlds b) i = None" using assms(3) slots_keys [OF s(5)] by (metis map_of_eq_None_iff set_map)
  then obtain mp where "m3_exec (router_front (direct base) env rt) base i argv t s = (Inr (Inr (mp, 404)), m, b, h, tick d)"
    using agent_exec_unknown [where en = node_env and e = d and nx = tick and b = b and h = h and rt = rt and lot = lot] assms(1,2) s(1)
    unfolding good_stack_def by blast
  then show "\<exists>r t'. m3_exec (router_front (direct base) env rt) base i argv t s = (Inr r, t') \<and> reply_code r = 404 \<and> good cfg (Suc n) c ws C t'"
    using s by (auto simp: good_def reply_code_def)
qed

lemma good_delete:
  assumes "good_stack cfg rt lot url" "l \<in> set ws" "distinct (map fst ws)" "plain_id (fst l)"
  shows "passes (good cfg n c ws C) (bar_call (deleteWorld (router_front (direct base) env rt) base (fst l)))
    (\<lambda>r s. r = Inr 200 \<and> good cfg (Suc n) c (filter (\<lambda>k. fst k \<noteq> fst l) ws) C s)"
proof (rule passes_call)
  fix s
  assume "good cfg n c ws C s"
  then obtain m b h d where s: "s = (m, b, h, d)" "\<not> bs_stopping b" "bs_cfg b = cfg" "bs_nextCID b = c" "list_all2 slot_is (bs_worlds b) ws"
    "nd_tick d = n" "\<And>i. opened (nd_guests d i) \<longleftrightarrow> i \<in> C" by (rule goodE) blast
  obtain sl where sl: "map_of (bs_worlds b) (fst l) = Some sl" using slots_get [OF s(5) assms(3,2)] by blast
  obtain b' h' where d: "Destroy node_net (fst l) (b, h, d) = (None, b', h', d)" "bs_worlds b' = slot_delete (fst l) (bs_worlds b)"
    "\<not> bs_stopping b'" "bs_cfg b' = cfg" "bs_nextCID b' = c"
    using sl s(2-4) by (simp add: Destroy_def destroy_begin_def destroy_finish_def Let_def split_def node_commit node_net_def)
  have "deleteWorld (router_front (direct base) env rt) base (fst l) s = (Inr 200, UnbindWorld (fst l) m, b', h', tick d)"
    using agent_deletes [where en = node_env and e = d and nx = tick and b = b and h = h and rt = rt and lot = lot] assms(1,4) s(1) d(1)
    unfolding good_stack_def by simp
  then show "\<exists>r t. deleteWorld (router_front (direct base) env rt) base (fst l) s = (r, t) \<and> r = Inr 200
      \<and> good cfg (Suc n) c (filter (\<lambda>k. fst k \<noteq> fst l) ws) C t"
    using s(6,7) d(2-5) slots_delete [OF s(5)] by (auto simp: good_def)
qed

lemma node_desk_url: "tp_url (node_desk url) = (\<lambda>u. None)"
  by (simp add: node_desk_def)

lemma good_events:
  assumes "good_stack cfg rt lot url" "plain_id i"
  shows "passes (good cfg n c ws C) (m3_events (router_front (direct base) env rt) base i)
    (\<lambda>r s. r = Inr (kind_event (if i \<in> C then ''decoy_open'' else ''start'')) \<and> good cfg n c ws C s)"
proof (rule passesI)
  fix s
  assume g: "good cfg n c ws C s"
  then obtain m b h d where s: "s = (m, b, h, d)" "\<And>i. opened (nd_guests d i) \<longleftrightarrow> i \<in> C" by (rule goodE) blast
  let ?txt = "kind_event (if i \<in> C then ''decoy_open'' else ''start'')"
  have d: "tp_do (node_desk url) \<lparr>hc_method = ''GET'', hc_url = url @ ''/v1/events?world_id='' @ i, hc_body = []\<rparr> d =
      (Inr \<lparr>hp_code = 200, hp_status = [], hp_body = ?txt\<rparr>, d)"
    by (simp add: node_desk_def s(2))
  have "m3_events (router_front (direct base) env rt) base i s = (Inr (Inr ?txt), m, b, h, d)"
    unfolding s(1) using assms(1) node_desk_url by (intro agent_events [OF _ _ _ _ assms(2) d]) (simp_all add: good_stack_def)
  with g s(1) show "\<exists>r t. m3_events (router_front (direct base) env rt) base i s = (Inr r, t) \<and> r = Inr ?txt \<and> good cfg n c ws C t" by simp
qed

section \<open>The bars\<close>

definition undisturbed :: "node m3_env \<Rightarrow> bool" where
  "undisturbed v \<longleftrightarrow> m3_order v = (\<lambda>n xs. xs) \<and> m3_sleep v = (\<lambda>n s. s)
     \<and> m3_alive v = (\<lambda>s p. list_ex (\<lambda>x. w_cmd (sl_w (snd x)) = Some p) (bs_worlds (the_boss s)))"

lemma good_alive: "undisturbed v \<Longrightarrow> good cfg n c ws C s \<Longrightarrow> m3_alive v s p \<longleftrightarrow> p \<in> (\<lambda>l. fst (snd l)) ` set ws"
  by (erule goodE) (simp add: undisturbed_def slots_alive)

lemma good_live: "good cfg n c ws C s \<Longrightarrow> map fst (bs_worlds (the_boss s)) = map fst ws"
  by (auto simp: slots_keys elim!: goodE)

lemma good_meta:
  assumes "good cfg n c ws C s" "distinct (map fst ws)" "l \<in> set ws"
  shows "\<exists>jail. SlotMeta (fst l) (the_boss s) = Some (jail, fst (snd l), snd (snd l), ''jailer'')"
proof -
  from assms(1) obtain m b h d where s: "s = (m, b, h, d)" "list_all2 slot_is (bs_worlds b) ws" by (rule goodE) blast
  from slots_get [OF s(2) assms(2,3)] s(1) show ?thesis by (auto simp: SlotMeta_def slot_is_def CmdPid_def)
qed

lemma good_pause: "undisturbed v \<Longrightarrow> passes P (m3_pause v n) (\<lambda>u. P)"
  unfolding m3_pause_def by (rule passes_do) (simp add: undisturbed_def)

lemma good_slots:
  assumes v: "undisturbed v" and w: "distinct (map fst ws)"
  shows "set ls \<subseteq> set ws \<Longrightarrow> distinct (map (\<lambda>l. snd (snd l)) ls) \<Longrightarrow> \<forall>l\<in>set ls. 0 < fst (snd l) \<and> snd (snd l) \<notin> set cids \<Longrightarrow>
    passes (good cfg n c ws C) (m3_slots v (map fst ls) cids) (\<lambda>pids s. pids = map (\<lambda>l. fst (snd l)) ls \<and> good cfg n c ws C s)"
proof (induction ls arbitrary: cids)
  case Nil
  show ?case unfolding list.map m3_slots.simps by (rule passes_return) simp
next
  case (Cons l ls)
  have IH: "passes (good cfg n c ws C) (m3_slots v (map fst ls) (snd (snd l) # cids)) (\<lambda>pids s. pids = map (\<lambda>l. fst (snd l)) ls \<and> good cfg n c ws C s)"
    by (rule Cons.IH) (use Cons.prems in \<open>auto simp: image_iff\<close>)
  show ?case
  proof (rule passesI)
    fix s
    assume g: "good cfg n c ws C s"
    have l: "l \<in> set ws" using Cons.prems(1) by simp
    from good_meta [OF g w l] obtain jail where m: "SlotMeta (fst l) (the_boss s) = Some (jail, fst (snd l), snd (snd l), ''jailer'')"
      by iprover
    have a: "m3_alive v s (fst (snd l))" using good_alive [OF v g] l by simp
    from IH g obtain t where t: "m3_slots v (map fst ls) (snd (snd l) # cids) s = (Inr (map (\<lambda>l. fst (snd l)) ls), t)" "good cfg n c ws C t"
      by (rule passesE) blast
    have "m3_slots v (map fst (l # ls)) cids s = (Inr (map (\<lambda>l. fst (snd l)) (l # ls)), t)"
      using m a Cons.prems(3) t(1) by (cases t rule: prod_cases4) (simp add: bar_bind_Inr)
    with t(2) show "\<exists>pids t. m3_slots v (map fst (l # ls)) cids s = (Inr pids, t) \<and> pids = map (\<lambda>l. fst (snd l)) (l # ls) \<and> good cfg n c ws C t"
      by iprover
  qed
qed

lemma wid_eq [simp]: "wid m = wid n \<longleftrightarrow> m mod 256 = n mod 256"
  unfolding wid_inject by (metis char_of_mod_256 of_char_of)

lemma wid_utf8: "unquote (quote (wid n)) = wid n"
  using hex_encode_ascii [of "[CHR 0x00, CHR 0x00, CHR 0x00, char_of n]"]
  by (intro unquote_quote ascii_valid_utf8) (simp add: wid_def ascii_string_def is_ascii_def)

lemma good_leases_Suc:
  assumes "good_stack cfg rt lot url" "length ws < 3" "3 \<le> c" "wid (Suc n) \<notin> fst ` set ws"
    and nxt: "n' = Suc (Suc n)" "c' = c + 1" "i = wid (Suc n)" "ws' = ws @ [(i, 101 + n, c)]"
    and rest': "passes (good cfg n' c' ws' C) (m3_leases v (router_front (direct base) env rt) base k) (\<lambda>ids s. ids = js \<and> G s)"
  shows "passes (good cfg n c ws C) (m3_leases v (router_front (direct base) env rt) base (Suc k)) (\<lambda>ids s. ids = i # js \<and> G s)"
  unfolding m3_leases.simps nxt(3)
proof (rule passes_bind [OF good_lease [OF assms(1-4), where C = C and base = base and env = env]], rule passes_fact, elim exE conjE)
  fix r mp
  assume r: "r = Inr (mp, 201)" "any_get mp ''id'' = jstr (wid (Suc n))"
  note rest = rest' [unfolded nxt]
  have i: "go_str (m3_sprint v) (any_get mp ''id'') = wid (Suc n)" using wid_utf8 by (simp add: r(2) go_str_def jstr_def)
  show "passes (good cfg (Suc (Suc n)) (c + 1) (ws @ [(wid (Suc n), 101 + n, c)]) C)
      (case r of Inl e \<Rightarrow> bar_fail (Fails ''M3-lease-3'')
       | Inr (info, code) \<Rightarrow>
           bar_bind (bar_check ''M3-lease-3'' (code = 201)) (\<lambda>_.
           bar_bind (m3_leases v (router_front (direct base) env rt) base k) (\<lambda>ids.
           bar_return (go_str (m3_sprint v) (any_get info ''id'') # ids))))
      (\<lambda>ids s. ids = wid (Suc n) # js \<and> G s)"
    unfolding r(1) sum.case prod.case i
    by (rule passes_bind, rule passes_check [where Q = "\<lambda>u. good cfg (Suc (Suc n)) (c + 1) (ws @ [(wid (Suc n), 101 + n, c)]) C"], simp)
      (rule passes_bind [OF rest], rule passes_return, simp)
qed

abbreviation three :: "lease list" where
  "three \<equiv> [(wid 1, 101, 3), (wid 3, 103, 4), (wid 5, 105, 5)]"

lemma good_leases:
  assumes "good_stack cfg rt lot url"
  shows "passes (good cfg 0 3 [] {}) (m3_leases v (router_front (direct base) env rt) base 3) (\<lambda>ids s. ids = map fst three \<and> good cfg 6 6 three {} s)"
proof -
  note step = good_leases_Suc [OF assms, where C = "{}" and G = "good cfg 6 6 three {}" and base = base and env = env and v = v]
  have 0: "passes (good cfg 6 6 three {}) (m3_leases v (router_front (direct base) env rt) base 0) (\<lambda>ids s. ids = [] \<and> good cfg 6 6 three {} s)"
    unfolding m3_leases.simps by (rule passes_return) simp
  have 1: "passes (good cfg 4 5 (take 2 three) {}) (m3_leases v (router_front (direct base) env rt) base (Suc 0))
      (\<lambda>ids s. ids = [wid 5] \<and> good cfg 6 6 three {} s)"
    by (rule step [OF _ _ _ _ _ _ _ 0]) simp_all
  have 2: "passes (good cfg 2 4 (take 1 three) {}) (m3_leases v (router_front (direct base) env rt) base (Suc (Suc 0)))
      (\<lambda>ids s. ids = [wid 3, wid 5] \<and> good cfg 6 6 three {} s)"
    by (rule step [OF _ _ _ _ _ _ _ 1]) simp_all
  show ?thesis unfolding numeral_3_eq_3 list.map fst_conv
    by (rule step [OF _ _ _ _ _ _ _ 2, unfolded numeral_3_eq_3]) simp_all
qed

lemma three_distinct: "distinct (map fst three)"
  by simp

lemma good_lease3:
  assumes st: "good_stack cfg rt lot url" and v: "undisturbed v"
  shows "passes (good cfg 0 3 [] {}) (m3_lease3 v (router_front (direct base) env rt) base)
    (\<lambda>x s. x = (map fst three, [101, 103, 105]) \<and> good cfg 8 6 three {} s)"
  unfolding m3_lease3_def
proof (rule passes_bind_eq [OF good_leases [OF st]])
  have sl: "passes (good cfg 6 6 three {}) (m3_slots v (map fst three) []) (\<lambda>pids s. pids = [101, 103, 105] \<and> good cfg 6 6 three {} s)"
    using good_slots [OF v three_distinct, of three "[]" cfg 6 6 "{}"] by simp
  have full: "passes (good cfg 6 6 three {}) (m3_post (router_front (direct base) env rt) base) (\<lambda>r s. reply_code r = 503 \<and> good cfg 8 6 three {} s)"
    using good_full [OF st, of three 6 6 "{}"] by simp
  show "passes (good cfg 6 6 three {}) (bar_bind (m3_slots v (map fst three) []) (\<lambda>pids.
      bar_bind (m3_post (router_front (direct base) env rt) base) (\<lambda>fourth.
      bar_bind (bar_check ''M3-lease-3'' (reply_code fourth = 503 \<or> reply_code fourth = 502)) (\<lambda>_. bar_return (map fst three, pids)))))
    (\<lambda>x s. x = (map fst three, [101, 103, 105]) \<and> good cfg 8 6 three {} s)"
    by (rule passes_bind_eq [OF sl], rule passes_bind_fact [OF full], rule passes_bind_check, simp, rule passes_return, simp)
qed

text \<open>A command and a check its reply meets.\<close>

lemma good_step:
  assumes st: "good_stack cfg rt lot url" "l \<in> set ws" "distinct (map fst ws)" "plain_id (fst l)" "sendable argv t"
    and ok: "\<And>r. shown v r \<Longrightarrow> ok r" and n: "n' = Suc n" "C' = (if last argv = canary then insert (fst l) C else C)" "i = fst l"
  shows "passes (good cfg n c ws C) (bar_bind (m3_exec (router_front (direct base) env rt) base i argv t) (\<lambda>r. bar_check nm (ok r)))
    (\<lambda>u. good cfg n' c ws C')"
  unfolding n by (rule passes_bind_fact [OF good_world_exec [OF st]], rule passes_check) (use ok in simp)

lemma commands:
  "sendable list_files 30" "last list_files \<noteq> canary" "sendable cat_canary 30" "last cat_canary = canary" "sendable [''/bin/true''] 20"
  "sendable probe_kvm 15" "last probe_kvm \<noteq> canary" "''/bin/true'' \<noteq> canary"
  by (simp_all add: sendable_def list_files_def cat_canary_def probe_kvm_def canary_def ascii_valid_utf8 ascii_string_def is_ascii_def)

lemma shown_texts: "contains node_shown ''hello.txt''" "\<not> contains node_shown ''HAS_KVM''" "contains node_shown ''CANARY''"
  by (simp_all add: node_shown_def contains_def)

lemma good_execs:
  assumes st: "good_stack cfg rt lot url"
  shows "passes (good cfg 8 6 three {}) (m3_execs v (router_front (direct base) env rt) base (map fst three)) (\<lambda>u. good cfg 11 6 three {})"
proof -
  have step: "passes (good cfg n 6 three {})
      (bar_bind (m3_exec (router_front (direct base) env rt) base i list_files 30) (\<lambda>r.
       bar_check ''M3-exec'' (exec_zero v r \<and> contains (call_stdout v r) ''hello.txt''))) (\<lambda>u. good cfg n' 6 three {})"
    if "l \<in> set three" "i = fst l" "n' = Suc n" for l i n n'
  proof (rule good_step [OF st that(1) three_distinct _ commands(1) _ that(3) _ that(2)])
    show "plain_id (fst l)" using that(1) wid_plain by (elim set_ConsD [THEN disjE]) simp_all
    show "exec_zero v r \<and> contains (call_stdout v r) ''hello.txt''" if "shown v r" for r
      using that shown_texts(1) unfolding shown_def by simp
    show "{} = (if last list_files = canary then insert (fst l) {} else {})" using commands(2) by simp
  qed
  have 1: "(wid 1, 101, 3) \<in> set three" "(wid 3, 103, 4) \<in> set three" "(wid 5, 105, 5) \<in> set three" by simp_all
  show ?thesis unfolding m3_execs_def list.map fst_conv
    by (rule passes_each_Cons [where R = "good cfg 9 6 three {}"], rule step [OF 1(1)], simp, simp,
        rule passes_each_Cons [where R = "good cfg 10 6 three {}"], rule step [OF 1(2)], simp, simp,
        rule passes_each_Cons [where R = "good cfg 11 6 three {}"], rule step [OF 1(3)], simp, simp, rule passes_each_Nil)
qed

lemma unknown_world: "plain_id ''no-such-world''" "''no-such-world'' \<noteq> wid n"
  by (simp_all add: plain_id_def wid_def)

lemma good_isolation:
  assumes st: "good_stack cfg rt lot url" and v: "undisturbed v"
  shows "passes (good cfg 11 6 three {}) (m3_isolation v (router_front (direct base) env rt) base (wid 1) (wid 3)) (\<lambda>u. good cfg 14 6 three {wid 1})"
proof -
  let ?tp = "router_front (direct base) env rt" and ?A = "{wid 1}"
  have canary: "passes (good cfg 11 6 three {}) (m3_exec ?tp base (wid 1) cat_canary 30) (\<lambda>r s. shown v r \<and> good cfg 12 6 three ?A s)"
    using good_world_exec [OF st, of "(wid 1, 101, 3)" three cat_canary 30 11 6 "{}" base env v] commands(3,4) wid_plain by simp
  have evA: "passes (good cfg 12 6 three ?A) (m3_events ?tp base (wid 1)) (\<lambda>r s. r = Inr (kind_event ''decoy_open'') \<and> good cfg 12 6 three ?A s)"
    using good_events [OF st wid_plain, of 12 6 three ?A base env 1] by simp
  have evB: "passes (good cfg 12 6 three ?A) (m3_events ?tp base (wid 3)) (\<lambda>r s. r = Inr (kind_event ''start'') \<and> good cfg 12 6 three ?A s)"
    using good_events [OF st wid_plain, of 12 6 three ?A base env 3] by simp
  have unk: "passes (good cfg 12 6 three ?A) (m3_exec ?tp base ''no-such-world'' [''/bin/true''] 10) (\<lambda>r s. reply_code r = 404 \<and> good cfg 13 6 three ?A s)"
    using good_unknown [OF st unknown_world(1), of three 12 6 ?A base env "[''/bin/true'']" 10] unknown_world(2) by simp
  have last: "passes (good cfg 13 6 three ?A) (m3_exec ?tp base (wid 3) [''/bin/true''] 20) (\<lambda>r s. shown v r \<and> good cfg 14 6 three ?A s)"
    using good_world_exec [OF st, of "(wid 3, 103, 4)" three "[''/bin/true'']" 20 13 6 ?A base env v] commands(5,8) wid_plain by simp
  have ok: "shown v r \<Longrightarrow> exec_zero v r" for r by (simp add: shown_def)
  show ?thesis unfolding m3_isolation_def
    by (rule passes_bind_fact [OF canary], rule passes_bind [OF good_pause [OF v]],
        rule passes_bind_eq [OF evA], unfold sum.case, rule passes_bind_eq [OF evB], unfold sum.case,
        rule passes_bind_check [OF node_events(1)], rule passes_bind_check [OF node_events(2)],
        rule passes_bind_fact [OF unk], rule passes_bind_check, simp,
        rule passes_bind_fact [OF last], rule passes_bind_check, erule ok, rule passes_check, simp add: node_events)
qed

abbreviation two :: "lease list" where
  "two \<equiv> [(wid 3, 103, 4), (wid 5, 105, 5)]"

lemma good_scale_down:
  assumes st: "good_stack cfg rt lot url" and v: "undisturbed v"
  shows "passes (good cfg 14 6 three {wid 1}) (m3_scale_down v (router_front (direct base) env rt) base (wid 1) 101 [wid 3, wid 5])
    (\<lambda>u. good cfg 17 6 two {wid 1})"
proof -
  let ?tp = "router_front (direct base) env rt" and ?A = "{wid 1}"
  have del: "passes (good cfg 14 6 three ?A) (bar_call (deleteWorld ?tp base (wid 1))) (\<lambda>r s. r = Inr 200 \<and> good cfg 15 6 two ?A s)"
    using good_delete [OF st, of "(wid 1, 101, 3)" three 14 6 ?A base env] wid_plain by simp
  have dead: "passes (good cfg 15 6 two ?A) (bar_get (\<lambda>s. m3_alive v s 101)) (\<lambda>a s. a = False \<and> good cfg 15 6 two ?A s)"
    by (rule passes_get) (simp add: good_alive [OF v])
  have step: "passes (good cfg n 6 two ?A) (bar_bind (m3_exec ?tp base i list_files 30) (\<lambda>r. bar_check ''M3-scale-down'' (exec_zero v r)))
      (\<lambda>u. good cfg n' 6 two ?A)" if "l \<in> set two" "i = fst l" "n' = Suc n" for l i n n'
  proof (rule good_step [OF st that(1) _ _ commands(1) _ that(3) _ that(2)])
    show "distinct (map fst two)" by simp
    show "plain_id (fst l)" using that(1) wid_plain by (elim set_ConsD [THEN disjE]) simp_all
    show "exec_zero v r" if "shown v r" for r using that unfolding shown_def by simp
    show "?A = (if last list_files = canary then insert (fst l) ?A else ?A)" using commands(2) by simp
  qed
  have 1: "(wid 3, 103, 4) \<in> set two" "(wid 5, 105, 5) \<in> set two" by simp_all
  show ?thesis unfolding m3_scale_down_def
    by (rule passes_bind_eq [OF del], rule passes_bind_check, rule refl, rule passes_bind [OF good_pause [OF v]],
        rule passes_bind_eq [OF dead], rule passes_bind_check, simp,
        rule passes_each_Cons [where R = "good cfg 16 6 two ?A"], rule step [OF 1(1)], simp, simp,
        rule passes_each_Cons [where R = "good cfg 17 6 two ?A"], rule step [OF 1(2)], simp, simp, rule passes_each_Nil)
qed

abbreviation again :: "lease list" where
  "again \<equiv> [(wid 3, 103, 4), (wid 5, 105, 5), (wid 18, 118, 6)]"

lemma good_live_bar: "undisturbed v \<Longrightarrow> passes (good cfg n c ws C) (m3_live v k) (\<lambda>ids s. ids = map fst ws \<and> good cfg n c ws C s)"
  unfolding m3_live_def by (rule passes_get) (simp add: LiveIDs_def undisturbed_def good_live)

lemma good_demand:
  assumes st: "good_stack cfg rt lot url" and v: "undisturbed v"
  shows "passes (good cfg 17 6 two {wid 1}) (m3_demand v (router_front (direct base) env rt) base) (\<lambda>u. good cfg 21 7 again {wid 1})"
proof -
  let ?tp = "router_front (direct base) env rt" and ?A = "{wid 1}"
  have new: "passes (good cfg 17 6 two ?A) (m3_post ?tp base) (\<lambda>r s. reply_code r = 201 \<and> good cfg 19 7 again ?A s)"
    by (rule passes_post [OF good_lease [OF st, of two 6 17 ?A base env]]) (auto simp: reply_code_def)
  have full: "passes (good cfg 19 7 again ?A) (m3_post ?tp base) (\<lambda>r s. reply_code r = 503 \<and> good cfg 21 7 again ?A s)"
    using good_full [OF st, of again 19 7 ?A base env] by simp
  show ?thesis unfolding m3_demand_def
    by (rule passes_bind_fact [OF new], rule passes_bind_check, assumption, rule passes_bind_eq [OF good_live_bar [OF v]], rule passes_bind_check, simp,
        rule passes_bind_fact [OF full], rule passes_check, simp)
qed

lemma good_no_kvm:
  assumes st: "good_stack cfg rt lot url" and v: "undisturbed v"
  shows "passes (good cfg 21 7 again {wid 1}) (m3_no_kvm v (router_front (direct base) env rt) base) (\<lambda>u. good cfg 24 7 again {wid 1})"
proof -
  let ?tp = "router_front (direct base) env rt" and ?A = "{wid 1}"
  have step: "passes (good cfg n 7 again ?A) (bar_bind (m3_exec ?tp base i probe_kvm 15) (\<lambda>r.
       bar_check ''M3-no-kvm-guest'' (reply_code r = 200 \<and> \<not> contains (call_stdout v r) ''HAS_KVM''))) (\<lambda>u. good cfg n' 7 again ?A)"
    if "l \<in> set again" "i = fst l" "n' = Suc n" for l i n n'
  proof (rule good_step [OF st that(1) _ _ commands(6) _ that(3) _ that(2)])
    show "distinct (map fst again)" by simp
    show "plain_id (fst l)" using that(1) wid_plain by (elim set_ConsD [THEN disjE]) simp_all
    show "reply_code r = 200 \<and> \<not> contains (call_stdout v r) ''HAS_KVM''" if "shown v r" for r
      using that shown_texts(2) unfolding shown_def by simp
    show "?A = (if last probe_kvm = canary then insert (fst l) ?A else ?A)" using commands(7) by simp
  qed
  have 1: "(wid 3, 103, 4) \<in> set again" "(wid 5, 105, 5) \<in> set again" "(wid 18, 118, 6) \<in> set again" by simp_all
  show ?thesis unfolding m3_no_kvm_def
    by (rule passes_bind_eq [OF good_live_bar [OF v]], unfold list.map fst_conv,
        rule passes_each_Cons [where R = "good cfg 22 7 again ?A"], rule step [OF 1(1)], simp, simp,
        rule passes_each_Cons [where R = "good cfg 23 7 again ?A"], rule step [OF 1(2)], simp, simp,
        rule passes_each_Cons [where R = "good cfg 24 7 again ?A"], rule step [OF 1(3)], simp, simp, rule passes_each_Nil)
qed

definition opt_out_members :: members where
  "opt_out_members = [(''argv'', JArr (map jstr cat_canary)), (''jail'', JFalse), (''timeout'', jint 30)]"

lemma opt_out_read: "unmarshal_with execReq_of opt_out_body = Some (cat_canary, 30)"
proof -
  have u: "\<forall>s\<in>set cat_canary. valid_utf8 s" using commands(3) by (simp add: sendable_def)
  have keys: "\<forall>m\<in>set opt_out_members. plain_key (fst m)" "distinct (map fst opt_out_members)" by (simp_all add: opt_out_members_def)
  have "jdepth JFalse = 0" by simp
  then have wf: "wf_members opt_out_members" "low_members opt_out_members"
    using jdepth_strs [of cat_canary] by (simp_all add: opt_out_members_def maxNestingDepth_def del: jdepth.simps)
  have "field_strs ''argv'' [] opt_out_members = (True, cat_canary)" "field_int ''timeout'' 0 opt_out_members = (True, 30)"
    by (rule field_with_map_of [OF keys]; auto simp: opt_out_members_def dec_strs_jstr [OF u])+
  then have "execReq_of opt_out_members = (True, (cat_canary, 30))" by (simp add: execReq_of_def)
  from unmarshal_members(1) [where dec = execReq_of, OF wf this] show ?thesis unfolding opt_out_body_def opt_out_members_def .
qed

lemma good_tenant_jail:
  assumes st: "good_stack cfg rt lot url" and v: "undisturbed v"
  shows "passes (good cfg 24 7 again {wid 1}) (m3_tenant_jail v (router_front (direct base) env rt) base) (\<lambda>u. good cfg 25 7 again {wid 1, wid 3})"
proof -
  let ?tp = "router_front (direct base) env rt" and ?A = "{wid 1}" and ?B = "{wid 1, wid 3}"
  let ?p = "answers \<lparr>rs_code = 200, rs_body = render (result_tree node_result)\<rparr>"
  have sent: "passes (good cfg 24 7 again ?A) (bar_call (send ?tp ''POST'' (base @ ''/v1/worlds/'' @ wid 3 @ ''/exec'') opt_out_body))
      (\<lambda>r s. r = Reply ?p \<and> good cfg 25 7 again ?B s)"
  proof (rule passes_call)
    fix s
    assume g: "good cfg 24 7 again ?A s"
    have "insert (wid 3) {wid 1} = {wid 1, wid 3}" by blast
    with good_send [OF st g, of "(wid 3, 103, 4)", OF _ _ _ opt_out_read commands(3), of base env] commands(4) wid_plain
    show "\<exists>r t. send ?tp ''POST'' (base @ ''/v1/worlds/'' @ wid 3 @ ''/exec'') opt_out_body s = (r, t) \<and> r = Reply ?p \<and> good cfg 25 7 again ?B t"
      by simp
  qed
  have ev: "passes (good cfg 25 7 again ?B) (m3_events ?tp base (wid 3)) (\<lambda>r s. r = Inr (kind_event ''decoy_open'') \<and> good cfg 25 7 again ?B s)"
    using good_events [OF st wid_plain, of 25 7 again ?B base env 3] by simp
  have "shown v (Inr (reply_map (hp_body ?p), hp_code ?p))" using node_result_shown [of v] by (simp add: answers_def)
  then have ok: "exec_zero v (Inr (reply_map (hp_body ?p), hp_code ?p)) \<and> contains (call_stdout v (Inr (reply_map (hp_body ?p), hp_code ?p))) ''CANARY''"
    using shown_texts(3) unfolding shown_def by simp
  have reply: "passes (good cfg 25 7 again ?B) (m3_jail_reply v ?tp base (wid 3) ?p) (\<lambda>u. good cfg 25 7 again ?B)"
    unfolding m3_jail_reply_def Let_def
    by (rule passes_bind_check [OF ok], rule passes_bind [OF good_pause [OF v]], rule passes_bind_eq [OF ev], unfold sum.case,
        rule passes_check) (simp add: node_events)
  show ?thesis unfolding m3_tenant_jail_def
    by (rule passes_bind_eq [OF good_live_bar [OF v]], unfold list.map fst_conv list.case,
        rule passes_bind_eq [OF sent], unfold sent.case, rule reply)
qed

section \<open>The whole test\<close>

lemma good_fleet_bars:
  assumes st: "good_stack cfg rt lot url" and v: "undisturbed v"
  shows "passes (good cfg 0 3 [] {}) (m3_bars v (router_front (direct base) env rt) base) (\<lambda>u. good cfg 25 7 again {wid 1, wid 3})"
proof -
  have a: "map fst three ! 0 = wid 1" "map fst three ! 1 = wid 3" "map fst three ! 2 = wid 5" "[101, 103, 105 :: nat] ! 0 = 101" by simp_all
  show ?thesis unfolding m3_bars_def
    by (rule passes_bind_eq [OF good_lease3 [OF st v]], unfold prod.case, rule passes_bind [OF good_execs [OF st]], unfold a,
        rule passes_bind [OF good_isolation [OF st v]], rule passes_bind [OF good_scale_down [OF st v]],
        rule passes_bind [OF good_demand [OF st v]], rule passes_bind [OF good_no_kvm [OF st v]], rule good_tenant_jail [OF st v])
qed

lemma good_fleet_passes:
  assumes st: "good_stack cfg rt lot url" and v: "undisturbed v" and g: "good cfg 0 3 [] {} s"
  shows "\<exists>t. m3_fleet v (router_front (direct base) env rt) base s = (AllPass, t)"
proof -
  obtain s1 where b: "m3_bars v (router_front (direct base) env rt) base s = (Inr (), s1)"
    by (rule passesE [OF good_fleet_bars [OF st v] g]) auto
  have "mset (m3_order v n xs) = mset xs" for n xs using v by (simp add: undisturbed_def)
  then have "bs_worlds (the_boss (m3_stop v s1)) = []" using stopped_empty [of "m3_order v 5" "m3_net v" "snd s1"] by (simp add: m3_stop_def)
  then have "\<not> m3_alive v (m3_sleep v 800 (m3_stop v s1)) p" for p using v by (simp add: undisturbed_def)
  then show ?thesis
    by (intro exI [of _ "m3_sleep v 800 (m3_stop v s1)"]) (simp only: m3_fleet_def b prod.case sum.case Let_def list_ex_iff, simp)
qed

text \<open>The test on this fleet, from its start under \<open>sudo\<close>.\<close>

definition node_addr :: "nat \<Rightarrow> string" where
  "node_addr n = ''127.0.0.1:'' @ show_nat (9000 + n)"

definition node_url :: "nat \<Rightarrow> string" where
  "node_url n = ''http://'' @ node_addr n"

definition good_fleet :: "node m3_env" where
  "good_fleet = \<lparr>m3_kvm = (None, None), m3_getenv = sudo_vars, m3_wd = ''/'', m3_stat = (\<lambda>p. True), m3_tmp = Inr ''/tmp/m3'',
     m3_store = (\<lambda>p d. (None, d)), m3_listen = (\<lambda>n. Inr (node_addr n)), m3_os = node_os,
     m3_engine = boss_front (direct (node_url 1)) node_env tick, m3_desk = desk_front (node_desk (trim_right (CHR ''/'') (node_url 0))),
     m3_front = router_front (direct (node_url 2)) sudo_vars, m3_net = node_net, m3_order = (\<lambda>n xs. xs), m3_sleep = (\<lambda>n s. s),
     m3_alive = (\<lambda>s p. list_ex (\<lambda>x. w_cmd (sl_w (snd x)) = Some p) (bs_worlds (the_boss s))), m3_fint = (\<lambda>t. None), m3_sprint = (\<lambda>j. [])\<rparr>"

definition new_node :: node where
  "new_node = \<lparr>nd_tick = 0, nd_guests = (\<lambda>i. fresh_guest)\<rparr>"

lemma good_fleet_fields:
  "m3_engine good_fleet = boss_front (direct (node_url 1)) node_env tick" "m3_desk good_fleet = desk_front (node_desk (trim_right (CHR ''/'') (node_url 0)))"
  "m3_front good_fleet = router_front (direct (node_url 2)) sudo_vars" "m3_getenv good_fleet = sudo_vars"
  unfolding good_fleet_def by (simp_all only: m3_env.simps)

lemma good_fleet_undisturbed: "undisturbed good_fleet"
  unfolding undisturbed_def good_fleet_def by (simp only: m3_env.simps)

lemma good_fleet_wired: "wired (\<lambda>_. []) (\<lambda>_ _ _. 0) good_fleet"
proof -
  have "same_lib (\<lambda>_. []) (\<lambda>_ _ _. 0) node_env" by (simp add: same_lib_def node_env_def)
  moreover have "mset (m3_order good_fleet n xs) = mset xs" "fleet_moves (\<lambda>_. []) (\<lambda>_ _ _. 0) s (m3_sleep good_fleet n s)" for n xs s
    using good_fleet_undisturbed by (simp_all add: undisturbed_def boss_moves_refl)
  ultimately show ?thesis unfolding wired_def using good_fleet_fields by metis
qed

lemma ready_config: "bs_cfg b = bs_cfg b' \<Longrightarrow> EngineReady os b = EngineReady os b'"
  by (simp add: EngineReady_def kvmOK_def artifactsOK_def)

lemma good_fleet_stack:
  "good_stack (default_config sudo_vars (sudo_config (node_url 0)))
     (NewServer (Some (HTTPEngine_engine (node_url 1, m3_engine good_fleet))) (node_url 0) (m3_desk good_fleet))
     (node_url 1) (trim_right (CHR ''/'') (node_url 0))"
proof -
  let ?cfg = "default_config sudo_vars (sudo_config (node_url 0))"
  have "EngineReady node_os b" if "bs_cfg b = ?cfg" for b
    using ready_config [of b "NewBossConfig sudo_vars (sudo_config (node_url 0))" node_os] sudo_ready that
    by (simp add: NewBossConfig_def node_os_def)
  moreover have "path_join [''/b'', ''runtime/bin/fc-waitkvm''] \<noteq> []" by code_simp
  then have "cf_WaitKVM ?cfg \<noteq> []" by (simp add: default_config_def sudo_config_def m3_config_def Let_def)
  moreover have "cf_MaxWorlds ?cfg = 3" unfolding sudo_config_def by (rule m3_cap)
  moreover have "trim_right (CHR ''/'') (node_url 0) \<noteq> []" by (simp add: trim_right_def node_url_def)
  ultimately show ?thesis by (simp add: good_stack_def NewServer_def good_fleet_fields)
qed

lemma good_fleet_start: "good (default_config sudo_vars (sudo_config (node_url 0))) 0 3 [] {}
    (NewStickyMap, NewBossConfig sudo_vars (sudo_config (node_url 0)), {#}, new_node)"
  by (simp add: good_def NewBossConfig_def new_node_def opened_def)

lemma good_fleet_run: "\<exists>t. m3_run good_fleet {#} new_node = Some (AllPass, Some t)"
proof -
  obtain t where t: "m3_fleet good_fleet (m3_front good_fleet (NewServer (Some (HTTPEngine_engine (node_url 1, m3_engine good_fleet))) (node_url 0)
      (m3_desk good_fleet))) (node_url 2) (NewStickyMap, NewBossConfig sudo_vars (sudo_config (node_url 0)), {#}, new_node) = (AllPass, t)"
    using good_fleet_passes [OF good_fleet_stack good_fleet_undisturbed good_fleet_start, where env = sudo_vars and base = "node_url 2"] good_fleet_fields(3) by auto
  have "m3_run good_fleet {#} new_node = Some (AllPass, Some t)"
    by (rule sudo_run [where addr = node_addr, OF _ _ _ _ _ _ _ t [unfolded node_url_def]]) (simp_all add: good_fleet_def node_os_def)
  then show ?thesis ..
qed


end
