(* ===== verification/Spec2Isabelle.thy ===== *)
theory Spec2Isabelle
  imports DeskTheorems RouterTheorems BossContracts Composition GuestTheorems Proxy Vsock EventSink LotCommand GoodNode
begin

text \<open>
  Backlot, a verification development.

  \<^bold>\<open>The program.\<close> Backlot leases Firecracker worlds to agents. The router (\<open>router/\<close>) is the public
  interface: it keeps the binding of sessions to worlds and passes requests on to lot-boss (\<open>lot/\<close>), which
  starts, pauses, uses and destroys worlds on a KVM host through \<open>runtime/world\<close> and talks to them over
  vsock (\<open>runtime/vsockhost\<close>). Inside a world runs an agent (\<open>runtime/cmd/world-runtime\<close>) that executes
  commands in a jail and reports events to the host. lot-boss forwards the events to the continuity desk
  (\<open>desk/\<close>), which keeps them in append-only, hash-chained files. An egress proxy (\<open>proxy/\<close>) is the only way
  out. All of it is Go.

  \<^bold>\<open>The library.\<close>
  \<^item> \<open>Prelude\<close>, \<open>GoStrings\<close>, \<open>Paths\<close>, \<open>GoTime\<close>: what the program uses of Go's standard library over byte
    strings: numbers, UTF-8, splitting and trimming, \<open>filepath\<close>, line scanners, durations.
  \<^item> \<open>Json\<close>, \<open>JsonCodec\<close>, \<open>JsonRaw\<close>, \<open>JsonFields\<close>, \<open>JsonDecode\<close>, \<open>JsonSize\<close>, \<open>JsonAny\<close>: \<open>encoding/json\<close>: a parser
    with the nesting limit of the library, the encoder, raw messages, the decoding of struct fields and of
    \<open>map[string]any\<close>, and the round trips between them. The parser's fuel is one more than the length of
    its input, and the round trip shows that this is enough for everything the encoder writes.
  \<^item> \<open>HttpModel\<close>: requests, responses, the matching of \<open>ServeMux\<close>, and clients over a transport.

  \<^bold>\<open>The desk.\<close> \<open>DeskEvent\<close> (\<open>desk/event.go\<close>), \<open>DeskStore\<close> (\<open>desk/store.go\<close>), \<open>DeskServer\<close> (\<open>desk/server.go\<close>).
  The store is a record with the counter and the tips, the disk a map from paths to contents, the results
  of system calls an argument, SHA-256 a parameter. \<open>EventLog\<close> states the contract of an event log as a locale, \<open>DeskLog\<close> and
  \<open>DeskServer\<close> prove it for the store, \<open>DeskTheorems\<close> holds the properties: the chain of a world verifies in
  every reachable state, a restart is invisible, readers that page miss nothing, files only grow, the
  chain is tamper-evident, and the errors of a commit.

  \<^bold>\<open>The router.\<close> \<open>Sticky\<close> (\<open>router/sticky.go\<close>), \<open>RouterEngine\<close> (\<open>router/engine.go\<close>), \<open>RouterServer\<close>
  (\<open>router/server.go\<close>), \<open>RouterTheorems\<close>. The binding is the contract \<open>session_binding\<close>, the engine the contract
  \<open>engine\<close>, both locales interpreted on the program's definitions. No two sessions share a world, a
  session keeps its world, and no handler panics.

  \<^bold>\<open>Worlds on the host.\<close> \<open>WorldVM\<close> and \<open>WorldExec\<close> (\<open>runtime/world/world.go\<close>): the host is the multiset of
  listeners, processes and mounts it holds. \<open>WorldHost\<close> states what starting and stopping promise
  (\<open>vm_host\<close>) and interprets it; \<open>WorldTheorems\<close>: a start is all or nothing, the jailed VMM is never root,
  the guest's event stream is recorded. \<open>EventSink\<close>: the listener of event connections, whose goroutines write one file, and
  that no connection disturbs another. \<open>Vsock\<close> (\<open>runtime/vsockhost/host.go\<close>): a connection is handed over exactly after its
  acknowledgement.

  \<^bold>\<open>lot-boss.\<close> \<open>BossState\<close> (its data, \<open>lot/pause.go\<close> and readiness), \<open>BossOps\<close> (the operations of \<open>lot/boss.go\<close>, cut where
  they drop the lock), \<open>BossServer\<close> (the handlers). \<open>BossSteps\<close> is the step relation in which the
  parts of all callers interleave, \<open>BossInv\<close> its invariant, \<open>BossRefine\<close> shows that an uninterrupted request is a run of the
  steps. \<open>BossTheorems\<close> and \<open>BossContracts\<close>: the cap, the slots, the CIDs and the host's resources under every interleaving, what a
  shutdown does and what escapes it, the configuration, the pause cycle. \<open>Forwarder\<close>: the
  event forwarder equals one pass over the file.

  \<^bold>\<open>The guest and the proxy.\<close> \<open>WorldRuntime\<close> and \<open>GuestTheorems\<close> (\<open>runtime/cmd/world-runtime\<close>): every
  command of a tenant is jailed; the bounds of timeouts. \<open>Proxy\<close> (\<open>proxy/main.go\<close>): denial by
  default, and the \<open>CONNECT\<close> target that gets around the list. \<open>Mains\<close>: what the commands compute before
  they serve, and the termination of the search for the repository's root. \<open>LotCommand\<close>: lot-boss from its start to its exit,
  and that a signal leaves no world behind.

  \<^bold>\<open>Together.\<close> \<open>Pipeline\<close>: events emitted in a guest are reported exactly. \<open>Composition\<close>: a report is a commit
  at the desk, and a lease of the router is a lease of lot-boss. \<open>ExecCodec\<close>, \<open>ExecChain\<close>: a tenant's command goes from the
  router through lot-boss and the agent into the inner ring, and its result comes back unchanged.

  \<^bold>\<open>The acceptance tests.\<close> \<open>Bars\<close> is how both proceed: steps that pass or end the test, with the locales
  \<open>effects\<close> (a reflexive and transitive relation that steps keep) and \<open>served\<close> (a client whose every exchange keeps it).
  \<open>M2Test\<close> (\<open>runtime/cmd/m2test\<close>): the test of one world, and that it leaves nothing on the host. \<open>M3Test\<close>
  (\<open>lot/cmd/m3test\<close>): the test of the fleet, an agent of a router that is served over a lot-boss and a desk in one process.
  \<open>Fleet\<close> puts the servers behind the clients (\<open>boss_front\<close>, \<open>desk_front\<close>, \<open>router_front\<close>; how a request
  arrives and which replies are lost are arguments) and shows, through the locale \<open>backend\<close>, that whatever the agent does is a
  run of lot-boss's steps. \<open>M3Theorems\<close>: however the test ends nothing is left, and what its passing shows. That it can pass is
  shown too: \<open>Bars\<close> has total-correctness triples (\<open>passes\<close>), \<open>FleetCalls\<close> what the requests of the test do along the whole
  way, and \<open>GoodNode\<close> a node on which everything goes well and a run of the test there that passes every bar.

  \<^bold>\<open>Conventions.\<close> A Go error is its text or a datatype of errors, a function with an error result returns a sum. Every system
  call, clock reading, random byte and answer of the network is an argument, so theorems hold for all
  of them unless they name the case. An operation under a mutex is one step. The order of a range over a
  map is an argument. Counters that may wrap are machine words. Loops over polls until a deadline are lists of the
  answers they meet.

  \<^bold>\<open>Not modelled.\<close> What the acceptance tests print beside their verdict and the removal of their working
  directories; the Python of the inner ring, the guest image, deployment files and
  scripts; listening and logging of the commands; the copying of bytes through a tunnel; and the
  descriptor of the VMM's log file, which the program leaves to the runtime to close.
\<close>

end
